(* ===== verification/Regi_Prelude.thy ===== *)
theory Regi_Prelude
  imports Main "HOL-Library.Word"
begin

unbundle bit_operations_syntax

text \<open>
  What the components share: machine words under the names the sources use, the
  little-endian view of a word in memory (the C unions FieldU16 and FieldU32 on the
  little-endian hosts the tools run on), fixed-size arrays that are copied into, the
  cutting of a byte sequence into blocks, and a few generic list facts.

  A read or write outside an array has no meaning in the sources.  The operations that
  may do so return an option, with \<^theory_text>\<open>None\<close> for the access outside the array.
\<close>

section \<open>Runs that stop\<close>

text \<open>
  Why a run cannot go on: an access outside an array, an event for an operation that is not
  under way, the end of the events, an exception that leaves the code, a division by zero, a
  number that its type cannot hold, an access through a pointer to no object.
\<close>

datatype stop = OutOfBounds | NotPending | Starved | Thrown | DivByZero | OutOfRange | Dangling

section \<open>Words and bytes\<close>

type_synonym byte = "8 word"
type_synonym u16 = "16 word"
type_synonym u32 = "32 word"

named_theorems codec "equations that evaluate byte encodings"

text \<open>The bytes of a word in the memory of a little-endian host, lowest address first.\<close>

definition le16 :: "u16 \<Rightarrow> byte list" where
  "le16 w = [ucast w, ucast (drop_bit 8 w)]"

definition le32 :: "u32 \<Rightarrow> byte list" where
  "le32 w = [ucast w, ucast (drop_bit 8 w), ucast (drop_bit 16 w), ucast (drop_bit 24 w)]"

definition mk16 :: "byte \<Rightarrow> byte \<Rightarrow> u16" where
  "mk16 a b = ucast a OR push_bit 8 (ucast b)"

definition mk32 :: "byte \<Rightarrow> byte \<Rightarrow> byte \<Rightarrow> byte \<Rightarrow> u32" where
  "mk32 a b c d =
     ucast a OR push_bit 8 (ucast b) OR push_bit 16 (ucast c) OR push_bit 24 (ucast d)"

text \<open>Reading a word back from the first bytes of a list.\<close>

definition of_le16 :: "byte list \<Rightarrow> u16" where
  "of_le16 bs = mk16 (bs ! 0) (bs ! 1)"

definition of_le32 :: "byte list \<Rightarrow> u32" where
  "of_le32 bs = mk32 (bs ! 0) (bs ! 1) (bs ! 2) (bs ! 3)"

declare le16_def [codec] le32_def [codec] of_le16_def [codec] of_le32_def [codec]

lemma length_le16 [simp]: "length (le16 w) = 2"
  by (simp add: le16_def)

lemma length_le32 [simp]: "length (le32 w) = 4"
  by (simp add: le32_def)

lemma le_not_Nil [simp]: "le16 v \<noteq> []" "le32 w \<noteq> []"
  by (simp_all add: le16_def le32_def)

lemma mk16_split [simp]: "mk16 (ucast w) (ucast (drop_bit 8 w)) = w"
  unfolding mk16_def
  by (rule bit_word_eqI) (auto simp: bit_simps not_less dest: bit_imp_le_length)

lemma mk32_split [simp]:
  "mk32 (ucast w) (ucast (drop_bit 8 w)) (ucast (drop_bit 16 w)) (ucast (drop_bit 24 w)) = w"
proof (rule bit_word_eqI)
  fix n :: nat
  assume n: "n < LENGTH(32)"
  consider "n < 8" | "8 \<le> n" "n < 16" | "16 \<le> n" "n < 24" | "24 \<le> n" by linarith
  then show "bit (mk32 (ucast w) (ucast (drop_bit 8 w)) (ucast (drop_bit 16 w))
      (ucast (drop_bit 24 w))) n = bit w n"
    using n by cases (auto simp: mk32_def bit_simps not_less dest: bit_imp_le_length)
qed

lemma unat_lt: "unat (b :: byte) < 256"
  using unsigned_less [of b] by simp

lemma unat_mk16: "unat (mk16 a b) = unat a + 256 * unat b"
proof -
  have "mk16 a b = ucast a + push_bit 8 (ucast b)"
    unfolding mk16_def
    by (rule disjunctive_add [symmetric]) (auto simp: bit_simps dest: bit_imp_le_length)
  also have "\<dots> = word_of_nat (unat a + 256 * unat b)"
    by (simp add: push_bit_eq_mult)
  finally have eq: "mk16 a b = word_of_nat (unat a + 256 * unat b)" .
  show ?thesis
    unfolding eq unat_of_nat using unat_lt [of a] unat_lt [of b] by simp
qed

lemma of_le16_le16 [simp]: "of_le16 (le16 w) = w"
  by (simp add: codec)

lemma of_le32_le32 [simp]: "of_le32 (le32 w) = w"
  by (simp add: codec numeral_2_eq_2 numeral_3_eq_3)

lemma le16_mk16 [simp]: "le16 (mk16 a b) = [a, b]"
  unfolding le16_def mk16_def
  by (simp, intro conjI; rule bit_word_eqI)
    (auto simp: bit_simps dest: bit_imp_le_length)

lemma le32_mk32 [simp]: "le32 (mk32 a b c d) = [a, b, c, d]"
  unfolding le32_def mk32_def
  by (simp, intro conjI; rule bit_word_eqI)
    (auto simp: bit_simps dest: bit_imp_le_length)

lemma of_le16_cons [simp]: "of_le16 (a # b # bs) = mk16 a b"
  by (simp add: of_le16_def)

lemma of_le32_cons [simp]: "of_le32 (a # b # c # d # bs) = mk32 a b c d"
  by (simp add: of_le32_def numeral_2_eq_2 numeral_3_eq_3)

text \<open>
  The interface of a fixed-width byte code: every value has \<open>width\<close> bytes and is read
  back from them.  Two encodings of one width that agree are of the same value.
\<close>

locale byte_code =
  fixes width :: nat
    and enc :: "'a \<Rightarrow> byte list"
    and dec :: "byte list \<Rightarrow> 'a"
  assumes enc_width: "length (enc x) = width"
    and dec_enc: "dec (enc x) = x"
begin

lemma enc_inj: "enc x = enc y \<Longrightarrow> x = y"
  by (metis dec_enc)

lemma dec_prefix:
  assumes "take width bs = enc x"
  shows "dec (take width bs) = x"
  using assms by (simp add: dec_enc)

lemma enc_append_inj: "enc x @ bs = enc y @ cs \<longleftrightarrow> x = y \<and> bs = cs"
  using enc_inj by (auto simp: append_eq_append_conv enc_width)

end

interpretation le16: byte_code 2 le16 of_le16
  by unfold_locales simp_all

interpretation le32: byte_code 4 le32 of_le32
  by unfold_locales simp_all

section \<open>Arrays that are copied into\<close>

text \<open>\<open>memcpy\<close> of all of \<open>ys\<close> to offset \<open>off\<close> of the array \<open>xs\<close>.\<close>

definition overwrite :: "'a list \<Rightarrow> nat \<Rightarrow> 'a list \<Rightarrow> 'a list" where
  "overwrite xs off ys = take off xs @ ys @ drop (off + length ys) xs"

lemma length_overwrite [simp]:
  "off + length ys \<le> length xs \<Longrightarrow> length (overwrite xs off ys) = length xs"
  by (simp add: overwrite_def)

lemma overwrite_Nil [simp]: "overwrite xs off [] = xs"
  by (simp add: overwrite_def)

lemma nth_overwrite:
  "off + length ys \<le> length xs \<Longrightarrow> i < length xs \<Longrightarrow>
   overwrite xs off ys ! i =
     (if off \<le> i \<and> i < off + length ys then ys ! (i - off) else xs ! i)"
  by (auto simp: overwrite_def nth_append min_def not_less)

lemma take_overwrite:
  "off + length ys \<le> length xs \<Longrightarrow>
   take (off + length ys) (overwrite xs off ys) = take off xs @ ys"
  by (simp add: overwrite_def)

lemma take_overwrite_0 [simp]:
  "length ys \<le> length xs \<Longrightarrow> take (length ys) (overwrite xs 0 ys) = ys"
  by (simp add: overwrite_def)

lemma overwrite_Cons:
  "off < length xs \<Longrightarrow>
   overwrite (xs[off := y]) (Suc off) ys = overwrite xs off (y # ys)"
  by (simp add: overwrite_def take_Suc_conv_app_nth upd_conv_take_nth_drop add.commute)

text \<open>Reading \<open>n\<close> bytes at \<open>off\<close> of a memory region; \<open>None\<close> outside the region.\<close>

definition mem_read :: "byte list \<Rightarrow> nat \<Rightarrow> nat \<Rightarrow> byte list option" where
  "mem_read m off n = (if off + n \<le> length m then Some (take n (drop off m)) else None)"

lemma mem_read_length: "mem_read m off n = Some bs \<Longrightarrow> length bs = n"
  by (auto simp: mem_read_def split: if_splits)

section \<open>Blocks of a byte sequence\<close>

text \<open>The sequence cut into blocks of \<open>n\<close> elements, the last one possibly shorter.\<close>

function chunks :: "nat \<Rightarrow> 'a list \<Rightarrow> 'a list list" where
  "chunks n xs = (if xs = [] \<or> n = 0 then [] else take n xs # chunks n (drop n xs))"
  by pat_completeness auto
termination
  by (relation "measure (\<lambda>(n, xs). length xs)") auto

declare chunks.simps [simp del]

lemma chunks_Nil [simp]: "chunks n [] = []"
  by (subst chunks.simps) simp

lemma chunks_step: "xs \<noteq> [] \<Longrightarrow> 0 < n \<Longrightarrow> chunks n xs = take n xs # chunks n (drop n xs)"
  by (subst chunks.simps) simp

lemma concat_chunks [simp]: "0 < n \<Longrightarrow> concat (chunks n xs) = xs"
proof (induction n xs rule: chunks.induct)
  case (1 n xs)
  then show ?case by (cases "xs = []") (simp_all add: chunks_step)
qed

lemma chunks_bounds: "ys \<in> set (chunks n xs) \<Longrightarrow> 0 < length ys \<and> length ys \<le> n"
proof (induction n xs rule: chunks.induct)
  case (1 n xs)
  then show ?case
    by (cases "xs = [] \<or> n = 0") (auto simp: chunks.simps [of n xs])
qed

lemma length_chunks: "0 < n \<Longrightarrow> length (chunks n xs) = (length xs + n - 1) div n"
proof (induction n xs rule: chunks.induct)
  case (1 n xs)
  show ?case
  proof (cases "xs = []")
    case True
    with "1.prems" show ?thesis by simp
  next
    case False
    with 1 have "length (chunks n xs) = Suc ((length xs - n + n - 1) div n)"
      by (simp add: chunks_step)
    also have "\<dots> = (length xs + n - 1) div n"
    proof (cases "n \<le> length xs")
      case True
      then have "length xs + n - 1 = (length xs - n + n - 1) + n"
        using "1.prems" by simp
      then show ?thesis using "1.prems" by (metis add_2_eq_Suc' div_add_self2 not_gr0 Suc_eq_plus1)
    next
      case False
      then have "(length xs - n + n - 1) div n = 0" using "1.prems" by simp
      moreover have "(length xs + n - 1) div n = 1"
      proof (rule div_nat_eqI)
        have "0 < length xs" using \<open>xs \<noteq> []\<close> by simp
        then show "n * 1 \<le> length xs + n - 1" by linarith
        show "length xs + n - 1 < n * Suc 1" using False by simp
      qed
      ultimately show ?thesis by simp
    qed
    finally show ?thesis .
  qed
qed

text \<open>
  The interface of a source that is read block by block: \<open>rest\<close> is what is left of it,
  \<open>next\<close> takes the next block off.  Reading until nothing is left yields the whole.
\<close>

locale block_source =
  fixes size_of :: nat
    and rest :: "'s \<Rightarrow> byte list"
    and next_block :: "'s \<Rightarrow> byte list \<times> 's"
    and ready :: "'s \<Rightarrow> bool"
  assumes size_pos: "0 < size_of"
    and next_fst: "ready s \<Longrightarrow> fst (next_block s) = take size_of (rest s)"
    and next_rest: "ready s \<Longrightarrow> rest (snd (next_block s)) = drop size_of (rest s)"
    and next_ready: "ready s \<Longrightarrow> rest (snd (next_block s)) \<noteq> [] \<Longrightarrow> ready (snd (next_block s))"
begin

fun blocks :: "nat \<Rightarrow> 's \<Rightarrow> byte list list" where
  "blocks 0 s = []"
| "blocks (Suc k) s =
     (if rest s = [] then [] else fst (next_block s) # blocks k (snd (next_block s)))"

lemma blocks_chunks:
  "(rest s \<noteq> [] \<longrightarrow> ready s) \<Longrightarrow> length (rest s) \<le> k \<Longrightarrow> blocks k s = chunks size_of (rest s)"
proof (induction k arbitrary: s)
  case 0
  then show ?case by simp
next
  case (Suc k)
  show ?case
  proof (cases "rest s = []")
    case False
    with Suc.prems have "length (rest (snd (next_block s))) \<le> k"
      using size_pos by (simp add: next_rest)
    with Suc False show ?thesis
      using size_pos by (simp add: chunks_step next_fst next_rest next_ready)
  qed simp
qed

lemma blocks_whole:
  "(rest s \<noteq> [] \<longrightarrow> ready s) \<Longrightarrow> concat (blocks (length (rest s)) s) = rest s"
  using size_pos by (simp add: blocks_chunks)

end

section \<open>Numbers of binary digits\<close>

fun bitlen :: "nat \<Rightarrow> nat" where
  "bitlen n = (if n = 0 then 0 else Suc (bitlen (n div 2)))"

declare bitlen.simps [simp del]

lemma bitlen_le: "0 < n \<Longrightarrow> 2 ^ (bitlen n - 1) \<le> n"
proof (induction n rule: bitlen.induct)
  case (1 n)
  show ?case
  proof (cases "n div 2 = 0")
    case True
    then show ?thesis using "1.prems" by (simp add: bitlen.simps [of n] bitlen.simps [of 0])
  next
    case False
    then have "2 ^ (bitlen (n div 2) - 1) \<le> n div 2" "0 < bitlen (n div 2)"
      using 1 by (simp_all add: bitlen.simps [of "n div 2"])
    then have "2 * 2 ^ (bitlen (n div 2) - 1) \<le> n" "bitlen n - 1 = Suc (bitlen (n div 2) - 1)"
      using "1.prems" by (simp_all add: bitlen.simps [of n])
    then show ?thesis by simp
  qed
qed

section \<open>Strings of bytes\<close>

text \<open>A \<open>std::string\<close> filled from bytes, and the bytes of a string.\<close>

definition to_string :: "byte list \<Rightarrow> string" where
  "to_string bs = map (\<lambda>b. char_of (unat b)) bs"

definition of_string :: "string \<Rightarrow> byte list" where
  "of_string s = map (\<lambda>c. word_of_nat (of_char c)) s"

lemma length_to_string [simp]: "length (to_string bs) = length bs"
  by (simp add: to_string_def)

lemma length_of_string [simp]: "length (of_string s) = length s"
  by (simp add: of_string_def)

lemma unat_of_char [simp]: "unat (word_of_nat (of_char c) :: byte) = of_char c"
proof -
  have "of_char c < (256::nat)"
    using of_char_mod_256 [of c, where 'a = nat] by (metis mod_less_divisor zero_less_numeral)
  then show ?thesis by (simp add: unat_of_nat take_bit_eq_mod)
qed

lemma to_string_of_string [simp]: "to_string (of_string s) = s"
  by (induction s) (simp_all add: to_string_def of_string_def)

text \<open>A number in decimal, as \<open>%u\<close> prints it.\<close>

fun show_dec :: "nat \<Rightarrow> string" where
  "show_dec n =
     (if n < 10 then [char_of (48 + n)] else show_dec (n div 10) @ [char_of (48 + n mod 10)])"

declare show_dec.simps [simp del]

lemma length_show_dec: "n < 10 ^ k \<Longrightarrow> 0 < k \<Longrightarrow> length (show_dec n) \<le> k"
proof (induction k arbitrary: n)
  case (Suc k)
  show ?case
  proof (cases "n < 10")
    case False
    with Suc.prems have "0 < k" "n div 10 < 10 ^ k" by (cases k; simp)+
    from Suc.IH [OF this(2,1)] False show ?thesis by (subst show_dec.simps) simp
  qed (subst show_dec.simps, simp)
qed simp

text \<open>Numbers in upper case hexadecimal, filled with zeros to a width of two.\<close>

definition hex_digit :: "nat \<Rightarrow> char" where
  "hex_digit n = (if n < 10 then char_of (48 + n) else char_of (55 + n))"

fun show_hex :: "nat \<Rightarrow> string" where
  "show_hex n = (if n < 16 then [hex_digit n] else show_hex (n div 16) @ [hex_digit (n mod 16)])"

declare show_hex.simps [simp del]

definition setw2 :: "string \<Rightarrow> string" where
  "setw2 s = replicate (2 - length s) (CHR ''0'') @ s"

end
