(* ===== verification/Tftp_Packet.thy ===== *)
theory Tftp_Packet
  imports Regi_Prelude
begin

text \<open>
  The packet classes of the TFTP server (regiloader/tftp.hpp, tftp.cpp): the fixed
  buffer \<open>Packet::Buffer\<close>, the \<open>AddVal\<close>/\<open>GetVal\<close> templates with their byte swap, and
  the constructors and \<open>Read\<close>/\<open>Write\<close> methods of the four packet classes.

  A pointer argument that the code checks for null is an option.  A \<open>size_t\<close> is a natural
  number, as no size here exceeds the buffer by more than an object in memory, but for the
  value \<open>-1\<close> that \<open>GetVal\<close> returns, which is \<open>npos\<close>.  A member that a constructor leaves
  uninitialised is \<^theory_text>\<open>None\<close>.
\<close>

section \<open>class Packet::Buffer\<close>

definition kMaxSize :: nat where
  "kMaxSize = 516"

record Buffer =
  bdata :: "byte list"
  bsize :: nat

definition buffer_clear :: "Buffer \<Rightarrow> Buffer" where
  "buffer_clear b = b\<lparr>bsize := 0, bdata := replicate kMaxSize 0\<rparr>"

definition new_buffer :: Buffer where
  "new_buffer = \<lparr>bdata = replicate kMaxSize 0, bsize = 0\<rparr>"

text \<open>
  \<open>set_data\<close> copies \<open>min sz kMaxSize\<close> bytes from the pointer, whatever the object it
  points into; \<open>src\<close> is the memory from the pointer on.
\<close>

definition set_data :: "byte list option \<Rightarrow> nat \<Rightarrow> Buffer \<Rightarrow> bool \<times> Buffer" where
  "set_data src sz b =
     (case src of
        None \<Rightarrow> (False, b)
      | Some m \<Rightarrow>
          if sz = 0 then (False, b)
          else (let n = (if sz < kMaxSize then sz else kMaxSize)
                in (True, b\<lparr>bsize := n, bdata := overwrite (bdata b) 0 (take n m)\<rparr>)))"

text \<open>The copy loop of \<open>AddArray\<close>, with its two bounds.\<close>

fun add_loop :: "byte list \<Rightarrow> nat \<Rightarrow> nat \<Rightarrow> byte list \<Rightarrow> byte list \<times> nat" where
  "add_loop data sz res [] = (data, sz)"
| "add_loop data sz res (a # array) =
     (if sz < res \<and> sz < kMaxSize
      then add_loop (data[sz := a]) (Suc sz) res array
      else (data, sz))"

definition AddArray :: "byte list option \<Rightarrow> Buffer \<Rightarrow> bool \<times> Buffer" where
  "AddArray array b =
     (case array of
        None \<Rightarrow> (False, b)
      | Some xs \<Rightarrow>
          if length xs = 0 then (False, b)
          else (let res = bsize b + length xs;
                    (data, sz) = add_loop (bdata b) (bsize b) res xs
                in (res \<le> kMaxSize, b\<lparr>bdata := data, bsize := sz\<rparr>)))"

text \<open>
  \<open>GetArray\<close> overwrites the start of the caller's array \<open>old\<close>, which keeps its other bytes
  where the buffer ends first.
\<close>

definition GetArray :: "nat \<Rightarrow> byte list \<Rightarrow> nat \<Rightarrow> Buffer \<Rightarrow> bool \<times> byte list" where
  "GetArray offs old sz b =
     (if sz = 0 \<or> offs \<ge> kMaxSize then (False, old)
      else (let res = offs + sz;
                got = take (min res kMaxSize - offs) (drop offs (bdata b))
            in (res \<le> kMaxSize, overwrite old 0 got)))"

definition wf_buf :: "Buffer \<Rightarrow> bool" where
  "wf_buf b \<longleftrightarrow> length (bdata b) = kMaxSize \<and> bsize b \<le> kMaxSize"

text \<open>What \<open>StartTransaction\<close> hands to the socket.\<close>

definition buf_bytes :: "Buffer \<Rightarrow> byte list" where
  "buf_bytes b = take (bsize b) (bdata b)"

section \<open>AddVal and GetVal\<close>

text \<open>The value that \<open>GetVal\<close> returns for a failure: \<open>-1\<close> as a 64-bit \<open>size_t\<close>.\<close>

definition npos :: nat where
  "npos = 2 ^ 64 - 1"

definition LSB2MSB :: "byte list \<Rightarrow> byte list" where
  "LSB2MSB bytes = bytes[0 := bytes ! 1, 1 := bytes ! 0]"

definition AddVal_u16 :: "u16 \<Rightarrow> Buffer \<Rightarrow> bool \<times> Buffer" where
  "AddVal_u16 val b = AddArray (Some (LSB2MSB (le16 val))) b"

definition AddVal_byte :: "byte \<Rightarrow> Buffer \<Rightarrow> bool \<times> Buffer" where
  "AddVal_byte val b = AddArray (Some [val]) b"

definition AddVal_string :: "string \<Rightarrow> Buffer \<Rightarrow> bool \<times> Buffer" where
  "AddVal_string val b =
     (let (res, b') = AddArray (Some (of_string val)) b
      in if res then AddVal_byte 0 b' else (False, b'))"

definition GetVal_u16 :: "byte list \<Rightarrow> nat \<Rightarrow> Buffer \<Rightarrow> nat \<times> u16" where
  "GetVal_u16 t_val offs b =
     (let (ok, bytes) = GetArray offs t_val 2 b
      in (if ok then offs + 2 else npos, of_le16 (LSB2MSB bytes)))"

definition GetVal_byte :: "byte \<Rightarrow> nat \<Rightarrow> Buffer \<Rightarrow> nat \<times> byte" where
  "GetVal_byte old offs b =
     (let (ok, bytes) = GetArray offs [old] 1 b
      in (if ok then offs + 1 else npos, bytes ! 0))"

text \<open>
  The scan for the terminating zero reads \<open>data[i]\<close> before it compares \<open>i\<close> with the size,
  so a buffer without a zero from \<open>offs\<close> on is read one byte past its end.
\<close>

fun nul_scan :: "byte list \<Rightarrow> nat \<Rightarrow> nat option" where
  "nul_scan [] i = None"
| "nul_scan (b # bs) i = (if b = 0 then Some i else nul_scan bs (Suc i))"

definition GetVal_string :: "string \<Rightarrow> nat \<Rightarrow> Buffer \<Rightarrow> (nat \<times> string) option" where
  "GetVal_string old offs b =
     (if offs \<ge> kMaxSize then Some (npos, old)
      else (case nul_scan (drop offs (bdata b)) offs of
              None \<Rightarrow> None
            | Some i \<Rightarrow> Some (i + 1, to_string (take (i - offs) (drop offs (bdata b))))))"

section \<open>The packet classes\<close>

datatype Mode = kUnknown | kNetASCII | kOctet | kMail

datatype Packet =
  PacketRRQ (pk_buff: Buffer) (get_filename: string) (get_mode: "Mode option")
| PacketData (pk_buff: Buffer) (get_block_id: "u16 option")
| PacketACK (pk_buff: Buffer) (get_block_id: "u16 option")
| PacketError (pk_buff: Buffer) (get_code: "u16 option") (get_msg: string)

fun get_opcode :: "Packet \<Rightarrow> u16" where
  "get_opcode (PacketRRQ _ _ _) = 1"
| "get_opcode (PacketData _ _) = 3"
| "get_opcode (PacketACK _ _) = 4"
| "get_opcode (PacketError _ _ _) = 5"

definition Packet_Write :: "u16 \<Rightarrow> Buffer \<Rightarrow> Buffer" where
  "Packet_Write opcode b = snd (AddVal_u16 opcode (buffer_clear b))"

text \<open>The virtual \<open>Write\<close>: only a read request rebuilds its buffer.\<close>

fun Write :: "Packet \<Rightarrow> Packet" where
  "Write (PacketRRQ b f m) = PacketRRQ (Packet_Write 1 b) f m"
| "Write (PacketData b i) = PacketData b i"
| "Write (PacketACK b i) = PacketACK b i"
| "Write (PacketError b c m) = PacketError b c m"

definition new_PacketData :: "u16 \<Rightarrow> byte list option \<Rightarrow> Packet" where
  "new_PacketData bid data =
     (let b = Packet_Write 3 new_buffer;
          b = snd (AddVal_u16 bid b);
          b = snd (AddArray data b)
      in PacketData b (Some bid))"

definition IsLastBlock :: "Packet \<Rightarrow> bool" where
  "IsLastBlock p \<longleftrightarrow> bsize (pk_buff p) < 512"

definition detect_mode :: "string \<Rightarrow> Mode option" where
  "detect_mode mode =
     (if mode = ''netascii'' then Some kNetASCII
      else if mode = ''octet'' then Some kOctet
      else if mode = ''mail'' then Some kMail
      else None)"

text \<open>
  The virtual \<open>Read\<close>: \<^theory_text>\<open>None\<close> when a string read leaves the buffer.  An unknown mode
  leaves \<open>_mode\<close> as it was.  The initial bytes of the union in \<open>GetVal\<close> never show, as
  each 16-bit field is read whole (lemma \<open>GetVal_u16_0\<close>).
\<close>

fun Read :: "Packet \<Rightarrow> (bool \<times> Packet) option" where
  "Read (PacketRRQ b f m) =
     (case GetVal_string f 0 b of
        None \<Rightarrow> None
      | Some (offs, f') \<Rightarrow>
          (case GetVal_string '''' offs b of
             None \<Rightarrow> None
           | Some (_, mode) \<Rightarrow>
               (case detect_mode mode of
                  Some m' \<Rightarrow> Some (True, PacketRRQ b f' (Some m'))
                | None \<Rightarrow> Some (False, PacketRRQ b f' m))))"
| "Read (PacketData b i) = Some (True, PacketData b i)"
| "Read (PacketACK b i) = Some (True, PacketACK b (Some (snd (GetVal_u16 [0, 0] 0 b))))"
| "Read (PacketError b c m) =
     (let (offs, c') = GetVal_u16 [0, 0] 0 b
      in case GetVal_string m offs b of
           None \<Rightarrow> None
         | Some (_, m') \<Rightarrow> Some (True, PacketError b (Some c') m'))"

section \<open>The buffer operations\<close>

named_theorems buf "unfolding of buffer operations"

declare wf_buf_def [buf] buffer_clear_def [buf] new_buffer_def [buf] buf_bytes_def [buf]

lemma add_loop_fits:
  "sz + length xs \<le> kMaxSize \<Longrightarrow> sz + length xs \<le> res \<Longrightarrow> length data = kMaxSize \<Longrightarrow>
   add_loop data sz res xs = (overwrite data sz xs, sz + length xs)"
proof (induction xs arbitrary: data sz)
  case (Cons x xs)
  then have "add_loop data sz res (x # xs)
      = (overwrite (data[sz := x]) (Suc sz) xs, Suc sz + length xs)"
    by simp
  with Cons.prems show ?case by (simp add: overwrite_Cons)
qed simp

text \<open>Where the array does not fit, the loop stores as much as the buffer holds.\<close>

lemma add_loop_cut:
  "kMaxSize \<le> sz + length xs \<Longrightarrow> sz \<le> kMaxSize \<Longrightarrow> kMaxSize \<le> res \<Longrightarrow>
   length data = kMaxSize \<Longrightarrow>
   add_loop data sz res xs = (overwrite data sz (take (kMaxSize - sz) xs), kMaxSize)"
proof (induction xs arbitrary: data sz)
  case (Cons x xs)
  show ?case
  proof (cases "sz < kMaxSize")
    case True
    with Cons have "add_loop data sz res (x # xs)
        = (overwrite (data[sz := x]) (Suc sz) (take (kMaxSize - Suc sz) xs), kMaxSize)"
      by simp
    with True Cons.prems show ?thesis
      by (simp add: overwrite_Cons take_Cons' Suc_diff_Suc)
  next
    case False
    with Cons.prems show ?thesis by simp
  qed
qed (auto simp: kMaxSize_def)

text \<open>\<open>AddArray\<close> appends what fits and says whether all of it did.\<close>

lemma AddArray_spec:
  assumes "wf_buf b"
  shows "AddArray (Some xs) b =
    (xs \<noteq> [] \<and> bsize b + length xs \<le> kMaxSize,
     b\<lparr>bdata := overwrite (bdata b) (bsize b) (take (kMaxSize - bsize b) xs),
       bsize := min kMaxSize (bsize b + length xs)\<rparr>)"
proof (cases "bsize b + length xs \<le> kMaxSize")
  case True
  with assms show ?thesis
    by (auto simp: AddArray_def add_loop_fits buf split: prod.split)
next
  case False
  with assms have "xs \<noteq> []" by (auto simp: buf)
  with False assms show ?thesis
    by (simp add: AddArray_def add_loop_cut buf min_def)
qed

lemma wf_new_buffer [simp, intro]: "wf_buf new_buffer"
  by (simp add: buf kMaxSize_def)

lemma wf_buffer_clear [simp, intro]: "wf_buf (buffer_clear b)"
  by (simp add: buf kMaxSize_def)

lemma wf_AddArray [intro]: "wf_buf b \<Longrightarrow> wf_buf (snd (AddArray xs b))"
proof (cases xs)
  case None
  then show "wf_buf b \<Longrightarrow> ?thesis" by (simp add: AddArray_def)
next
  case (Some ys)
  assume b: "wf_buf b"
  then have "length (overwrite (bdata b) (bsize b) (take (kMaxSize - bsize b) ys)) = kMaxSize"
    by (subst length_overwrite) (auto simp: buf)
  with Some b show ?thesis by (simp add: AddArray_spec buf)
qed

lemma wf_AddVal_u16 [intro]: "wf_buf b \<Longrightarrow> wf_buf (snd (AddVal_u16 v b))"
  by (simp add: AddVal_u16_def wf_AddArray)

lemma wf_set_data [intro]:
  "wf_buf b \<Longrightarrow> min sz kMaxSize \<le> length m \<Longrightarrow> wf_buf (snd (set_data (Some m) sz b))"
  by (auto simp: set_data_def buf Let_def min_def split: if_splits)

lemma buf_bytes_AddArray:
  assumes "wf_buf b" and "bsize b + length xs \<le> kMaxSize"
  shows "buf_bytes (snd (AddArray (Some xs) b)) = buf_bytes b @ xs"
proof -
  have "min kMaxSize (bsize b + length xs) = bsize b + length xs"
    using assms(2) by simp
  with assms show ?thesis by (simp add: AddArray_spec buf take_overwrite)
qed

lemma bsize_AddArray:
  assumes "wf_buf b"
  shows "bsize (snd (AddArray (Some xs) b)) = min kMaxSize (bsize b + length xs)"
  using assms by (simp add: AddArray_spec)

lemma length_buf_bytes: "wf_buf b \<Longrightarrow> length (buf_bytes b) = bsize b"
  by (simp add: buf)

lemma LSB2MSB_le16 [simp]: "LSB2MSB (le16 v) = [ucast (drop_bit 8 v), ucast v]"
  by (simp add: LSB2MSB_def le16_def)

lemma LSB2MSB_pair [simp]: "LSB2MSB [x, y] = [y, x]"
  by (simp add: LSB2MSB_def)

lemma GetVal_u16_0:
  assumes "bdata b = x # y # r" and "length t = 2"
  shows "GetVal_u16 t 0 b = (2, mk16 y x)"
proof -
  obtain c d where t: "t = [c, d]"
    using assms(2) by (auto simp: numeral_2_eq_2 length_Suc_conv)
  show ?thesis
    using assms(1) by (simp add: t GetVal_u16_def GetArray_def kMaxSize_def overwrite_def)
qed

lemma nul_scan_Some:
  "0 \<notin> set xs \<Longrightarrow> nul_scan (xs @ 0 # ys) i = Some (i + length xs)"
  by (induction xs arbitrary: i) auto

lemma nul_scan_None_iff: "nul_scan xs i = None \<longleftrightarrow> 0 \<notin> set xs"
  by (induction xs arbitrary: i) auto

lemma GetVal_string_at:
  assumes "bdata b = pre @ xs @ 0 # post" and "0 \<notin> set xs" and "length pre < kMaxSize"
  shows "GetVal_string old (length pre) b
    = Some (length pre + length xs + 1, to_string xs)"
  using assms by (simp add: GetVal_string_def nul_scan_Some)

section \<open>Wire formats\<close>

text \<open>What a peer that follows RFC 1350 reads from a DATA datagram.\<close>

fun rfc_data :: "byte list \<Rightarrow> (u16 \<times> byte list) option" where
  "rfc_data (o1 # o2 # h # l # d) =
     (if mk16 o2 o1 = 3 then Some (mk16 l h, d) else None)"
| "rfc_data _ = None"

lemma mk16_3 [simp]: "mk16 3 0 = 3"
  by (simp add: mk16_def)

lemma Packet_Write_bytes:
  "buf_bytes (Packet_Write v b) = [ucast (drop_bit 8 v), ucast v]
   \<and> bsize (Packet_Write v b) = 2 \<and> wf_buf (Packet_Write v b)"
proof -
  have "bsize (buffer_clear b) = 0" by (simp add: buf)
  moreover have "buf_bytes (buffer_clear b) = []" by (simp add: buf)
  ultimately show ?thesis
    by (auto simp: Packet_Write_def AddVal_u16_def buf_bytes_AddArray bsize_AddArray
        kMaxSize_def)
qed

lemma new_PacketData_wire:
  assumes "length d \<le> 512"
  shows "buf_bytes (pk_buff (new_PacketData bid (Some d)))
           = [0, 3, ucast (drop_bit 8 bid), ucast bid] @ d
         \<and> bsize (pk_buff (new_PacketData bid (Some d))) = 4 + length d
         \<and> wf_buf (pk_buff (new_PacketData bid (Some d)))"
proof -
  let ?b = "Packet_Write 3 new_buffer"
  let ?c = "snd (AddVal_u16 bid ?b)"
  have b: "buf_bytes ?b = [0, 3]" "bsize ?b = 2" "wf_buf ?b"
    using Packet_Write_bytes [of 3 new_buffer] by simp_all
  then have c: "buf_bytes ?c = [0, 3, ucast (drop_bit 8 bid), ucast bid]" "bsize ?c = 4" "wf_buf ?c"
    by (auto simp: AddVal_u16_def buf_bytes_AddArray bsize_AddArray kMaxSize_def)
  show ?thesis
    using assms c
    by (auto simp: new_PacketData_def Let_def buf_bytes_AddArray bsize_AddArray kMaxSize_def)
qed

lemma wf_new_PacketData: "wf_buf (pk_buff (new_PacketData bid d))"
  using Packet_Write_bytes [of 3 new_buffer]
  by (auto simp: new_PacketData_def Let_def)

lemma new_PacketData_simps [simp]:
  "get_block_id (new_PacketData bid d) = Some bid"
  "get_opcode (new_PacketData bid d) = 3"
  "Write (new_PacketData bid d) = new_PacketData bid d"
  by (simp_all add: new_PacketData_def Let_def)

section \<open>Round trips\<close>

lemma buf_bytes_AddArray_cut:
  assumes "wf_buf b" and "kMaxSize \<le> bsize b + length xs"
  shows "buf_bytes (snd (AddArray (Some xs) b)) = buf_bytes b @ take (kMaxSize - bsize b) xs"
proof -
  have "bsize b + length (take (kMaxSize - bsize b) xs) = kMaxSize"
    using assms by (auto simp: wf_buf_def)
  then have "take kMaxSize (overwrite (bdata b) (bsize b) (take (kMaxSize - bsize b) xs))
      = take (bsize b) (bdata b) @ take (kMaxSize - bsize b) xs"
    using assms(1) take_overwrite [of "bsize b" "take (kMaxSize - bsize b) xs" "bdata b"]
    by (simp add: wf_buf_def)
  with assms show ?thesis by (simp add: AddArray_spec buf_bytes_def)
qed

text \<open>C11: what a peer that follows RFC 1350 reads from the DATA packet the server builds is the
  block number and the data it was given; of more than 512 bytes it is the first 512.\<close>

theorem DATA_roundtrip:
  "rfc_data (buf_bytes (pk_buff (new_PacketData k (Some d)))) = Some (k, take 512 d)"
proof (cases "length d \<le> 512")
  case True
  then show ?thesis using new_PacketData_wire [of d k] by simp
next
  case False
  let ?b = "Packet_Write 3 new_buffer" and ?c = "snd (AddVal_u16 k (Packet_Write 3 new_buffer))"
  have b: "buf_bytes ?b = [0, 3]" "bsize ?b = 2" "wf_buf ?b"
    using Packet_Write_bytes [of 3 new_buffer] by simp_all
  then have c: "buf_bytes ?c = [0, 3, ucast (drop_bit 8 k), ucast k]" "bsize ?c = 4" "wf_buf ?c"
    by (auto simp: AddVal_u16_def buf_bytes_AddArray bsize_AddArray kMaxSize_def)
  have "buf_bytes (snd (AddArray (Some d) ?c)) = buf_bytes ?c @ take (kMaxSize - bsize ?c) d"
    using c False by (intro buf_bytes_AddArray_cut) (simp_all add: kMaxSize_def)
  with c show ?thesis by (simp add: new_PacketData_def Let_def kMaxSize_def)
qed

text \<open>A string without zero bytes that fits is read back from the place it was added at, and
  the offset returned is that of what follows it.\<close>

theorem string_roundtrip:
  assumes "wf_buf b" "0 \<notin> set (of_string str)" "str \<noteq> ''''" "bsize b + length str < kMaxSize"
  shows "\<exists>b'. AddVal_string str b = (True, b') \<and> bsize b' = bsize b + length str + 1 \<and>
    GetVal_string old (bsize b) b' = Some (bsize b + length str + 1, str)"
proof -
  define c where "c = snd (AddArray (Some (of_string str)) b)"
  have c: "AddArray (Some (of_string str)) b = (True, c)" "bsize c = bsize b + length str" "wf_buf c"
      "buf_bytes c = buf_bytes b @ of_string str"
    using assms AddArray_spec [of b "of_string str"] buf_bytes_AddArray [of b "of_string str"]
      wf_AddArray [of b "Some (of_string str)"]
    by (auto simp: c_def of_string_def)
  define d where "d = snd (AddVal_byte 0 c)"
  have d: "AddVal_byte 0 c = (True, d)" "bsize d = bsize b + length str + 1" "wf_buf d"
      "buf_bytes d = buf_bytes b @ of_string str @ [0]"
    using assms(4) c AddArray_spec [of c "[0]"] buf_bytes_AddArray [of c "[0]"]
      wf_AddArray [of c "Some [0]"]
    by (auto simp: d_def AddVal_byte_def)
  have "bdata d = buf_bytes b @ of_string str @ 0 # drop (bsize d) (bdata d)"
    using d(4) append_take_drop_id [of "bsize d" "bdata d"] by (simp add: buf_bytes_def)
  from GetVal_string_at [OF this assms(2), of old] assms(1,4) d(1,2) c(1)
  show ?thesis by (simp add: AddVal_string_def length_buf_bytes)
qed

theorem string_roundtrip_witness:
  "\<exists>b'. AddVal_string ''octet'' new_buffer = (True, b') \<and>
        bsize b' = bsize new_buffer + length ''octet'' + 1 \<and>
        GetVal_string '''' (bsize new_buffer) b'
          = Some (bsize new_buffer + length ''octet'' + 1, ''octet'')"
  by (rule string_roundtrip)
    (rule wf_new_buffer, simp_all add: of_string_def new_buffer_def kMaxSize_def)

end
