(* ===== verification/Regi_Stream.thy ===== *)
theory Regi_Stream
  imports Regi_Prelude
begin

text \<open>
  \<open>std::fstream\<close> as the utilities use it for reading: a stream is open on a file or not,
  has a position, and a state that is good until an operation fails.  \<open>fs_read\<close> is
  \<open>istream::read\<close> followed by \<open>gcount\<close>: a read that meets the end of the file delivers what
  is left and leaves the stream not good.  The file system is a map from paths to
  contents; a file does not change while it is open.

  The two readers of the program, the TFTP task (512 bytes, never past the end) and the
  YMODEM sender (1024 bytes), are interpretations of \<open>block_source\<close>.
\<close>

type_synonym files = "string \<rightharpoonup> byte list"

record FStream =
  fs_open :: bool
  fs_good :: bool
  fs_data :: "byte list"
  fs_pos :: nat

definition fs_closed :: FStream where
  "fs_closed = \<lparr>fs_open = False, fs_good = True, fs_data = [], fs_pos = 0\<rparr>"

text \<open>\<open>fstream(path)\<close> and \<open>open(path)\<close> on a stream that is not open.\<close>

definition fs_opened :: "files \<Rightarrow> string \<Rightarrow> FStream" where
  "fs_opened files path =
     (case files path of
        None \<Rightarrow> \<lparr>fs_open = False, fs_good = False, fs_data = [], fs_pos = 0\<rparr>
      | Some bs \<Rightarrow> \<lparr>fs_open = True, fs_good = True, fs_data = bs, fs_pos = 0\<rparr>)"

definition fs_close :: "FStream \<Rightarrow> FStream" where
  "fs_close f = f\<lparr>fs_open := False\<rparr>"

definition fs_rest :: "FStream \<Rightarrow> byte list" where
  "fs_rest f = drop (fs_pos f) (fs_data f)"

definition fs_read :: "nat \<Rightarrow> FStream \<Rightarrow> byte list \<times> FStream" where
  "fs_read n f =
     (if fs_good f
      then (let got = take n (fs_rest f)
            in (got, f\<lparr>fs_pos := fs_pos f + length got, fs_good := (length got = n)\<rparr>))
      else ([], f))"

lemma fs_rest_length: "length (fs_rest f) = length (fs_data f) - fs_pos f"
  by (simp add: fs_rest_def)

lemma fs_read_frame [simp]:
  "fs_data (snd (fs_read n f)) = fs_data f"
  "fs_open (snd (fs_read n f)) = fs_open f"
  by (simp_all add: fs_read_def Let_def)

lemma fs_read_rest: "fs_good f \<Longrightarrow> fs_rest (snd (fs_read n f)) = drop n (fs_rest f)"
  by (auto simp: fs_read_def fs_rest_def Let_def min_def add.commute)

lemma fs_read_fst: "fs_good f \<Longrightarrow> fst (fs_read n f) = take n (fs_rest f)"
  by (simp add: fs_read_def Let_def)

lemma fs_read_good:
  "fs_good (snd (fs_read n f)) \<longleftrightarrow> fs_good f \<and> n \<le> length (fs_rest f)"
  by (auto simp: fs_read_def Let_def)

text \<open>A read that asks for no more than there is: the TFTP task.\<close>

definition fs_next :: "nat \<Rightarrow> FStream \<Rightarrow> byte list \<times> FStream" where
  "fs_next n f = fs_read (min n (length (fs_rest f))) f"

interpretation whole_reads: block_source 1024 fs_rest "fs_read 1024" fs_good
  by unfold_locales (auto simp: fs_read_fst fs_read_rest fs_read_good)

interpretation tail_reads: block_source 512 fs_rest "fs_next 512" fs_good
  by unfold_locales (auto simp: fs_next_def fs_read_fst fs_read_rest fs_read_good min_def)

end
