(* ===== verification/Tftp_Session.thy ===== *)
theory Tftp_Session
  imports Tftp_Packet Regi_Stream
begin

text \<open>
  \<open>TFtp::Session\<close> (regiloader/tftp.hpp, tftp.cpp): one client of the TFTP server.

  The asynchronous operations of Boost.Asio are not modelled beyond what the code relies
  on.  An operation that was started is an entry of \<open>s_pend\<close> until its handler runs, with a
  flag that says whether it was cancelled; \<open>cancel\<close> and \<open>close\<close> set the flag and leave
  the entry, as the handler of a cancelled operation still runs.  Which pending operation completes, and
  how, is up to the environment (theory \<open>Tftp_Server\<close>).  \<open>s_sent\<close> records the datagrams
  given to the socket, oldest first, with the end point they go to.

  Memory that the constructor leaves uninitialised is the argument \<open>Garbage\<close> of
  \<open>new_Session\<close>.  \<open>s_past\<close> stands for the two bytes of the object that follow \<open>_buff\<close>,
  which \<open>DetectInputPkt\<close> copies along (theory \<open>Tftp_Faults\<close>).
\<close>

section \<open>State\<close>

datatype TaskType = kIdling | kUploading | kWaiting

record Task =
  t_type :: TaskType
  t_mode :: "Mode option"
  t_file :: FStream
  t_file_sz :: nat

datatype Op = OpSend "byte list" nat | OpRecv nat | OpTimer nat

record Session =
  s_output :: "Packet option"
  s_input :: "Packet option"
  s_open :: bool
  s_endpt :: nat
  s_buff :: "byte list"
  s_past :: "byte list"
  s_task :: Task
  s_timeout :: bool
  s_tries :: byte
  s_timeout_ms :: nat
  s_pend :: "(Op \<times> bool) list"
  s_sent :: "(nat \<times> byte list) list"

record Garbage =
  g_buff :: "byte list"
  g_past :: "byte list"
  g_file_sz :: nat

definition kBuffMaxSize :: nat where
  "kBuffMaxSize = kMaxSize div 2"

definition kRequestTimeoutMs :: nat where
  "kRequestTimeoutMs = 10000"

definition kResponseTimeoutMs :: nat where
  "kResponseTimeoutMs = 2000"

definition kTriesLimit :: byte where
  "kTriesLimit = 12"

text \<open>\<open>std::fstream("")\<close> is not open and not good.\<close>

definition new_Task :: "nat \<Rightarrow> Task" where
  "new_Task junk =
     \<lparr>t_type = kIdling, t_mode = Some kUnknown, t_file = fs_closed\<lparr>fs_good := False\<rparr>,
      t_file_sz = junk\<rparr>"

definition new_Session :: "Garbage \<Rightarrow> Session" where
  "new_Session g =
     \<lparr>s_output = None, s_input = None, s_open = False, s_endpt = 0,
      s_buff = g_buff g, s_past = g_past g, s_task = new_Task (g_file_sz g),
      s_timeout = False, s_tries = 0, s_timeout_ms = kRequestTimeoutMs,
      s_pend = [], s_sent = []\<rparr>"

section \<open>Operations\<close>

definition DetectFileSize :: "Task \<Rightarrow> Task" where
  "DetectFileSize t =
     (if fs_open (t_file t)
      then t\<lparr>t_file_sz := length (fs_data (t_file t)), t_file := (t_file t)\<lparr>fs_pos := 0\<rparr>\<rparr>
      else t)"

text \<open>The figure that \<open>PrintState\<close> shows; \<open>None\<close> where the division has no meaning.\<close>

definition task_percent :: "Task \<Rightarrow> nat option" where
  "task_percent t =
     (if 0 < fs_pos (t_file t)
      then (if t_file_sz t = 0 then None else Some (fs_pos (t_file t) * 100 div t_file_sz t))
      else Some 100)"

definition cancel_timer :: "Session \<Rightarrow> Session" where
  "cancel_timer s =
     s\<lparr>s_pend := map (\<lambda>(op, c). (op, case op of OpTimer _ \<Rightarrow> True | _ \<Rightarrow> c)) (s_pend s)\<rparr>"

definition cancel_socket :: "Session \<Rightarrow> Session" where
  "cancel_socket s =
     s\<lparr>s_pend := map (\<lambda>(op, c). (op, case op of OpTimer _ \<Rightarrow> c | _ \<Rightarrow> True)) (s_pend s)\<rparr>"

text \<open>\<open>Open\<close>, with the result of \<open>socket.open\<close> as an argument.\<close>

definition Open :: "bool \<Rightarrow> Session \<Rightarrow> bool \<times> Session" where
  "Open ok s = (let s = (if s_open s then (cancel_socket s)\<lparr>s_open := False\<rparr> else s)
                in if ok then (True, s\<lparr>s_open := True\<rparr>) else (False, s))"

definition Close :: "Session \<Rightarrow> Session" where
  "Close s = (cancel_socket s)
     \<lparr>s_open := False, s_task := (s_task s)\<lparr>t_file := fs_close (t_file (s_task s))\<rparr>\<rparr>"

definition SetupTimer :: "Session \<Rightarrow> Session" where
  "SetupTimer s =
     (let s = cancel_timer (s\<lparr>s_timeout := False\<rparr>)
      in s\<lparr>s_pend := s_pend s @ [(OpTimer (s_timeout_ms s), False)]\<rparr>)"

definition Send :: "byte list \<Rightarrow> Session \<Rightarrow> Session" where
  "Send data s =
     s\<lparr>s_input := None, s_pend := s_pend s @ [(OpSend data (s_endpt s), False)],
       s_sent := s_sent s @ [(s_endpt s, data)]\<rparr>"

definition Receive :: "nat \<Rightarrow> Session \<Rightarrow> Session" where
  "Receive sz s = SetupTimer (s\<lparr>s_input := None, s_pend := s_pend s @ [(OpRecv sz, False)]\<rparr>)"

definition StartTransaction :: "Packet \<Rightarrow> Session \<Rightarrow> Session" where
  "StartTransaction p s =
     (if bsize (pk_buff p) = 0 then s else Send (buf_bytes (pk_buff p)) s)"

definition PushPacket :: "Packet \<Rightarrow> Session \<Rightarrow> Session" where
  "PushPacket p s = (let p = Write p in StartTransaction p (s\<lparr>s_output := Some p\<rparr>))"

definition PopPacket :: "Session \<Rightarrow> Packet option \<times> Session" where
  "PopPacket s = (s_input s, s\<lparr>s_input := None\<rparr>)"

text \<open>Only \<open>kBuffMaxSize\<close> bytes are cleared and received, half of the 516 bytes of \<open>_buff\<close>.\<close>

definition AsyncAccept :: "Session \<Rightarrow> Session" where
  "AsyncAccept s =
     (if s_input s \<noteq> None then s
      else Receive kBuffMaxSize
             (s\<lparr>s_buff := overwrite (s_buff s) 0 (replicate kBuffMaxSize 0)\<rparr>))"

definition HandlerTimer :: "bool \<Rightarrow> bool \<Rightarrow> Session \<Rightarrow> Session" where
  "HandlerTimer err expired s =
     (if \<not> err \<and> expired
      then (let s = cancel_socket s;
                s = s\<lparr>s_tries := s_tries s + 1\<rparr>;
                s = (case s_output s of
                       Some p \<Rightarrow> (let p = Write p in StartTransaction p (s\<lparr>s_output := Some p\<rparr>))
                     | None \<Rightarrow> s\<lparr>s_tries := kTriesLimit\<rparr>)
            in if kTriesLimit \<le> s_tries s then s\<lparr>s_timeout := True, s_tries := 0\<rparr> else s)
      else s)"

definition HandlerWrite :: "bool \<Rightarrow> Session \<Rightarrow> Session" where
  "HandlerWrite err s =
     (if err then s else AsyncAccept (s\<lparr>s_timeout_ms := kResponseTimeoutMs\<rparr>))"

fun new_input :: "byte \<Rightarrow> Packet option" where
  "new_input op =
     (if op = 1 then Some (PacketRRQ new_buffer '''' None)
      else if op = 3 then Some (PacketData new_buffer None)
      else if op = 4 then Some (PacketACK new_buffer None)
      else if op = 5 then Some (PacketError new_buffer None '''')
      else None)"

fun with_buff :: "Buffer \<Rightarrow> Packet \<Rightarrow> Packet" where
  "with_buff b (PacketRRQ _ f m) = PacketRRQ b f m"
| "with_buff b (PacketData _ i) = PacketData b i"
| "with_buff b (PacketACK _ i) = PacketACK b i"
| "with_buff b (PacketError _ c m) = PacketError b c m"

text \<open>
  The operation code is the second byte of the datagram.  The copy starts at \<open>&_buff[1]\<close>
  and takes 516 bytes, so it runs over the end of \<open>_buff\<close> into \<open>s_past\<close>.
\<close>

definition DetectInputPkt :: "Session \<Rightarrow> stop + Session" where
  "DetectInputPkt s =
     (case new_input (s_buff s ! 1) of
        None \<Rightarrow> Inr s
      | Some p \<Rightarrow>
          (let b = snd (set_data (Some (drop 2 (s_buff s) @ s_past s)) (kBuffMaxSize * 2)
                          (pk_buff p))
           in case Read (with_buff b p) of
                None \<Rightarrow> Inl OutOfBounds
              | Some (_, p') \<Rightarrow> Inr (s\<lparr>s_input := Some p'\<rparr>)))"

definition HandlerRead :: "bool \<Rightarrow> Session \<Rightarrow> stop + Session" where
  "HandlerRead err s = (if err then Inr s else DetectInputPkt (cancel_timer s))"

definition ProcessTask :: "u16 \<Rightarrow> Session \<Rightarrow> bool \<times> Session" where
  "ProcessTask block_id s =
     (let t = s_task s; f = t_file t in
      if t_type t \<noteq> kUploading \<or> \<not> fs_open f \<or> \<not> fs_good f then (False, s)
      else (let kSize = kMaxSize - 4; kTail = t_file_sz t - fs_pos f in
            if kTail = 0 then (False, s)
            else (let (data, f') = fs_read (if kTail > kSize then kSize else kTail) f;
                      s = s\<lparr>s_task := t\<lparr>t_file := f'\<rparr>\<rparr>
                  in (True, PushPacket (new_PacketData block_id (Some data)) s))))"

text \<open>\<open>Process\<close>: \<open>dir\<close> is the directory of published files, \<open>files\<close> the file system.\<close>

definition Process :: "(string \<rightharpoonup> string) \<Rightarrow> files \<Rightarrow> Session \<Rightarrow> Session" where
  "Process dir files s0 =
     (let (pkt, s) = PopPacket s0 in
      case pkt of
        None \<Rightarrow> s
      | Some p \<Rightarrow>
          (if get_opcode p = 1
           then (case dir (get_filename p) of
                   None \<Rightarrow> Close s
                 | Some path \<Rightarrow>
                     (if t_type (s_task s) = kIdling
                      then (let t = DetectFileSize
                                  ((s_task s)\<lparr>t_type := kUploading, t_mode := get_mode p,
                                              t_file := fs_opened files path\<rparr>)
                            in snd (ProcessTask 1 (s\<lparr>s_task := t\<rparr>)))
                      else s))
           else if get_opcode p = 4
           then (if t_type (s_task s) = kUploading
                 then (let (sent, s') = ProcessTask (the (get_block_id p) + 1) s
                       in if sent then s' else Close s')
                 else Close s)
           else Close s))"

end
