(* ===== verification/Tftp_Server.thy ===== *)
theory Tftp_Server
  imports Tftp_Session
begin

text \<open>
  \<open>TFtp::Server\<close> (regiloader/tftp.hpp, tftp.cpp) and the event loop under it.

  \<open>io_exec\<close> is one handler call of the I/O service: the environment says which pending
  operation completes and how.  \<open>io_run\<close> is \<open>io_service::run\<close>: it calls handlers until no
  operation is pending, and may report an error instead (\<open>IoError\<close>).  The list of events is
  what the network, the client and the clock do; \<open>Starved\<close> means that the service is still
  waiting at the end of it.

  The server keeps at most one session: \<open>_sessions\<close> gets the pointer that \<open>_new_sess\<close> was
  just set to and nothing else, and where an element is erased \<open>_new_sess\<close> is reset, so the
  list is empty or holds \<open>_new_sess\<close> alone.  Both are the option \<open>srv_sess\<close>.

  \<open>Run\<close> is a loop that need not end; as a \<open>partial_function\<close> it is \<^theory_text>\<open>None\<close> where
  the loop turns forever without waiting for anything.
\<close>

section \<open>The I/O service\<close>

datatype Outcome = Completed | Failed | Got nat "byte list" | Fired bool

datatype Ev = Ev nat Outcome | IoError

definition drop_pend :: "nat \<Rightarrow> Session \<Rightarrow> Session" where
  "drop_pend i s = s\<lparr>s_pend := take i (s_pend s) @ drop (Suc i) (s_pend s)\<rparr>"

text \<open>A datagram that is longer than the receive buffer is cut off.\<close>

definition received :: "nat \<Rightarrow> nat \<Rightarrow> byte list \<Rightarrow> Session \<Rightarrow> Session" where
  "received n ep d s = s\<lparr>s_endpt := ep, s_buff := overwrite (s_buff s) 0 (take n d)\<rparr>"

fun op_exec :: "Op \<Rightarrow> bool \<Rightarrow> Outcome \<Rightarrow> Session \<Rightarrow> stop + Session" where
  "op_exec (OpSend _ _) c Completed s = Inr (HandlerWrite False s)"
| "op_exec (OpSend _ _) c Failed s = Inr (HandlerWrite True s)"
| "op_exec (OpRecv n) c (Got ep d) s = HandlerRead False (received n ep d s)"
| "op_exec (OpRecv n) c Failed s = HandlerRead True s"
| "op_exec (OpTimer _) c (Fired expired) s = Inr (HandlerTimer False expired s)"
| "op_exec (OpTimer _) c Failed s = (if c then Inr (HandlerTimer True False s) else Inl NotPending)"
| "op_exec _ _ _ _ = Inl NotPending"

fun io_exec :: "nat \<Rightarrow> Outcome \<Rightarrow> Session \<Rightarrow> stop + Session" where
  "io_exec i out s =
     (if i < length (s_pend s)
      then (let (op, c) = s_pend s ! i in op_exec op c out (drop_pend i s))
      else Inl NotPending)"

fun io_run :: "Ev list \<Rightarrow> Session \<Rightarrow> stop + (bool \<times> Session \<times> Ev list)" where
  "io_run [] s = (if s_pend s = [] then Inr (False, s, []) else Inl Starved)"
| "io_run (IoError # es) s =
     (if s_pend s = [] then Inr (False, s, IoError # es) else Inr (True, s, es))"
| "io_run (Ev i out # es) s =
     (if s_pend s = [] then Inr (False, s, Ev i out # es)
      else (case io_exec i out s of Inl x \<Rightarrow> Inl x | Inr s' \<Rightarrow> io_run es s'))"

section \<open>The server\<close>

record Server =
  pub_files :: "string \<rightharpoonup> string"
  srv_sess :: "Session option"

definition new_Server :: Server where
  "new_Server = \<lparr>pub_files = Map.empty, srv_sess = None\<rparr>"

text \<open>\<open>std::map::insert\<close> keeps the entry that is there.\<close>

definition PublishFile :: "string \<Rightarrow> string \<Rightarrow> Server \<Rightarrow> bool \<times> Server" where
  "PublishFile name path srv =
     (if length path = 0 then (False, srv)
      else if length name = 0 then (False, srv)
      else (True, srv\<lparr>pub_files :=
              (case pub_files srv name of
                 None \<Rightarrow> (pub_files srv)(name \<mapsto> path)
               | Some _ \<Rightarrow> pub_files srv)\<rparr>))"

text \<open>
  The loop of \<open>Run\<close> from a session on; the result is the value returned, whether the
  session stays in the server, the session, and the events left.
\<close>

partial_function (option) run_loop ::
  "(string \<rightharpoonup> string) \<Rightarrow> files \<Rightarrow> Ev list \<Rightarrow> Session \<Rightarrow>
   (stop + (bool \<times> bool \<times> Session \<times> Ev list)) option" where
  "run_loop dir files es s0 =
     (let s = Process dir files s0 in
      if \<not> s_open s \<or> s_timeout s then Some (Inr (\<not> s_timeout s, False, s, es))
      else (case io_run es s of
              Inl x \<Rightarrow> Some (Inl x)
            | Inr (err, s', es') \<Rightarrow>
                (if err then Some (Inr (False, True, s', es'))
                 else run_loop dir files es' s')))"

definition new_connection :: "Garbage \<Rightarrow> bool \<Rightarrow> Session" where
  "new_connection g ok = AsyncAccept (snd (Open ok (new_Session g)))"

definition Run ::
  "files \<Rightarrow> Garbage \<Rightarrow> bool \<Rightarrow> Ev list \<Rightarrow> Server \<Rightarrow>
   (stop + (bool \<times> Server \<times> Session \<times> Ev list)) option" where
  "Run files g ok es srv =
     (let s = (case srv_sess srv of None \<Rightarrow> new_connection g ok | Some s \<Rightarrow> s)
      in case run_loop (pub_files srv) files es s of
           None \<Rightarrow> None
         | Some (Inl x) \<Rightarrow> Some (Inl x)
         | Some (Inr (r, kept, s', es')) \<Rightarrow>
             Some (Inr (r, srv\<lparr>srv_sess := (if kept then Some s' else None)\<rparr>, s', es')))"

end
