(* ===== verification/Tftp_Safety.thy ===== *)
theory Tftp_Safety
  imports Tftp_Server
begin

text \<open>
  What holds of a session whatever the network, the client and the clock do: the invariant
  \<open>sess_ok\<close> is kept by every handler and by \<open>Process\<close>, so it holds of every session the
  server ever has (\<open>sess_reach\<close>).
\<close>

section \<open>The invariant\<close>

definition data_wire :: "u16 \<Rightarrow> byte list \<Rightarrow> byte list" where
  "data_wire k d = [0, 3, ucast (drop_bit 8 k), ucast k] @ d"

text \<open>A piece of a file that is published under some name.\<close>

definition published_piece :: "(string \<rightharpoonup> string) \<Rightarrow> files \<Rightarrow> byte list \<Rightarrow> bool" where
  "published_piece dir files x \<longleftrightarrow>
     (\<exists>name path bs i. dir name = Some path \<and> files path = Some bs \<and>
                       x = take (length x) (drop i bs))"

definition piece_wire :: "(string \<rightharpoonup> string) \<Rightarrow> files \<Rightarrow> byte list \<Rightarrow> bool" where
  "piece_wire dir files w \<longleftrightarrow>
     (\<exists>k x. w = data_wire k x \<and> 0 < length x \<and> length x \<le> 512 \<and> published_piece dir files x)"

definition task_ok :: "(string \<rightharpoonup> string) \<Rightarrow> files \<Rightarrow> Task \<Rightarrow> bool" where
  "task_ok dir files t \<longleftrightarrow>
     (fs_open (t_file t) \<longrightarrow>
        fs_pos (t_file t) \<le> length (fs_data (t_file t)) \<and>
        t_file_sz t = length (fs_data (t_file t)) \<and>
        (\<exists>name path. dir name = Some path \<and> files path = Some (fs_data (t_file t))))"

definition sess_ok :: "(string \<rightharpoonup> string) \<Rightarrow> files \<Rightarrow> Session \<Rightarrow> bool" where
  "sess_ok dir files s \<longleftrightarrow>
     length (s_buff s) = kMaxSize \<and> length (s_past s) = 2 \<and>
     task_ok dir files (s_task s) \<and>
     (\<forall>p. s_output s = Some p \<longrightarrow>
        Write p = p \<and> bsize (pk_buff p) \<noteq> 0 \<and> piece_wire dir files (buf_bytes (pk_buff p))) \<and>
     (\<forall>p. s_input s = Some p \<longrightarrow> get_opcode p = 4 \<longrightarrow> get_block_id p \<noteq> None) \<and>
     (\<forall>ep w. (ep, w) \<in> set (s_sent s) \<longrightarrow> piece_wire dir files w)"

section \<open>Every operation keeps it\<close>

text \<open>The parts of a session that the invariant reads.\<close>

lemma cancel_frame [simp]:
  "s_buff (cancel_timer s) = s_buff s" "s_past (cancel_timer s) = s_past s"
  "s_task (cancel_timer s) = s_task s" "s_output (cancel_timer s) = s_output s"
  "s_input (cancel_timer s) = s_input s" "s_sent (cancel_timer s) = s_sent s"
  "s_open (cancel_timer s) = s_open s" "s_timeout (cancel_timer s) = s_timeout s"
  "s_endpt (cancel_timer s) = s_endpt s" "s_tries (cancel_timer s) = s_tries s"
  "s_timeout_ms (cancel_timer s) = s_timeout_ms s"
  "s_buff (cancel_socket s) = s_buff s" "s_past (cancel_socket s) = s_past s"
  "s_task (cancel_socket s) = s_task s" "s_output (cancel_socket s) = s_output s"
  "s_input (cancel_socket s) = s_input s" "s_sent (cancel_socket s) = s_sent s"
  "s_open (cancel_socket s) = s_open s" "s_timeout (cancel_socket s) = s_timeout s"
  "s_endpt (cancel_socket s) = s_endpt s" "s_tries (cancel_socket s) = s_tries s"
  "s_timeout_ms (cancel_socket s) = s_timeout_ms s"
  by (simp_all add: cancel_timer_def cancel_socket_def)

lemma SetupTimer_frame [simp]:
  "s_buff (SetupTimer s) = s_buff s" "s_past (SetupTimer s) = s_past s"
  "s_task (SetupTimer s) = s_task s" "s_output (SetupTimer s) = s_output s"
  "s_input (SetupTimer s) = s_input s" "s_sent (SetupTimer s) = s_sent s"
  "s_open (SetupTimer s) = s_open s" "s_timeout (SetupTimer s) = False"
  "s_endpt (SetupTimer s) = s_endpt s" "s_tries (SetupTimer s) = s_tries s"
  by (simp_all add: SetupTimer_def Let_def)

lemma drop_pend_frame [simp]:
  "s_buff (drop_pend i s) = s_buff s" "s_past (drop_pend i s) = s_past s"
  "s_task (drop_pend i s) = s_task s" "s_output (drop_pend i s) = s_output s"
  "s_input (drop_pend i s) = s_input s" "s_sent (drop_pend i s) = s_sent s"
  "s_open (drop_pend i s) = s_open s" "s_timeout (drop_pend i s) = s_timeout s"
  "s_endpt (drop_pend i s) = s_endpt s" "s_tries (drop_pend i s) = s_tries s"
  by (simp_all add: drop_pend_def)

named_theorems sess "operations of a session"

declare sess_ok_def [sess] AsyncAccept_def [sess] Receive_def [sess] Send_def [sess]
  StartTransaction_def [sess] PushPacket_def [sess] HandlerTimer_def [sess]
  HandlerWrite_def [sess] Let_def [sess]

lemma sess_ok_drop_pend [simp]: "sess_ok dir files (drop_pend i s) = sess_ok dir files s"
  by (simp add: sess_ok_def)

lemma sess_ok_AsyncAccept: "sess_ok dir files s \<Longrightarrow> sess_ok dir files (AsyncAccept s)"
  by (simp add: sess kBuffMaxSize_def kMaxSize_def)

lemma sess_ok_HandlerWrite: "sess_ok dir files s \<Longrightarrow> sess_ok dir files (HandlerWrite e s)"
  using sess_ok_AsyncAccept [of dir files "s\<lparr>s_timeout_ms := kResponseTimeoutMs\<rparr>"]
  by (simp add: HandlerWrite_def sess_ok_def)

lemma sess_ok_HandlerTimer: "sess_ok dir files s \<Longrightarrow> sess_ok dir files (HandlerTimer e x s)"
  by (auto simp: sess split: option.splits)

lemma Read_opcode: "Read p = Some (r, p') \<Longrightarrow> get_opcode p' = get_opcode p"
  by (cases p) (auto simp: Let_def split: option.splits prod.splits)

lemma Read_ACK_block:
  "Read p = Some (r, p') \<Longrightarrow> get_opcode p = 4 \<Longrightarrow> get_block_id p' \<noteq> None"
  by (cases p) auto

lemma sess_ok_HandlerRead:
  assumes "sess_ok dir files s" and "HandlerRead e s = Inr s'"
  shows "sess_ok dir files s'"
proof (cases e)
  case True
  with assms show ?thesis by (simp add: HandlerRead_def)
next
  case False
  with assms(2) have d: "DetectInputPkt (cancel_timer s) = Inr s'"
    by (simp add: HandlerRead_def)
  show ?thesis
  proof (cases "new_input (s_buff s ! 1)")
    case None
    with assms(1) d show ?thesis
      by (auto simp: DetectInputPkt_def sess_ok_def simp del: new_input.simps)
  next
    case (Some p)
    with d obtain b r p' where r: "Read (with_buff b p) = Some (r, p')"
      and s': "s' = (cancel_timer s)\<lparr>s_input := Some p'\<rparr>"
      by (auto simp: DetectInputPkt_def Let_def simp del: new_input.simps split: option.splits)
    then have "get_opcode p' = 4 \<longrightarrow> get_block_id p' \<noteq> None"
      using Read_opcode Read_ACK_block by metis
    with assms(1) show ?thesis by (auto simp: s' sess_ok_def)
  qed
qed

lemma sess_ok_received:
  "sess_ok dir files s \<Longrightarrow> n \<le> kMaxSize \<Longrightarrow> sess_ok dir files (received n ep d s)"
  by (simp add: sess_ok_def received_def min_def)

text \<open>Receive operations ask for \<open>kBuffMaxSize\<close> bytes at most: the array holds them.\<close>

definition recv_ok :: "Session \<Rightarrow> bool" where
  "recv_ok s \<longleftrightarrow> (\<forall>n c. (OpRecv n, c) \<in> set (s_pend s) \<longrightarrow> n \<le> kBuffMaxSize)"

lemma recv_ok_drop_pend: "recv_ok s \<Longrightarrow> recv_ok (drop_pend i s)"
  by (auto simp: recv_ok_def drop_pend_def dest: in_set_takeD in_set_dropD)

lemma recv_ok_cancel [simp]:
  "recv_ok (cancel_timer s) = recv_ok s" "recv_ok (cancel_socket s) = recv_ok s"
  unfolding recv_ok_def cancel_timer_def cancel_socket_def
  by (force split: Op.splits prod.splits)+

lemma recv_ok_SetupTimer: "recv_ok (SetupTimer s) = recv_ok s"
proof -
  have "recv_ok (cancel_timer (s\<lparr>s_timeout := False\<rparr>)) = recv_ok s"
    unfolding recv_ok_cancel by (simp add: recv_ok_def)
  then show ?thesis by (auto simp: SetupTimer_def Let_def recv_ok_def)
qed

lemma recv_ok_Send: "recv_ok (Send d s) = recv_ok s"
  by (auto simp: Send_def recv_ok_def)

lemma recv_ok_StartTransaction: "recv_ok (StartTransaction p s) = recv_ok s"
  by (simp add: StartTransaction_def recv_ok_Send)

lemma recv_ok_AsyncAccept: "recv_ok s \<Longrightarrow> recv_ok (AsyncAccept s)"
  by (auto simp: AsyncAccept_def Receive_def recv_ok_SetupTimer) (auto simp: recv_ok_def)

lemma recv_ok_upd [simp]:
  "recv_ok (s\<lparr>s_tries := a\<rparr>) = recv_ok s" "recv_ok (s\<lparr>s_output := b\<rparr>) = recv_ok s"
  "recv_ok (s\<lparr>s_timeout := c\<rparr>) = recv_ok s" "recv_ok (s\<lparr>s_input := i\<rparr>) = recv_ok s"
  "recv_ok (s\<lparr>s_timeout_ms := m\<rparr>) = recv_ok s" "recv_ok (s\<lparr>s_task := t\<rparr>) = recv_ok s"
  "recv_ok (s\<lparr>s_open := o'\<rparr>) = recv_ok s"
  "recv_ok (s\<lparr>s_endpt := e, s_buff := u\<rparr>) = recv_ok s"
  by (simp_all add: recv_ok_def)

lemma recv_ok_HandlerTimer: "recv_ok s \<Longrightarrow> recv_ok (HandlerTimer e x s)"
  by (auto simp: HandlerTimer_def Let_def recv_ok_StartTransaction split: option.splits)

lemma recv_ok_HandlerRead: "recv_ok s \<Longrightarrow> HandlerRead e s = Inr s' \<Longrightarrow> recv_ok s'"
  by (auto simp: HandlerRead_def DetectInputPkt_def Let_def
      simp del: new_input.simps split: if_splits option.splits)

definition sess_inv :: "(string \<rightharpoonup> string) \<Rightarrow> files \<Rightarrow> Session \<Rightarrow> bool" where
  "sess_inv dir files s \<longleftrightarrow> sess_ok dir files s \<and> recv_ok s"

lemma sess_inv_parts:
  "sess_inv dir files s \<Longrightarrow> sess_ok dir files s" "sess_inv dir files s \<Longrightarrow> recv_ok s"
  by (simp_all add: sess_inv_def)

lemma sess_inv_HandlerWrite: "sess_inv dir files s \<Longrightarrow> sess_inv dir files (HandlerWrite e s)"
  unfolding sess_inv_def
  using sess_ok_HandlerWrite recv_ok_AsyncAccept [of "s\<lparr>s_timeout_ms := kResponseTimeoutMs\<rparr>"]
  by (simp add: HandlerWrite_def split: if_splits)

lemma sess_inv_HandlerTimer: "sess_inv dir files s \<Longrightarrow> sess_inv dir files (HandlerTimer e x s)"
  by (simp add: sess_inv_def sess_ok_HandlerTimer recv_ok_HandlerTimer)

lemma sess_inv_HandlerRead:
  "sess_inv dir files s \<Longrightarrow> HandlerRead e s = Inr s' \<Longrightarrow> sess_inv dir files s'"
  using sess_ok_HandlerRead recv_ok_HandlerRead by (auto simp: sess_inv_def)

lemma sess_inv_received:
  "sess_inv dir files s \<Longrightarrow> n \<le> kMaxSize \<Longrightarrow> sess_inv dir files (received n ep d s)"
  using sess_ok_received by (simp add: sess_inv_def) (simp add: received_def)

lemma op_exec_inv:
  assumes x: "op_exec op c out s = Inr s'" and inv: "sess_inv dir files s"
    and n: "\<And>n. op = OpRecv n \<Longrightarrow> n \<le> kMaxSize"
  shows "sess_inv dir files s'"
proof (cases op)
  case (OpSend d ep)
  with x inv show ?thesis by (cases out) (auto intro: sess_inv_HandlerWrite)
next
  case (OpTimer ms)
  with x inv show ?thesis
    by (cases out) (auto intro: sess_inv_HandlerTimer split: if_splits)
next
  case (OpRecv k)
  show ?thesis
  proof (cases out)
    case (Got ep d)
    from sess_inv_received [OF inv n [OF OpRecv]] have "sess_inv dir files (received k ep d s)" .
    moreover from x OpRecv Got have "HandlerRead False (received k ep d s) = Inr s'" by simp
    ultimately show ?thesis by (rule sess_inv_HandlerRead)
  next
    case Failed
    from x OpRecv Failed have "HandlerRead True s = Inr s'" by simp
    with inv show ?thesis by (rule sess_inv_HandlerRead)
  qed (use x OpRecv in auto)
qed

lemma io_exec_inv:
  assumes "sess_inv dir files s" and "io_exec i out s = Inr s'"
  shows "sess_inv dir files s'"
proof -
  obtain op c where i: "i < length (s_pend s)" "s_pend s ! i = (op, c)"
    and x: "op_exec op c out (drop_pend i s) = Inr s'"
    using assms(2) by (auto split: if_splits prod.splits)
  have n: "n \<le> kMaxSize" if "op = OpRecv n" for n
  proof -
    have "(OpRecv n, c) \<in> set (s_pend s)" using i that by (metis nth_mem)
    then have "n \<le> kBuffMaxSize" using assms(1) by (auto simp: sess_inv_def recv_ok_def)
    then show ?thesis by (simp add: kBuffMaxSize_def)
  qed
  have "sess_inv dir files (drop_pend i s)"
    using assms(1) by (simp add: sess_inv_def recv_ok_drop_pend)
  from op_exec_inv [OF x this n] show ?thesis by simp
qed

lemma io_run_inv:
  "io_run es s = Inr (e, s', es') \<Longrightarrow> sess_inv dir files s \<Longrightarrow> sess_inv dir files s'"
proof (induction es s rule: io_run.induct)
  case (3 i out es s)
  then show ?case
    by (cases "io_exec i out s") (auto simp del: io_exec.simps intro: io_exec_inv split: if_splits)
qed (auto split: if_splits)

lemma published_piece_read:
  assumes "dir name = Some path" and "files path = Some (fs_data f)"
  shows "published_piece dir files (take n (fs_rest f))"
  unfolding published_piece_def
  by (intro exI conjI, rule assms(1), rule assms(2)) (auto simp: fs_rest_def min_def)

text \<open>\<open>ProcessTask\<close> on a file with something left, and at its end.\<close>

lemma ProcessTask_block:
  assumes "t_type (s_task s) = kUploading" and "fs_open (t_file (s_task s))"
    and "fs_good (t_file (s_task s))" and "task_ok dir files (s_task s)"
    and "fs_rest (t_file (s_task s)) \<noteq> []"
  shows "ProcessTask k s =
    (True, PushPacket (new_PacketData k (Some (fst (fs_next 512 (t_file (s_task s))))))
             (s\<lparr>s_task := (s_task s)\<lparr>t_file := snd (fs_next 512 (t_file (s_task s)))\<rparr>\<rparr>))"
proof -
  let ?f = "t_file (s_task s)"
  have tail: "t_file_sz (s_task s) - fs_pos ?f = length (fs_rest ?f)"
    using assms(2,4) by (simp add: task_ok_def fs_rest_length)
  then have n: "(if t_file_sz (s_task s) - fs_pos ?f > kMaxSize - 4 then kMaxSize - 4
      else t_file_sz (s_task s) - fs_pos ?f) = min 512 (length (fs_rest ?f))"
    by (simp add: kMaxSize_def min_def)
  have "t_file_sz (s_task s) - fs_pos ?f \<noteq> 0" using assms(5) tail by simp
  with assms(1-3) show ?thesis
    unfolding ProcessTask_def Let_def n fs_next_def by (simp add: case_prod_unfold)
qed

lemma ProcessTask_end:
  assumes "fs_open (t_file (s_task s)) \<Longrightarrow> task_ok dir files (s_task s)"
    and "fs_open (t_file (s_task s)) \<Longrightarrow> fs_rest (t_file (s_task s)) = []"
  shows "ProcessTask k s = (False, s)"
  using assms by (auto simp: ProcessTask_def Let_def task_ok_def fs_rest_def)

lemma ProcessTask_idle:
  "t_type (s_task s) \<noteq> kUploading \<or> \<not> fs_open (t_file (s_task s)) \<or> \<not> fs_good (t_file (s_task s))
   \<Longrightarrow> ProcessTask k s = (False, s)"
  by (auto simp: ProcessTask_def Let_def)

lemma fs_next_512:
  assumes "fs_good f"
  shows "fst (fs_next 512 f) = take 512 (fs_rest f)"
    and "fs_rest (snd (fs_next 512 f)) = drop 512 (fs_rest f)"
    and "fs_good (snd (fs_next 512 f))"
    and "fs_data (snd (fs_next 512 f)) = fs_data f" "fs_open (snd (fs_next 512 f)) = fs_open f"
  using assms tail_reads.next_fst tail_reads.next_rest
  by (simp_all add: fs_next_def fs_read_good)

lemma task_ok_next:
  assumes "task_ok dir files t" and "fs_good (t_file t)"
  shows "task_ok dir files (t\<lparr>t_file := snd (fs_next 512 (t_file t))\<rparr>)"
  using assms
  by (auto simp: task_ok_def fs_next_512 fs_rest_length)
    (auto simp: fs_next_def fs_read_def Let_def fs_rest_length)

lemma sess_inv_ProcessTask:
  assumes "sess_inv dir files s"
  shows "sess_inv dir files (snd (ProcessTask k s))"
proof -
  let ?t = "s_task s" and ?f = "t_file (s_task s)"
  from assms have ok: "task_ok dir files ?t" "recv_ok s" "sess_ok dir files s"
    by (auto simp: sess_inv_def sess_ok_def)
  show ?thesis
  proof (cases "t_type ?t \<noteq> kUploading \<or> \<not> fs_open ?f \<or> \<not> fs_good ?f \<or> fs_rest ?f = []")
    case True
    then have "ProcessTask k s = (False, s)"
      using ok(1) by (metis ProcessTask_idle ProcessTask_end)
    with assms show ?thesis by simp
  next
    case False
    define d where "d = fst (fs_next 512 ?f)"
    define p where "p = new_PacketData k (Some d)"
    from False have d: "d = take 512 (fs_rest ?f)" by (simp add: d_def fs_next_512)
    with False have len: "0 < length d" "length d \<le> 512" by simp_all
    then have wire: "buf_bytes (pk_buff p) = data_wire k d" "bsize (pk_buff p) \<noteq> 0"
      using new_PacketData_wire [of d k] by (simp_all add: p_def data_wire_def)
    from ok(1) False obtain name path where "dir name = Some path" "files path = Some (fs_data ?f)"
      by (auto simp: task_ok_def)
    then have "published_piece dir files d" by (simp add: d published_piece_read)
    with wire len have piece: "piece_wire dir files (buf_bytes (pk_buff p))"
      by (auto simp: piece_wire_def)
    have "snd (ProcessTask k s) = PushPacket p (s\<lparr>s_task := ?t\<lparr>t_file := snd (fs_next 512 ?f)\<rparr>\<rparr>)"
      using False ok(1) by (simp add: ProcessTask_block p_def d_def)
    moreover have "task_ok dir files (?t\<lparr>t_file := snd (fs_next 512 ?f)\<rparr>)"
      using ok(1) False by (simp add: task_ok_next)
    ultimately show ?thesis
      using ok(2,3) piece wire(2)
      by (auto simp: sess_inv_def PushPacket_def StartTransaction_def recv_ok_Send p_def Let_def)
        (auto simp: sess_ok_def Send_def)
  qed
qed

lemma sess_inv_Close: "sess_inv dir files s \<Longrightarrow> sess_inv dir files (Close s)"
  by (auto simp: sess_inv_def Close_def sess_ok_def task_ok_def fs_close_def)

lemma task_ok_opened:
  "dir name = Some path \<Longrightarrow>
   task_ok dir files (DetectFileSize (t\<lparr>t_type := y, t_mode := m, t_file := fs_opened files path\<rparr>))"
  by (auto simp: task_ok_def DetectFileSize_def fs_opened_def split: option.splits)

lemma sess_inv_Process:
  assumes "sess_inv dir files s"
  shows "sess_inv dir files (Process dir files s)"
proof -
  let ?s = "s\<lparr>s_input := None\<rparr>"
  have s: "sess_inv dir files ?s" using assms by (auto simp: sess_inv_def sess_ok_def)
  have open': "sess_inv dir files (snd (ProcessTask 1 (?s\<lparr>s_task := DetectFileSize
      ((s_task s)\<lparr>t_type := y, t_mode := m, t_file := fs_opened files path\<rparr>)\<rparr>)))"
    if "dir name = Some path" for name path y m
    by (rule sess_inv_ProcessTask)
      (use s task_ok_opened [where dir = dir and name = name and path = path, OF that]
        in \<open>simp add: sess_inv_def sess_ok_def\<close>)
  show ?thesis
    using s open' sess_inv_Close [OF s] sess_inv_ProcessTask [OF s] sess_inv_Close
    by (auto simp: Process_def PopPacket_def Let_def split: option.splits prod.splits)
      (metis snd_conv)+
qed

section \<open>Every session of a server\<close>

text \<open>
  The sessions that can come about: a new connection, and what \<open>Process\<close> and the handlers
  make of one, in any order.
\<close>

inductive sess_reach :: "(string \<rightharpoonup> string) \<Rightarrow> files \<Rightarrow> Session \<Rightarrow> bool"
  for dir files where
  connect: "length (g_buff g) = kMaxSize \<Longrightarrow> length (g_past g) = 2 \<Longrightarrow>
     sess_reach dir files (new_connection g ok)"
| handler: "sess_reach dir files s \<Longrightarrow> io_exec i out s = Inr s' \<Longrightarrow> sess_reach dir files s'"
| process: "sess_reach dir files s \<Longrightarrow> sess_reach dir files (Process dir files s)"

lemma sess_inv_connect:
  assumes "length (g_buff g) = kMaxSize" and "length (g_past g) = 2"
  shows "sess_inv dir files (new_connection g ok)"
proof -
  have "sess_ok dir files (snd (Open ok (new_Session g)))" "recv_ok (snd (Open ok (new_Session g)))"
    using assms
    by (cases ok; simp add: sess_ok_def Open_def new_Session_def task_ok_def new_Task_def
        fs_closed_def recv_ok_def Let_def)+
  then show ?thesis
    by (simp add: sess_inv_def new_connection_def sess_ok_AsyncAccept recv_ok_AsyncAccept)
qed

lemma sess_reach_inv: "sess_reach dir files s \<Longrightarrow> sess_inv dir files s"
  by (induction rule: sess_reach.induct)
    (auto intro: sess_inv_connect sess_inv_Process io_exec_inv simp del: io_exec.simps)

lemma io_run_reach:
  "io_run es s = Inr (e, s', es') \<Longrightarrow> sess_reach dir files s \<Longrightarrow> sess_reach dir files s'"
proof (induction es s rule: io_run.induct)
  case (3 i out es s)
  then show ?case
    by (cases "io_exec i out s")
      (auto simp del: io_exec.simps intro: sess_reach.handler split: if_splits)
qed (auto split: if_splits)

text \<open>Facts about the loop of \<open>Run\<close> where it ends: induction over its turns.\<close>

lemma run_loop_reach:
  assumes "run_loop dir files es s = Some (Inr (r, kept, s', es'))" and "sess_reach dir files s"
  shows "sess_reach dir files s'"
proof -
  have "\<forall>r kept s' es'. y = Inr (r, kept, s', es') \<longrightarrow> sess_reach dir files s \<longrightarrow> sess_reach dir files s'"
    if "run_loop dir files es s = Some y" for y
    using that
  proof (rule run_loop.raw_induct [rotated])
    fix loop :: "(string \<rightharpoonup> string) \<Rightarrow> files \<Rightarrow> Ev list \<Rightarrow> Session \<Rightarrow>
      (stop + (bool \<times> bool \<times> Session \<times> Ev list)) option"
    fix dir files es s y
    assume IH: "\<And>dir files es s y. loop dir files es s = Some y \<Longrightarrow>
        \<forall>r kept s' es'. y = Inr (r, kept, s', es') \<longrightarrow> sess_reach dir files s \<longrightarrow> sess_reach dir files s'"
      and eq: "(let s = Process dir files s in
        if \<not> s_open s \<or> s_timeout s then Some (Inr (\<not> s_timeout s, False, s, es))
        else (case io_run es s of Inl x \<Rightarrow> Some (Inl x)
              | Inr (err, s', es') \<Rightarrow> (if err then Some (Inr (False, True, s', es'))
                                    else loop dir files es' s'))) = Some y"
    show "\<forall>r kept s' es'. y = Inr (r, kept, s', es') \<longrightarrow> sess_reach dir files s \<longrightarrow> sess_reach dir files s'"
      using eq IH
      by (fastforce simp: Let_def intro: sess_reach.process io_run_reach split: if_splits sum.splits)
  qed
  with assms show ?thesis by blast
qed

end
