(* ===== verification/Tftp_Transfer.thy ===== *)
theory Tftp_Transfer
  imports Tftp_Safety
begin

text \<open>
  A whole transfer: the handler calls of one exchange, and what the client has received at
  the end of \<open>Run\<close>.
\<close>

section \<open>A client\<close>

text \<open>
  A receiver as RFC 1350 describes it: it takes the DATA block it waits for and ignores the
  others, among them repetitions of a block it has.
\<close>

fun rfc_receive :: "u16 \<Rightarrow> byte list list \<Rightarrow> byte list" where
  "rfc_receive k [] = []"
| "rfc_receive k (w # ws) =
     (case rfc_data w of
        Some (k', d) \<Rightarrow> (if k' = k then d @ rfc_receive (k + 1) ws else rfc_receive k ws)
      | None \<Rightarrow> rfc_receive k ws)"

definition rrq_wire :: "string \<Rightarrow> string \<Rightarrow> byte list" where
  "rrq_wire name mode = [0, 1] @ of_string name @ [0] @ of_string mode @ [0]"

definition ack_wire :: "u16 \<Rightarrow> byte list" where
  "ack_wire k = [0, 4, ucast (drop_bit 8 k), ucast k]"

text \<open>
  The events of an exchange: the request arrives; a block goes out; its answer is lost
  \<open>m\<close> times, so that the timer fires, the receive operation is cancelled and the block goes
  out again; the acknowledgement arrives.  Each cancelled operation ends with an error.
\<close>

definition got_evs :: "nat \<Rightarrow> byte list \<Rightarrow> Ev list" where
  "got_evs ep w = [Ev 0 (Got ep w), Ev 0 Failed]"

definition lost_evs :: "Ev list" where
  "lost_evs = [Ev 1 (Fired True), Ev 0 Failed, Ev 0 Completed]"

definition block_evs :: "nat \<Rightarrow> u16 \<Rightarrow> nat \<Rightarrow> Ev list" where
  "block_evs ep k m = Ev 0 Completed # concat (replicate m lost_evs) @ got_evs ep (ack_wire k)"

fun transfer_evs :: "nat \<Rightarrow> u16 \<Rightarrow> nat list \<Rightarrow> Ev list" where
  "transfer_evs ep k [] = []"
| "transfer_evs ep k (m # ms) = block_evs ep k m @ transfer_evs ep (k + 1) ms"

text \<open>The datagrams that go out: block after block, each as often as it was lost and once more.\<close>

fun sent_blocks :: "u16 \<Rightarrow> nat list \<Rightarrow> byte list list \<Rightarrow> byte list list" where
  "sent_blocks k (m # ms) (d # ds) = replicate (Suc m) (data_wire k d) @ sent_blocks (k + 1) ms ds"
| "sent_blocks k _ _ = []"

section \<open>The states of an exchange\<close>

definition exchange :: "nat \<Rightarrow> byte list \<Rightarrow> Session \<Rightarrow> bool" where
  "exchange ep w s \<longleftrightarrow>
     s_endpt s = ep \<and> s_input s = None \<and> length (s_buff s) = kMaxSize \<and> length (s_past s) = 2 \<and>
     (\<exists>p. s_output s = Some p \<and> Write p = p \<and> bsize (pk_buff p) \<noteq> 0 \<and> buf_bytes (pk_buff p) = w)"

definition sending :: "nat \<Rightarrow> byte list \<Rightarrow> Session \<Rightarrow> bool" where
  "sending ep w s \<longleftrightarrow> exchange ep w s \<and> s_pend s = [(OpSend w ep, False)]"

definition awaiting :: "nat \<Rightarrow> byte list \<Rightarrow> Session \<Rightarrow> bool" where
  "awaiting ep w s \<longleftrightarrow> exchange ep w s \<and> s_timeout s = False \<and>
     s_pend s = [(OpRecv kBuffMaxSize, False), (OpTimer kResponseTimeoutMs, False)]"

lemma kBuff_le: "kBuffMaxSize = 258" "kMaxSize = 516"
  by (simp_all add: kBuffMaxSize_def kMaxSize_def)

lemma io_run_idle: "s_pend s = [] \<Longrightarrow> io_run es s = Inr (False, s, es)"
  by (cases "(es, s)" rule: io_run.cases) auto

lemma io_run_op:
  assumes "i < length (s_pend s)" and "s_pend s ! i = (op, c)"
    and "op_exec op c out (drop_pend i s) = Inr t"
  shows "io_run (Ev i out # es) s = io_run es t"
  using assms by (cases "s_pend s") auto

lemma AsyncAccept_idle:
  assumes "s_input s = None" and "s_pend s = []"
  shows "s_pend (AsyncAccept s) = [(OpRecv kBuffMaxSize, False), (OpTimer (s_timeout_ms s), False)]"
  using assms
  by (simp add: AsyncAccept_def Receive_def SetupTimer_def cancel_timer_def Let_def)

lemma AsyncAccept_frame [simp]:
  "s_task (AsyncAccept s) = s_task s" "s_sent (AsyncAccept s) = s_sent s"
  "s_open (AsyncAccept s) = s_open s" "s_endpt (AsyncAccept s) = s_endpt s"
  "s_output (AsyncAccept s) = s_output s" "s_input (AsyncAccept s) = s_input s"
  "s_past (AsyncAccept s) = s_past s"
  "length (s_buff s) = kMaxSize \<Longrightarrow> length (s_buff (AsyncAccept s)) = kMaxSize"
  by (auto simp: AsyncAccept_def Receive_def kBuff_le)

lemma AsyncAccept_timeout: "s_input s = None \<Longrightarrow> s_timeout (AsyncAccept s) = False"
  by (simp add: AsyncAccept_def Receive_def)

text \<open>What an exchange leaves alone.\<close>

definition same_task :: "Session \<Rightarrow> Session \<Rightarrow> bool" where
  "same_task s t \<longleftrightarrow> s_task t = s_task s \<and> s_open t = s_open s"

lemma HandlerWrite_idle:
  assumes "exchange ep w s" and "s_pend s = []"
  shows "awaiting ep w (HandlerWrite False s)" "same_task s (HandlerWrite False s)"
    "s_sent (HandlerWrite False s) = s_sent s"
  using assms
  by (auto simp: awaiting_def exchange_def HandlerWrite_def AsyncAccept_idle AsyncAccept_timeout
      same_task_def)

lemma sending_Completed:
  assumes "sending ep w s"
  shows "\<exists>s'. io_run (Ev 0 Completed # es) s = io_run es s' \<and> awaiting ep w s' \<and>
              same_task s s' \<and> s_sent s' = s_sent s"
proof -
  let ?t = "drop_pend 0 s"
  have t: "exchange ep w ?t" "s_pend ?t = []"
    using assms by (auto simp: sending_def exchange_def drop_pend_def)
  have "io_run (Ev 0 Completed # es) s = io_run es (HandlerWrite False ?t)"
    using assms by (simp add: sending_def)
  with HandlerWrite_idle [OF t] show ?thesis by (auto simp: same_task_def)
qed

text \<open>A lost answer: the block goes out once more, whatever the number of tries so far.\<close>

lemma HandlerTimer_resend:
  assumes "exchange ep w s"
  shows "exchange ep w (HandlerTimer False True s)"
    and "s_pend (HandlerTimer False True s) = s_pend (cancel_socket s) @ [(OpSend w ep, False)]"
    and "s_sent (HandlerTimer False True s) = s_sent s @ [(ep, w)]"
    and "same_task s (HandlerTimer False True s)"
  using assms
  by (auto simp: exchange_def HandlerTimer_def Let_def StartTransaction_def Send_def same_task_def
      cancel_socket_def)

lemma awaiting_lost:
  assumes "awaiting ep w s"
  shows "\<exists>s'. io_run (lost_evs @ es) s = io_run es s' \<and> awaiting ep w s' \<and>
              same_task s s' \<and> s_sent s' = s_sent s @ [(ep, w)]"
proof -
  define t where "t = HandlerTimer False True (drop_pend 1 s)"
  have x: "exchange ep w (drop_pend 1 s)"
    using assms by (auto simp: awaiting_def exchange_def)
  note r = HandlerTimer_resend [OF x, folded t_def]
  have p: "s_pend t = [(OpRecv kBuffMaxSize, True), (OpSend w ep, False)]"
    using assms r(2) by (simp add: awaiting_def drop_pend_def cancel_socket_def)
  have u: "sending ep w (drop_pend 0 t)"
    using r(1) p by (auto simp: sending_def exchange_def drop_pend_def)
  have "io_run (lost_evs @ es) s = io_run (Ev 0 Failed # Ev 0 Completed # es) t"
    using assms by (simp add: lost_evs_def awaiting_def t_def)
  also have "\<dots> = io_run (Ev 0 Completed # es) (drop_pend 0 t)"
    by (rule io_run_op [where op = "OpRecv kBuffMaxSize" and c = True])
      (simp_all add: p HandlerRead_def)
  finally show ?thesis
    using sending_Completed [OF u, of es] r(3,4) by (auto simp: same_task_def)
qed

lemma awaiting_lost_many:
  assumes "awaiting ep w s"
  shows "\<exists>s'. io_run (concat (replicate m lost_evs) @ es) s = io_run es s' \<and> awaiting ep w s' \<and>
              same_task s s' \<and> s_sent s' = s_sent s @ replicate m (ep, w)"
  using assms
proof (induction m arbitrary: s)
  case 0
  then show ?case by (auto simp: same_task_def)
next
  case (Suc m)
  from awaiting_lost [OF Suc.prems, of "concat (replicate m lost_evs) @ es"]
  obtain t where t: "io_run (lost_evs @ concat (replicate m lost_evs) @ es) s
      = io_run (concat (replicate m lost_evs) @ es) t"
    "awaiting ep w t" "same_task s t" "s_sent t = s_sent s @ [(ep, w)]" by auto
  from Suc.IH [OF t(2)] t show ?case by (auto simp: same_task_def)
qed

text \<open>An answer arrives: it is parsed, and nothing is pending any more.\<close>

lemma got_run:
  assumes "s_pend s = [(OpRecv kBuffMaxSize, False), (OpTimer ms, False)]"
    and "HandlerRead False (received kBuffMaxSize ep w (drop_pend 0 s)) = Inr t"
    and "s_pend t = [(OpTimer ms, True)]"
  shows "io_run (got_evs ep w @ es) s = Inr (False, drop_pend 0 t, es)"
proof -
  have "io_run (got_evs ep w @ es) s = io_run (Ev 0 Failed # es) t"
    unfolding got_evs_def append_Cons append_Nil
    by (rule io_run_op [where op = "OpRecv kBuffMaxSize" and c = False])
      (simp_all add: assms)
  also have "\<dots> = io_run es (drop_pend 0 t)"
    by (rule io_run_op [where op = "OpTimer ms" and c = True])
      (simp_all add: assms HandlerTimer_def)
  also have "\<dots> = Inr (False, drop_pend 0 t, es)"
    by (rule io_run_idle) (simp add: drop_pend_def assms)
  finally show ?thesis .
qed

section \<open>Parsing what arrives\<close>

text \<open>The packet's buffer is \<open>_buff\<close> without its first two bytes, and the two bytes after it.\<close>

lemma input_copy:
  assumes "length (s_buff s) = kMaxSize" and "length (s_past s) = 2" and "length (bdata b) = kMaxSize"
  shows "bdata (snd (set_data (Some (drop 2 (s_buff s) @ s_past s)) (kBuffMaxSize * 2) b))
           = drop 2 (s_buff s) @ s_past s"
  using assms by (simp add: set_data_def kBuff_le overwrite_def)

definition answered :: "nat \<Rightarrow> Packet \<Rightarrow> Session \<Rightarrow> bool" where
  "answered ep p s \<longleftrightarrow> s_input s = Some p \<and> s_pend s = [] \<and> s_timeout s = False \<and>
     s_endpt s = ep \<and> length (s_buff s) = kMaxSize \<and> length (s_past s) = 2"

text \<open>A datagram that parses to \<open>p\<close> ends the wait.\<close>

lemma got_parsed:
  assumes "s_pend s = [(OpRecv kBuffMaxSize, False), (OpTimer ms, False)]"
    and "length (s_buff s) = kMaxSize" "length (s_past s) = 2" "s_timeout s = False"
    and "length w \<le> kBuffMaxSize" "2 \<le> length w"
    and "new_input (w ! 1) = Some p0"
    and "\<And>b tail. bdata b = drop 2 w @ tail \<Longrightarrow>
           \<exists>r b'. Read (with_buff b p0) = Some (r, with_buff b' p)"
    and "length (bdata (pk_buff p0)) = kMaxSize"
  shows "\<exists>t b. io_run (got_evs ep w @ es) s = Inr (False, t, es) \<and>
    answered ep (with_buff b p) t \<and> same_task s t \<and> s_sent t = s_sent s"
proof -
  define u where "u = cancel_timer (received kBuffMaxSize ep w (drop_pend 0 s))"
  have buff: "s_buff u = w @ drop (length w) (s_buff s)"
    using assms by (simp add: u_def received_def overwrite_def)
  have u: "length (s_buff u) = kMaxSize" "length (s_past u) = 2" "s_endpt u = ep"
      "s_timeout u = False" "s_pend u = [(OpTimer ms, True)]" "same_task s u" "s_sent u = s_sent s"
    using assms buff
    by (simp_all add: kBuff_le u_def received_def cancel_timer_def drop_pend_def same_task_def)
  define b where "b = snd (set_data (Some (drop 2 (s_buff u) @ s_past u)) (kBuffMaxSize * 2)
    (pk_buff p0))"
  have "bdata b = drop 2 w @ (drop (length w) (s_buff s) @ s_past u)"
    using input_copy [OF u(1,2) assms(9)] assms(6) by (simp add: b_def buff)
  from assms(8) [OF this] obtain r b' where
    r: "Read (with_buff b p0) = Some (r, with_buff b' p)" by blast
  have "s_buff u ! 1 = w ! 1" using assms(6) by (simp add: buff nth_append)
  then have "HandlerRead False (received kBuffMaxSize ep w (drop_pend 0 s))
      = Inr (u\<lparr>s_input := Some (with_buff b' p)\<rparr>)"
    using assms(7) r
    by (simp add: HandlerRead_def DetectInputPkt_def u_def [symmetric] b_def [symmetric] Let_def
        del: new_input.simps)
  from got_run [OF assms(1) this] u show ?thesis
    by (auto simp: answered_def drop_pend_def same_task_def)
qed

lemma got_ack:
  assumes "awaiting ep w s"
  shows "\<exists>t b. io_run (got_evs ep (ack_wire k) @ es) s = Inr (False, t, es) \<and>
    answered ep (PacketACK b (Some k)) t \<and> same_task s t \<and> s_sent t = s_sent s"
proof -
  have "\<exists>r b'. Read (with_buff b (PacketACK new_buffer None))
      = Some (r, with_buff b' (PacketACK new_buffer (Some k)))"
    if "bdata b = drop 2 (ack_wire k) @ tail" for b tail
    using that by (auto simp: ack_wire_def GetVal_u16_0 intro: exI [of _ b])
  with got_parsed [of s kResponseTimeoutMs "ack_wire k" "PacketACK new_buffer None"
      "PacketACK new_buffer (Some k)" ep es]
  show ?thesis
    using assms
    by (auto simp: awaiting_def exchange_def ack_wire_def kBuff_le new_buffer_def)
qed

text \<open>A request fits the receive buffer, and its strings have no zero inside.\<close>

definition rrq_fits :: "string \<Rightarrow> string \<Rightarrow> bool" where
  "rrq_fits name mode \<longleftrightarrow> 0 \<notin> set (of_string name) \<and> 0 \<notin> set (of_string mode) \<and>
     length name + length mode + 4 \<le> kBuffMaxSize"

lemma Read_RRQ:
  assumes "rrq_fits name mode" and "bdata b = drop 2 (rrq_wire name mode) @ tail"
  shows "\<exists>r. Read (PacketRRQ b f None) = Some (r, PacketRRQ b name (detect_mode mode))"
proof -
  let ?n = "of_string name" and ?m = "of_string mode"
  have 1: "GetVal_string f 0 b = Some (length name + 1, name)"
    using assms GetVal_string_at [of b "[]" ?n "?m @ 0 # tail" f]
    by (simp add: rrq_fits_def rrq_wire_def kBuff_le)
  have 2: "GetVal_string '''' (length name + 1) b = Some (length name + 1 + length mode + 1, mode)"
    using assms GetVal_string_at [of b "?n @ [0]" ?m tail "''''"]
    by (simp add: rrq_fits_def rrq_wire_def kBuff_le)
  show ?thesis by (cases "detect_mode mode") (auto simp: 1 2 [simplified])
qed

lemma got_rrq:
  assumes "s_pend s = [(OpRecv kBuffMaxSize, False), (OpTimer ms, False)]"
    and "length (s_buff s) = kMaxSize" "length (s_past s) = 2" "s_timeout s = False"
    and "rrq_fits name mode"
  shows "\<exists>t b. io_run (got_evs ep (rrq_wire name mode) @ es) s = Inr (False, t, es) \<and>
    answered ep (PacketRRQ b name (detect_mode mode)) t \<and> same_task s t \<and> s_sent t = s_sent s"
proof -
  have "\<exists>r b'. Read (with_buff b (PacketRRQ new_buffer '''' None))
      = Some (r, with_buff b' (PacketRRQ new_buffer name (detect_mode mode)))"
    if "bdata b = drop 2 (rrq_wire name mode) @ tail" for b tail
    using Read_RRQ [OF assms(5) that, of "''''"] by (auto intro: exI [of _ b])
  moreover have "length (rrq_wire name mode) \<le> kBuffMaxSize" "2 \<le> length (rrq_wire name mode)"
      "new_input (rrq_wire name mode ! 1) = Some (PacketRRQ new_buffer '''' None)"
    using assms(5) by (simp_all add: rrq_fits_def rrq_wire_def)
  ultimately show ?thesis
    using got_parsed [of s ms "rrq_wire name mode" "PacketRRQ new_buffer '''' None"
      "PacketRRQ new_buffer name (detect_mode mode)" ep es] assms(1-4)
    by (auto simp: new_buffer_def simp del: new_input.simps)
qed

section \<open>Block after block\<close>

text \<open>Block \<open>k\<close> with contents \<open>d\<close> is on its way, and \<open>rest\<close> is left of the file.\<close>

definition uploading ::
  "(string \<rightharpoonup> string) \<Rightarrow> files \<Rightarrow> nat \<Rightarrow> u16 \<Rightarrow> byte list \<Rightarrow> byte list \<Rightarrow> Session \<Rightarrow> bool" where
  "uploading dir files ep k d rest s \<longleftrightarrow>
     sending ep (data_wire k d) s \<and> s_open s \<and> s_timeout s = False \<and>
     t_type (s_task s) = kUploading \<and> fs_open (t_file (s_task s)) \<and>
     fs_good (t_file (s_task s)) \<and> task_ok dir files (s_task s) \<and>
     fs_rest (t_file (s_task s)) = rest"

lemma PushPacket_uploading:
  assumes "s_pend s = []" "s_endpt s = ep" "length (s_buff s) = kMaxSize" "length (s_past s) = 2"
    and "s_open s" "s_timeout s = False" "length d \<le> 512"
    and "t_type (s_task s) = kUploading" "fs_open (t_file (s_task s))"
    and "fs_good (t_file (s_task s))" "task_ok dir files (s_task s)"
  shows "uploading dir files ep k d (fs_rest (t_file (s_task s)))
           (PushPacket (new_PacketData k (Some d)) s)"
    and "s_sent (PushPacket (new_PacketData k (Some d)) s) = s_sent s @ [(ep, data_wire k d)]"
  using assms new_PacketData_wire [of d k]
  by (simp_all add: uploading_def sending_def exchange_def PushPacket_def StartTransaction_def
      Send_def Let_def data_wire_def)

text \<open>The answer to a block, after the block was lost any number of times.\<close>

lemma block_exchange:
  assumes "sending ep w s"
  shows "\<exists>t b. io_run (block_evs ep k m @ es) s = Inr (False, t, es) \<and>
    answered ep (PacketACK b (Some k)) t \<and> same_task s t \<and>
    s_sent t = s_sent s @ replicate m (ep, w)"
proof -
  let ?rest = "concat (replicate m lost_evs) @ got_evs ep (ack_wire k) @ es"
  from sending_Completed [OF assms, of ?rest] obtain s1 where
    1: "io_run (Ev 0 Completed # ?rest) s = io_run ?rest s1" "awaiting ep w s1"
      "same_task s s1" "s_sent s1 = s_sent s" by blast
  from awaiting_lost_many [OF 1(2), of m "got_evs ep (ack_wire k) @ es"] obtain s2 where
    2: "io_run ?rest s1 = io_run (got_evs ep (ack_wire k) @ es) s2" "awaiting ep w s2"
      "same_task s1 s2" "s_sent s2 = s_sent s1 @ replicate m (ep, w)" by blast
  from got_ack [OF 2(2), of k es] 1 2 show ?thesis
    by (auto simp: block_evs_def same_task_def)
qed

text \<open>An acknowledgement takes the next block out of the file, or closes the session.\<close>

lemma Process_ACK_next:
  assumes "answered ep (PacketACK b (Some k)) t" and "s_open t"
    and "t_type (s_task t) = kUploading" "fs_open (t_file (s_task t))"
    and "fs_good (t_file (s_task t))" "task_ok dir files (s_task t)"
    and "fs_rest (t_file (s_task t)) = rest" "rest \<noteq> []"
  shows "uploading dir files ep (k + 1) (take 512 rest) (drop 512 rest) (Process dir files t)"
    and "s_sent (Process dir files t) = s_sent t @ [(ep, data_wire (k + 1) (take 512 rest))]"
proof -
  let ?f = "t_file (s_task t)"
  let ?t = "t\<lparr>s_input := None, s_task := (s_task t)\<lparr>t_file := snd (fs_next 512 ?f)\<rparr>\<rparr>"
  have "ProcessTask (k + 1) (t\<lparr>s_input := None\<rparr>)
      = (True, PushPacket (new_PacketData (k + 1) (Some (take 512 rest))) ?t)"
    using assms ProcessTask_block [of "t\<lparr>s_input := None\<rparr>" dir files "k + 1"]
    by (simp add: fs_next_512)
  then have P: "Process dir files t = PushPacket (new_PacketData (k + 1) (Some (take 512 rest))) ?t"
    using assms by (simp add: Process_def PopPacket_def answered_def Let_def)
  have "task_ok dir files (s_task ?t)" using assms by (simp add: task_ok_next)
  with assms PushPacket_uploading [of ?t ep "take 512 rest" dir files "k + 1"]
  show "uploading dir files ep (k + 1) (take 512 rest) (drop 512 rest) (Process dir files t)"
    "s_sent (Process dir files t) = s_sent t @ [(ep, data_wire (k + 1) (take 512 rest))]"
    by (simp_all add: P answered_def fs_next_512)
qed

lemma Process_ACK_last:
  assumes "answered ep (PacketACK b (Some k)) t"
    and "t_type (s_task t) = kUploading" "task_ok dir files (s_task t)"
    and "fs_rest (t_file (s_task t)) = []"
  shows "Process dir files t = Close (t\<lparr>s_input := None\<rparr>)"
  using assms ProcessTask_end [of "t\<lparr>s_input := None\<rparr>" dir files "k + 1"]
  by (simp add: Process_def PopPacket_def answered_def Let_def)

lemma run_loop_turn:
  assumes "Process dir files t = s" "s_open s" "s_timeout s = False"
    and "io_run es s = Inr (False, t', es')"
  shows "run_loop dir files es t = run_loop dir files es' t'"
  using assms by (subst run_loop.simps) (simp add: Let_def)

lemma run_loop_end:
  assumes "Process dir files t = s" "\<not> s_open s \<or> s_timeout s"
  shows "run_loop dir files es t = Some (Inr (\<not> s_timeout s, False, s, es))"
  using assms by (subst run_loop.simps) (simp add: Let_def)

lemma Close_frame [simp]:
  "s_open (Close s) = False" "s_sent (Close s) = s_sent s" "s_timeout (Close s) = s_timeout s"
  "s_pend (Close s) = s_pend (cancel_socket s)"
  by (simp_all add: Close_def)

lemma run_loop_transfer:
  assumes "uploading dir files ep k d rest (Process dir files t)"
    and "s_sent (Process dir files t) = pre @ [(ep, data_wire k d)]"
    and "length ms = Suc (length (chunks 512 rest))"
  shows "\<exists>s'. run_loop dir files (transfer_evs ep k ms @ es) t = Some (Inr (True, False, s', es)) \<and>
    s_sent s' = pre @ map (Pair ep) (sent_blocks k ms (d # chunks 512 rest)) \<and> s_pend s' = []"
  using assms
proof (induction ms arbitrary: k d rest t pre)
  case (Cons m ms)
  let ?s = "Process dir files t"
  from Cons.prems(1) have s: "sending ep (data_wire k d) ?s" "s_open ?s" "s_timeout ?s = False"
    by (auto simp: uploading_def)
  from block_exchange [OF s(1), of k m "transfer_evs ep (k + 1) ms @ es"] obtain t' b where
    t': "io_run (transfer_evs ep k (m # ms) @ es) ?s
           = Inr (False, t', transfer_evs ep (k + 1) ms @ es)"
      "answered ep (PacketACK b (Some k)) t'" "same_task ?s t'"
      "s_sent t' = s_sent ?s @ replicate m (ep, data_wire k d)"
    by auto
  note turn = run_loop_turn [OF refl s(2,3) t'(1)]
  have sent: "s_sent t' = pre @ replicate (Suc m) (ep, data_wire k d)"
    using t'(4) Cons.prems(2) by simp
  have task: "s_open t'" "t_type (s_task t') = kUploading" "fs_open (t_file (s_task t'))"
      "fs_good (t_file (s_task t'))" "task_ok dir files (s_task t')"
      "fs_rest (t_file (s_task t')) = rest"
    using Cons.prems(1) t'(3) by (auto simp: uploading_def same_task_def)
  show ?case
  proof (cases "rest = []")
    case True
    with Cons.prems(3) have "ms = []" by simp
    have "Process dir files t' = Close (t'\<lparr>s_input := None\<rparr>)"
      using Process_ACK_last [OF t'(2) task(2,5)] task(6) True by simp
    from run_loop_end [OF this] t'(2) \<open>ms = []\<close> True sent show ?thesis
      unfolding turn by (simp add: answered_def cancel_socket_def map_replicate)
  next
    case False
    note next' = Process_ACK_next [OF t'(2) task False]
    have "length ms = Suc (length (chunks 512 (drop 512 rest)))"
      using Cons.prems(3) False by (simp add: chunks_step)
    from Cons.IH [OF next'(1) _ this, of "s_sent t'"] next'(2) False show ?thesis
      unfolding turn by (simp add: chunks_step sent map_replicate)
  qed
qed simp

section \<open>The whole transfer\<close>

lemma rfc_data_wire [simp]: "rfc_data (data_wire k d) = Some (k, d)"
  by (simp add: data_wire_def)

text \<open>Repetitions of a block that is done do not change what the client has.\<close>

lemma rfc_receive_repeated:
  "rfc_receive (k + 1) (replicate m (data_wire k d) @ ws) = rfc_receive (k + 1) ws"
  by (induction m) auto

lemma rfc_receive_sent_blocks:
  "length ms = length ds \<Longrightarrow> rfc_receive k (sent_blocks k ms ds) = concat ds"
proof (induction k ms ds rule: sent_blocks.induct)
  case (1 k m ms d ds)
  then show ?case by (simp add: rfc_receive_repeated)
qed simp_all

lemma new_connection_idle:
  assumes "length (g_buff g) = kMaxSize" and "length (g_past g) = 2"
  shows "s_pend (new_connection g True)
           = [(OpRecv kBuffMaxSize, False), (OpTimer kRequestTimeoutMs, False)]"
    and "s_input (new_connection g True) = None" "s_timeout (new_connection g True) = False"
    "s_open (new_connection g True)" "s_sent (new_connection g True) = []"
    "length (s_buff (new_connection g True)) = kMaxSize" "length (s_past (new_connection g True)) = 2"
    "t_type (s_task (new_connection g True)) = kIdling"
  using assms
  by (simp_all add: new_connection_def Open_def new_Session_def AsyncAccept_idle
      AsyncAccept_timeout new_Task_def)

lemma Process_nothing: "s_input s = None \<Longrightarrow> Process dir files s = s"
  by (simp add: Process_def PopPacket_def Let_def)

text \<open>A request for a published file with contents starts its first block.\<close>

lemma Process_RRQ:
  assumes "answered ep (PacketRRQ b name m) t" and "s_open t" "t_type (s_task t) = kIdling"
    and "dir name = Some path" "files path = Some bs" "bs \<noteq> []"
  shows "uploading dir files ep 1 (take 512 bs) (drop 512 bs) (Process dir files t)"
    and "s_sent (Process dir files t) = s_sent t @ [(ep, data_wire 1 (take 512 bs))]"
proof -
  let ?k = "DetectFileSize ((s_task t)\<lparr>t_type := kUploading, t_mode := m,
              t_file := fs_opened files path\<rparr>)"
  let ?u = "t\<lparr>s_input := None, s_task := ?k\<rparr>"
  have f: "t_type ?k = kUploading" "fs_open (t_file ?k)" "fs_good (t_file ?k)"
      "fs_rest (t_file ?k) = bs"
    using assms(5) by (simp_all add: DetectFileSize_def fs_opened_def fs_rest_def)
  have ok: "task_ok dir files ?k" using assms(4) by (rule task_ok_opened)
  let ?v = "?u\<lparr>s_task := ?k\<lparr>t_file := snd (fs_next 512 (t_file ?k))\<rparr>\<rparr>"
  have "ProcessTask 1 ?u = (True, PushPacket (new_PacketData 1 (Some (take 512 bs))) ?v)"
    using ProcessTask_block [of ?u dir files 1] f ok assms(6) by (simp add: fs_next_512)
  then have P: "Process dir files t = PushPacket (new_PacketData 1 (Some (take 512 bs))) ?v"
    using assms by (simp add: Process_def PopPacket_def answered_def Let_def)
  have "task_ok dir files (s_task ?v)" using task_ok_next [OF ok f(3)] by simp
  with assms f PushPacket_uploading [of ?v ep "take 512 bs" dir files 1]
  show "uploading dir files ep 1 (take 512 bs) (drop 512 bs) (Process dir files t)"
    "s_sent (Process dir files t) = s_sent t @ [(ep, data_wire 1 (take 512 bs))]"
    by (simp_all add: P answered_def fs_next_512)
qed

text \<open>The request reaches a new connection.\<close>

lemma run_loop_request:
  assumes "length (g_buff g) = kMaxSize" "length (g_past g) = 2" "rrq_fits name mode"
  shows "\<exists>t b. run_loop dir files (got_evs ep (rrq_wire name mode) @ es) (new_connection g True)
      = run_loop dir files es t \<and> answered ep (PacketRRQ b name (detect_mode mode)) t \<and>
      s_open t \<and> t_type (s_task t) = kIdling \<and> s_sent t = []"
proof -
  note new = new_connection_idle [OF assms(1,2)]
  from got_rrq [OF new(1,6,7,3) assms(3), of ep es] obtain t b where
    t: "io_run (got_evs ep (rrq_wire name mode) @ es) (new_connection g True) = Inr (False, t, es)"
      "answered ep (PacketRRQ b name (detect_mode mode)) t" "same_task (new_connection g True) t"
      "s_sent t = s_sent (new_connection g True)" by blast
  from run_loop_turn [OF Process_nothing [OF new(2)] new(4,3) t(1)] t new show ?thesis
    by (auto simp: same_task_def)
qed

lemma Run_transfer:
  assumes "pub_files srv name = Some path" "files path = Some bs" "bs \<noteq> []" "srv_sess srv = None"
    and "length (g_buff g) = kMaxSize" "length (g_past g) = 2" "rrq_fits name mode"
    and "length ms = length (chunks 512 bs)"
  shows "\<exists>s. Run files g True (got_evs ep (rrq_wire name mode) @ transfer_evs ep 1 ms @ es) srv
               = Some (Inr (True, srv, s, es)) \<and>
    s_sent s = map (Pair ep) (sent_blocks 1 ms (chunks 512 bs)) \<and>
    rfc_receive 1 (map snd (s_sent s)) = bs \<and> s_pend s = []"
proof -
  from run_loop_request [OF assms(5-7), of "pub_files srv" files ep "transfer_evs ep 1 ms @ es"]
  obtain t b where t: "run_loop (pub_files srv) files
      (got_evs ep (rrq_wire name mode) @ transfer_evs ep 1 ms @ es) (new_connection g True)
      = run_loop (pub_files srv) files (transfer_evs ep 1 ms @ es) t"
    "answered ep (PacketRRQ b name (detect_mode mode)) t" "s_open t"
    "t_type (s_task t) = kIdling" "s_sent t = []" by blast
  note first = Process_RRQ [where dir = "pub_files srv" and files = files and path = path, OF t(2-4) assms(1-3)]
  have "length ms = Suc (length (chunks 512 (drop 512 bs)))"
    using assms(3,8) by (simp add: chunks_step)
  from run_loop_transfer [OF first(1) _ this, of "[]" es] first(2) t(5) obtain s where
    s: "run_loop (pub_files srv) files (transfer_evs ep 1 ms @ es) t
          = Some (Inr (True, False, s, es))"
      "s_sent s = map (Pair ep) (sent_blocks 1 ms (chunks 512 bs))" "s_pend s = []"
    using assms(3) by (auto simp: chunks_step)
  moreover have "map snd (s_sent s) = sent_blocks 1 ms (chunks 512 bs)"
    using s(2) by (simp add: o_def)
  ultimately show ?thesis
    using t(1) assms(4,8) rfc_receive_sent_blocks [of ms "chunks 512 bs" 1]
    by (simp add: Run_def)
qed

text \<open>C1: a client that asks for a published file gets the file.  However often each block's
  answer is lost (\<open>ms\<close> says how often, block by block), \<open>Run\<close> ends with success, leaves no
  handler pending, sends exactly the blocks of the file in order, each until it is
  acknowledged, and a receiver that follows RFC 1350 puts the file's bytes together from them.
  The block counter may wrap: there is no bound on the size of the file.\<close>

theorem Run_delivers_file:
  assumes "pub_files srv name = Some path" "files path = Some bs" "bs \<noteq> []" "srv_sess srv = None"
    and "length (g_buff g) = kMaxSize" "length (g_past g) = 2" "rrq_fits name mode"
    and "length ms = length (chunks 512 bs)"
  shows "\<exists>s. Run files g True (got_evs ep (rrq_wire name mode) @ transfer_evs ep 1 ms @ es) srv
               = Some (Inr (True, srv, s, es)) \<and>
    s_sent s = map (Pair ep) (sent_blocks 1 ms (chunks 512 bs)) \<and>
    rfc_receive 1 (map snd (s_sent s)) = bs \<and> s_pend s = []"
  using assms by (rule Run_transfer)

definition garbage0 :: Garbage where
  "garbage0 = \<lparr>g_buff = replicate kMaxSize 255, g_past = [7, 7], g_file_sz = 0\<rparr>"

definition one_file :: Server where
  "one_file = snd (PublishFile ''f'' ''/srv/f'' new_Server)"

theorem Run_delivers_file_witness:
  "\<exists>s. Run [''/srv/f'' \<mapsto> [1, 2, 3]] garbage0 True
         (got_evs 5 (rrq_wire ''f'' ''octet'') @ transfer_evs 5 1 [1] @ []) one_file
         = Some (Inr (True, one_file, s, [])) \<and>
    s_sent s = map (Pair 5) (sent_blocks 1 [1] (chunks 512 [1, 2, 3])) \<and>
    rfc_receive 1 (map snd (s_sent s)) = [1, 2, 3] \<and> s_pend s = []"
  by (rule Run_delivers_file [where path = "''/srv/f''"])
    (simp_all add: one_file_def PublishFile_def new_Server_def garbage0_def rrq_fits_def
      of_string_def kBuff_le chunks_step)

text \<open>C2: whatever arrives, from whom, in which order and with which losses, every datagram a
  run of the server sends is a DATA block of 1 to 512 bytes whose contents are a piece of a
  file that is published; a session that stays in the server is again one that can come
  about, so the same holds of the next run.\<close>

theorem Run_sends_published_only:
  assumes "Run files g ok es srv = Some (Inr (r, srv', s, es'))"
    and "length (g_buff g) = kMaxSize" "length (g_past g) = 2"
    and "\<forall>s0. srv_sess srv = Some s0 \<longrightarrow> sess_reach (pub_files srv) files s0"
  shows "(\<forall>ep w. (ep, w) \<in> set (s_sent s) \<longrightarrow>
            (\<exists>k x. w = data_wire k x \<and> 0 < length x \<and> length x \<le> 512 \<and>
                   published_piece (pub_files srv) files x)) \<and>
         (\<forall>s1. srv_sess srv' = Some s1 \<longrightarrow> sess_reach (pub_files srv') files s1)"
proof -
  define s0 where "s0 = (case srv_sess srv of None \<Rightarrow> new_connection g ok | Some s \<Rightarrow> s)"
  have "sess_reach (pub_files srv) files s0"
    using assms(2-4) by (auto simp: s0_def intro: sess_reach.connect split: option.split)
  moreover obtain kept where "run_loop (pub_files srv) files es s0 = Some (Inr (r, kept, s, es'))"
    and srv': "srv' = srv\<lparr>srv_sess := (if kept then Some s else None)\<rparr>"
    using assms(1) by (auto simp: Run_def s0_def [symmetric] Let_def split: option.splits sum.splits)
  ultimately have reach: "sess_reach (pub_files srv) files s" by (metis run_loop_reach)
  with sess_reach_inv [OF this] srv' show ?thesis
    by (auto simp: sess_inv_def sess_ok_def piece_wire_def)
qed

theorem Run_sends_published_only_witness:
  "\<exists>s. Run [''/srv/f'' \<mapsto> [1, 2, 3]] garbage0 True
         (got_evs 5 (rrq_wire ''f'' ''octet'') @ transfer_evs 5 1 [1] @ []) one_file
         = Some (Inr (True, one_file, s, [])) \<and>
    s_sent s = [(5, data_wire 1 [1, 2, 3]), (5, data_wire 1 [1, 2, 3])] \<and>
    (\<exists>k x. data_wire 1 [1, 2, 3] = data_wire k x \<and> 0 < length x \<and> length x \<le> 512 \<and>
       published_piece (pub_files one_file) [''/srv/f'' \<mapsto> [1, 2, 3]] x)"
proof -
  have g: "length (g_buff garbage0) = kMaxSize" "length (g_past garbage0) = 2"
    by (simp_all add: garbage0_def)
  obtain s where s: "Run [''/srv/f'' \<mapsto> [1, 2, 3]] garbage0 True
         (got_evs 5 (rrq_wire ''f'' ''octet'') @ transfer_evs 5 1 [1] @ []) one_file
         = Some (Inr (True, one_file, s, []))"
    "s_sent s = map (Pair 5) (sent_blocks 1 [1] (chunks 512 [1, 2, 3]))"
    using Run_transfer [where path = "''/srv/f''" and srv = one_file and name = "''f''"
        and mode = "''octet''" and bs = "[1, 2, 3]" and g = garbage0 and ms = "[1]"
        and files = "[''/srv/f'' \<mapsto> [1, 2, 3]]" and ep = 5 and es = "[]"] g
    by (auto simp: one_file_def PublishFile_def new_Server_def rrq_fits_def
        of_string_def kBuff_le chunks_step)
  have "\<forall>s0. srv_sess one_file = Some s0 \<longrightarrow>
      sess_reach (pub_files one_file) [''/srv/f'' \<mapsto> [1, 2, 3]] s0"
    by (simp add: one_file_def PublishFile_def new_Server_def)
  note all = Run_sends_published_only [OF s(1) g this, THEN conjunct1, rule_format]
  have sent: "s_sent s = [(5, data_wire 1 [1, 2, 3]), (5, data_wire 1 [1, 2, 3])]"
    using s(2) by (simp add: chunks_step)
  from all [of 5 "data_wire 1 [1, 2, 3]"] s(1) sent show ?thesis
    by (intro exI [of _ s]) simp
qed

end
