(* ===== verification/Tftp_Faults.thy ===== *)
theory Tftp_Faults
  imports Tftp_Transfer
begin

text \<open>
  What the server does where the exchange does not go as it should: answers that never
  come, requests for files that are not there or are empty, repeated requests, requests
  without a terminator, a socket that cannot be opened.
\<close>

section \<open>Answers that do not come\<close>

text \<open>C9: the server never gives a transfer up.  The timer repeats the block, with the same
  bytes to the same end point, and although \<open>HandlerTimer\<close> counts the tries up to
  \<open>kTriesLimit\<close> and then sets \<open>_timeout\<close>, the receive operation that follows the repeated block
  clears the flag again: after any number \<open>m\<close> of lost answers the session awaits the same
  answer and reports no timeout.\<close>

theorem lost_answers_never_end:
  assumes "awaiting ep w s"
  shows "\<exists>s'. io_run (concat (replicate m lost_evs) @ es) s = io_run es s' \<and> awaiting ep w s' \<and>
              \<not> s_timeout s' \<and> s_task s' = s_task s \<and> s_sent s' = s_sent s @ replicate m (ep, w)"
  using awaiting_lost_many [OF assms, of m es] by (auto simp: same_task_def awaiting_def)

definition some_awaiting :: Session where
  "some_awaiting = (new_Session garbage0)\<lparr>s_endpt := 5,
     s_output := Some (new_PacketData 1 (Some [65])),
     s_pend := [(OpRecv kBuffMaxSize, False), (OpTimer kResponseTimeoutMs, False)]\<rparr>"

lemma some_awaiting: "awaiting 5 (data_wire 1 [65]) some_awaiting"
  using new_PacketData_wire [of "[65]" 1]
  by (simp add: some_awaiting_def awaiting_def exchange_def new_Session_def garbage0_def data_wire_def)

theorem lost_answers_never_end_witness:
  "\<exists>s'. io_run (concat (replicate 100 lost_evs) @ []) some_awaiting = io_run [] s' \<and>
        awaiting 5 (data_wire 1 [65]) s' \<and> \<not> s_timeout s' \<and>
        s_task s' = s_task some_awaiting \<and>
        s_sent s' = s_sent some_awaiting @ replicate 100 (5, data_wire 1 [65])"
  using some_awaiting by (rule lost_answers_never_end)

text \<open>The first period passes without a request.\<close>

lemma Run_silence:
  assumes "srv_sess srv = None" and "length (g_buff g) = kMaxSize" "length (g_past g) = 2"
  shows "\<exists>s. Run files g True ([Ev 1 (Fired True), Ev 0 Failed] @ es) srv
               = Some (Inr (False, srv, s, es)) \<and> s_sent s = [] \<and> s_pend s = []"
proof -
  let ?s = "new_connection g True"
  note new = new_connection_idle [OF assms(2,3)]
  define t where "t = HandlerTimer False True (drop_pend 1 ?s)"
  have t: "s_pend t = [(OpRecv kBuffMaxSize, True)]" "s_timeout t" "s_sent t = []" "s_input t = None"
    using new by (simp_all add: t_def HandlerTimer_def Let_def drop_pend_def cancel_socket_def
        new_connection_def Open_def new_Session_def)
  have "io_run ([Ev 1 (Fired True), Ev 0 Failed] @ es) ?s = io_run (Ev 0 Failed # es) t"
    unfolding append_Cons append_Nil
    by (rule io_run_op [where op = "OpTimer kRequestTimeoutMs" and c = False])
      (simp_all add: new t_def)
  also have "\<dots> = io_run es (drop_pend 0 t)"
    by (rule io_run_op [where op = "OpRecv kBuffMaxSize" and c = True])
      (simp_all add: t HandlerRead_def)
  also have "\<dots> = Inr (False, drop_pend 0 t, es)"
    by (rule io_run_idle) (simp add: t drop_pend_def)
  finally have "run_loop (pub_files srv) files ([Ev 1 (Fired True), Ev 0 Failed] @ es) ?s
      = run_loop (pub_files srv) files es (drop_pend 0 t)"
    by (rule run_loop_turn [OF Process_nothing [OF new(2)] new(4,3)])
  also have "\<dots> = Some (Inr (False, False, drop_pend 0 t, es))"
    using run_loop_end [OF Process_nothing [of "drop_pend 0 t"]] t by simp
  finally show ?thesis using assms(1) t by (simp add: Run_def drop_pend_def)
qed

text \<open>A server that nobody asks anything ends with a timeout after the first period:
  \<open>Run\<close> returns false, and nothing was sent.\<close>

theorem Run_nobody_asks:
  assumes "srv_sess srv = None" and "length (g_buff g) = kMaxSize" "length (g_past g) = 2"
  shows "\<exists>s. Run files g True ([Ev 1 (Fired True), Ev 0 Failed] @ es) srv
               = Some (Inr (False, srv, s, es)) \<and> s_sent s = [] \<and> s_pend s = []"
  using assms by (rule Run_silence)

theorem Run_nobody_asks_witness:
  "\<exists>s. Run Map.empty garbage0 True ([Ev 1 (Fired True), Ev 0 Failed] @ []) new_Server
         = Some (Inr (False, new_Server, s, [])) \<and> s_sent s = [] \<and> s_pend s = []"
  by (rule Run_nobody_asks) (simp_all add: new_Server_def garbage0_def)

section \<open>Requests that cannot be served\<close>

text \<open>A request for a name that is not published closes the session: nothing is sent, the
  client gets no ERROR packet, and \<open>Run\<close> reports success.\<close>

theorem Run_unknown_file:
  assumes "pub_files srv name = None" "srv_sess srv = None"
    and "length (g_buff g) = kMaxSize" "length (g_past g) = 2" "rrq_fits name mode"
  shows "\<exists>s. Run files g True (got_evs ep (rrq_wire name mode) @ es) srv
               = Some (Inr (True, srv, s, es)) \<and> s_sent s = [] \<and> s_pend s = [] \<and> \<not> s_open s"
proof -
  from run_loop_request [OF assms(3-5), of "pub_files srv" files ep es] obtain t b where
    t: "run_loop (pub_files srv) files (got_evs ep (rrq_wire name mode) @ es) (new_connection g True)
          = run_loop (pub_files srv) files es t"
      "answered ep (PacketRRQ b name (detect_mode mode)) t" "s_sent t = []" by blast
  have "Process (pub_files srv) files t = Close (t\<lparr>s_input := None\<rparr>)"
    using t(2) assms(1) by (simp add: Process_def PopPacket_def answered_def Let_def)
  from run_loop_end [OF this] t show ?thesis
    using assms(2) by (simp add: Run_def answered_def cancel_socket_def)
qed

theorem Run_unknown_file_witness:
  "\<exists>s. Run Map.empty garbage0 True (got_evs 5 (rrq_wire ''f'' ''octet'') @ []) new_Server
         = Some (Inr (True, new_Server, s, [])) \<and> s_sent s = [] \<and> s_pend s = [] \<and> \<not> s_open s"
  by (rule Run_unknown_file)
    (simp_all add: new_Server_def garbage0_def rrq_fits_def of_string_def kBuff_le)

text \<open>
  A session that is open with nothing pending and nothing received: the loop of \<open>Run\<close> turns
  forever, as \<open>io_service::run\<close> returns at once.
\<close>

definition stuck :: "Session \<Rightarrow> bool" where
  "stuck s \<longleftrightarrow> s_input s = None \<and> s_pend s = [] \<and> s_open s \<and> \<not> s_timeout s"

lemma run_loop_stuck:
  assumes "stuck s"
  shows "run_loop dir files es s = None"
proof -
  have "stuck s \<longrightarrow> False" if "run_loop dir files es s = Some y" for y
    using that
  proof (rule run_loop.raw_induct [rotated])
    fix loop :: "(string \<rightharpoonup> string) \<Rightarrow> files \<Rightarrow> Ev list \<Rightarrow> Session \<Rightarrow>
      (stop + (bool \<times> bool \<times> Session \<times> Ev list)) option"
    fix dir files es s y
    assume IH: "\<And>dir files es s y. loop dir files es s = Some y \<Longrightarrow> stuck s \<longrightarrow> False"
      and eq: "(let s = Process dir files s in
        if \<not> s_open s \<or> s_timeout s then Some (Inr (\<not> s_timeout s, False, s, es))
        else (case io_run es s of Inl x \<Rightarrow> Some (Inl x)
              | Inr (err, s', es') \<Rightarrow> (if err then Some (Inr (False, True, s', es'))
                                    else loop dir files es' s'))) = Some y"
    show "stuck s \<longrightarrow> False"
    proof
      assume s: "stuck s"
      then have "Process dir files s = s" "io_run es s = Inr (False, s, es)"
        by (auto simp: stuck_def Process_nothing io_run_idle)
      with eq s have "loop dir files es s = Some y" by (simp add: stuck_def)
      with IH s show False by blast
    qed
  qed
  with assms show ?thesis by (cases "run_loop dir files es s") auto
qed

lemma run_loop_Process_stuck:
  assumes "stuck (Process dir files t)"
  shows "run_loop dir files es t = None"
proof -
  from assms have "io_run es (Process dir files t) = Inr (False, Process dir files t, es)"
    by (auto simp: stuck_def io_run_idle)
  from run_loop_turn [OF refl _ _ this] assms run_loop_stuck [OF assms] show ?thesis
    by (simp add: stuck_def)
qed
text \<open>A request for a file that is empty or cannot be opened leaves the session stuck.\<close>

lemma Process_RRQ_stuck:
  assumes "answered ep (PacketRRQ b name m) t" "s_open t" "t_type (s_task t) = kIdling"
    and "dir name = Some path" "files path = None \<or> files path = Some []"
  shows "stuck (Process dir files t)"
proof -
  let ?u = "t\<lparr>s_input := None, s_task := DetectFileSize ((s_task t)\<lparr>t_type := kUploading,
      t_mode := m, t_file := fs_opened files path\<rparr>)\<rparr>"
  have "ProcessTask 1 ?u = (False, ?u)"
    using assms(5) by (auto simp: ProcessTask_def DetectFileSize_def fs_opened_def)
  then have "Process dir files t = ?u"
    using assms by (simp add: Process_def PopPacket_def answered_def Let_def)
  with assms show ?thesis by (simp add: stuck_def answered_def)
qed

text \<open>A request while a file is uploaded, for any published name, leaves it stuck as well.\<close>

lemma Process_repeated_stuck:
  assumes "answered ep (PacketRRQ b name m) t" "s_open t" "t_type (s_task t) \<noteq> kIdling"
    and "dir name = Some path"
  shows "stuck (Process dir files t)"
  using assms by (simp add: Process_def PopPacket_def answered_def stuck_def Let_def)

text \<open>C10: a request for a published file that is empty, or that cannot be opened, makes \<open>Run\<close>
  turn forever: there is no value it returns, whatever happens next.\<close>

theorem Run_spins_on_empty_file:
  assumes "pub_files srv name = Some path" "files path = None \<or> files path = Some []"
    and "srv_sess srv = None"
    and "length (g_buff g) = kMaxSize" "length (g_past g) = 2" "rrq_fits name mode"
  shows "Run files g True (got_evs ep (rrq_wire name mode) @ es) srv = None"
proof -
  from run_loop_request [OF assms(4-6), of "pub_files srv" files ep es] obtain t b where
    t: "run_loop (pub_files srv) files (got_evs ep (rrq_wire name mode) @ es) (new_connection g True)
          = run_loop (pub_files srv) files es t"
      "answered ep (PacketRRQ b name (detect_mode mode)) t" "s_open t"
      "t_type (s_task t) = kIdling" by blast
  have "stuck (Process (pub_files srv) files t)"
    using t(2-4) assms(1,2) by (rule Process_RRQ_stuck)
  from run_loop_Process_stuck [OF this] t(1) assms(3) show ?thesis by (simp add: Run_def)
qed

theorem Run_spins_on_empty_file_witness:
  "Run [''/srv/f'' \<mapsto> []] garbage0 True (got_evs 5 (rrq_wire ''f'' ''octet'') @ []) one_file = None"
  by (rule Run_spins_on_empty_file [where path = "''/srv/f''"])
    (simp_all add: one_file_def PublishFile_def new_Server_def garbage0_def rrq_fits_def
      of_string_def kBuff_le)

text \<open>The same happens when the client repeats its request after the first block went out,
  as a client does whose block was lost: \<open>Run\<close> never returns and never sends again.\<close>

theorem Run_spins_on_repeated_request:
  assumes "pub_files srv name = Some path" "files path = Some bs" "bs \<noteq> []" "srv_sess srv = None"
    and "length (g_buff g) = kMaxSize" "length (g_past g) = 2" "rrq_fits name mode"
  shows "Run files g True
           (got_evs ep (rrq_wire name mode) @ [Ev 0 Completed] @ got_evs ep (rrq_wire name mode) @ es)
           srv = None"
proof -
  let ?dir = "pub_files srv" and ?again = "got_evs ep (rrq_wire name mode) @ es"
  from run_loop_request [OF assms(5-7), of ?dir files ep "[Ev 0 Completed] @ ?again"]
  obtain t b where
    t: "run_loop ?dir files (got_evs ep (rrq_wire name mode) @ [Ev 0 Completed] @ ?again)
          (new_connection g True) = run_loop ?dir files ([Ev 0 Completed] @ ?again) t"
      "answered ep (PacketRRQ b name (detect_mode mode)) t" "s_open t"
      "t_type (s_task t) = kIdling" by blast
  let ?s = "Process ?dir files t"
  have up: "uploading ?dir files ep 1 (take 512 bs) (drop 512 bs) ?s"
    by (rule Process_RRQ [where path = path]) (use t assms(1-3) in auto)
  then obtain s1 where s1: "io_run (Ev 0 Completed # ?again) ?s = io_run ?again s1"
    "awaiting ep (data_wire 1 (take 512 bs)) s1" "same_task ?s s1"
    using sending_Completed [of ep "data_wire 1 (take 512 bs)" ?s ?again]
    by (auto simp: uploading_def)
  obtain t' b' where t': "io_run ?again s1 = Inr (False, t', es)"
    "answered ep (PacketRRQ b' name (detect_mode mode)) t'" "same_task s1 t'"
    using got_rrq [of s1 kResponseTimeoutMs name mode ep es] s1(2) assms(7)
    by (auto simp: awaiting_def exchange_def)
  have "stuck (Process ?dir files t')"
    using t'(2) up s1(3) t'(3) assms(1)
    by (intro Process_repeated_stuck) (auto simp: uploading_def same_task_def)
  then have "run_loop ?dir files es t' = None" by (rule run_loop_Process_stuck)
  moreover have "run_loop ?dir files ([Ev 0 Completed] @ ?again) t = run_loop ?dir files es t'"
    using up s1(1) t'(1) by (intro run_loop_turn [OF refl]) (auto simp: uploading_def)
  ultimately show ?thesis using t(1) assms(4) by (simp add: Run_def)
qed

theorem Run_spins_on_repeated_request_witness:
  "Run [''/srv/f'' \<mapsto> [1, 2, 3]] garbage0 True
     (got_evs 5 (rrq_wire ''f'' ''octet'') @ [Ev 0 Completed] @ got_evs 5 (rrq_wire ''f'' ''octet'') @ [])
     one_file = None"
  by (rule Run_spins_on_repeated_request [where path = "''/srv/f''" and bs = "[1, 2, 3]"])
    (simp_all add: one_file_def PublishFile_def new_Server_def garbage0_def rrq_fits_def
      of_string_def kBuff_le)

section \<open>The end of a file\<close>

lemma sent_blocks_lengths:
  "length ms = length ds \<Longrightarrow> length ` set (sent_blocks k ms ds) = (\<lambda>d. length d + 4) ` set ds"
  by (induction k ms ds rule: sent_blocks.induct) (auto simp: data_wire_def image_Un)

lemma chunks_full:
  "0 < n \<Longrightarrow> (\<forall>d \<in> set (chunks n xs). length d = n) \<longleftrightarrow> n dvd length xs"
proof (induction n xs rule: chunks.induct)
  case (1 n xs)
  show ?case
  proof (cases "xs = []")
    case False
    then have "n dvd length (drop n xs) \<and> n \<le> length xs \<longleftrightarrow> n dvd length xs"
      using dvd_minus_self [of n "length xs"] dvd_imp_le [of n "length xs"] by fastforce
    moreover have "(\<forall>d \<in> set (chunks n xs). length d = n) \<longleftrightarrow>
        length (take n xs) = n \<and> (\<forall>d \<in> set (chunks n (drop n xs)). length d = n)"
      using False 1(2) by (simp add: chunks_step)
    moreover have "length (take n xs) = n \<longleftrightarrow> n \<le> length xs" by auto
    ultimately show ?thesis using 1 False by blast
  qed simp
qed

text \<open>The transfer of a file ends with a block of fewer than 512 bytes, which is how RFC 1350
  lets the client see the end, exactly if the size of the file is not a multiple of 512; else
  every datagram is full and no empty block follows.\<close>

theorem Run_last_block_short:
  assumes "pub_files srv name = Some path" "files path = Some bs" "bs \<noteq> []" "srv_sess srv = None"
    and "length (g_buff g) = kMaxSize" "length (g_past g) = 2" "rrq_fits name mode"
    and "length ms = length (chunks 512 bs)"
  shows "\<exists>s. Run files g True (got_evs ep (rrq_wire name mode) @ transfer_evs ep 1 ms @ es) srv
               = Some (Inr (True, srv, s, es)) \<and>
    (list_all (\<lambda>w. length w = 4 + 512) (map snd (s_sent s)) \<longleftrightarrow> length bs mod 512 = 0)"
proof -
  obtain s where
    s: "Run files g True (got_evs ep (rrq_wire name mode) @ transfer_evs ep 1 ms @ es) srv
          = Some (Inr (True, srv, s, es))"
      "s_sent s = map (Pair ep) (sent_blocks 1 ms (chunks 512 bs))"
    using Run_transfer [where files = files, OF assms, of ep es] by blast
  then have snd: "map snd (s_sent s) = sent_blocks 1 ms (chunks 512 bs)" by (simp add: o_def)
  have "list_all (\<lambda>w. length w = 4 + 512) (map snd (s_sent s)) \<longleftrightarrow>
      length ` set (sent_blocks 1 ms (chunks 512 bs)) \<subseteq> {516}"
    unfolding snd list_all_iff by auto
  also have "\<dots> \<longleftrightarrow> (\<forall>d \<in> set (chunks 512 bs). length d = 512)"
    by (subst sent_blocks_lengths [OF assms(8)]) auto
  also have "\<dots> \<longleftrightarrow> length bs mod 512 = 0"
    by (simp add: chunks_full dvd_eq_mod_eq_0)
  finally show ?thesis by (intro exI [of _ s] conjI s(1))
qed

theorem Run_last_block_short_witness:
  "\<exists>s. Run [''/srv/f'' \<mapsto> replicate 512 9] garbage0 True
         (got_evs 5 (rrq_wire ''f'' ''octet'') @ transfer_evs 5 1 [0] @ []) one_file
         = Some (Inr (True, one_file, s, [])) \<and>
    (list_all (\<lambda>w. length w = 4 + 512) (map snd (s_sent s)) \<longleftrightarrow>
       length (replicate 512 (9::byte)) mod 512 = 0)"
  by (rule Run_last_block_short [where path = "''/srv/f''"])
    (simp_all add: one_file_def PublishFile_def new_Server_def garbage0_def rrq_fits_def
      of_string_def kBuff_le chunks_step)

section \<open>Requests without a terminator\<close>

text \<open>A read request that fills the receive buffer without a zero byte makes the parser run
  over the end of the packet: where the bytes of \<open>_buff\<close> that were never written and the two
  after it hold no zero either, the scan for the terminator leaves the array.\<close>

theorem Run_request_overread:
  assumes "srv_sess srv = None" and "length (g_buff g) = kMaxSize" "length (g_past g) = 2"
    and "length w = kBuffMaxSize" "w ! 1 = 1" "0 \<notin> set (drop 2 w)"
    and "0 \<notin> set (drop kBuffMaxSize (g_buff g))" "0 \<notin> set (g_past g)"
  shows "Run files g True (Ev 0 (Got ep w) # es) srv = Some (Inl OutOfBounds)"
proof -
  let ?s = "new_connection g True"
  note new = new_connection_idle [OF assms(2,3)]
  have buff: "s_buff ?s = replicate kBuffMaxSize 0 @ drop kBuffMaxSize (g_buff g)"
    and past: "s_past ?s = g_past g"
    by (simp_all add: new_connection_def Open_def new_Session_def AsyncAccept_def Receive_def
        overwrite_def Let_def)
  define u where "u = cancel_timer (received kBuffMaxSize ep w (drop_pend 0 ?s))"
  have u: "s_buff u = w @ drop kBuffMaxSize (g_buff g)" "s_past u = g_past g"
    using assms(4) buff past by (simp_all add: u_def received_def overwrite_def)
  have "s_buff u ! 1 = 1" using assms(4,5) by (simp add: u(1) nth_append kBuff_le)
  moreover have "Read (with_buff b (PacketRRQ new_buffer '''' None)) = None"
    if "bdata b = drop 2 (s_buff u) @ s_past u" for b
  proof -
    have "0 \<notin> set (bdata b)"
      using that assms(4,6-8) by (simp add: u kBuff_le)
    then have "nul_scan (bdata b) 0 = None" by (simp add: nul_scan_None_iff)
    then show ?thesis by (simp add: GetVal_string_def kBuff_le)
  qed
  moreover have "bdata (snd (set_data (Some (drop 2 (s_buff u) @ s_past u)) (kBuffMaxSize * 2)
      new_buffer)) = drop 2 (s_buff u) @ s_past u"
    by (rule input_copy) (use assms u in \<open>simp_all add: kBuff_le new_buffer_def\<close>)
  ultimately have "DetectInputPkt u = Inl OutOfBounds"
    by (simp add: DetectInputPkt_def Let_def)
  then have "io_run (Ev 0 (Got ep w) # es) ?s = Inl OutOfBounds"
    using new(1) by (simp add: HandlerRead_def u_def)
  then show ?thesis
    using new assms(1) Process_nothing [OF new(2), of "pub_files srv" files]
    by (simp add: Run_def Let_def run_loop.simps [of "pub_files srv" files "Ev 0 (Got ep w) # es" ?s])
qed

theorem Run_request_overread_witness:
  "Run Map.empty garbage0 True (Ev 0 (Got 5 ([0, 1] @ replicate 256 65)) # []) new_Server
     = Some (Inl OutOfBounds)"
  by (rule Run_request_overread) (simp_all add: new_Server_def garbage0_def kBuff_le)

text \<open>Every packet that is parsed holds two bytes that were never received: the copy of 516
  bytes from the third byte of \<open>_buff\<close> takes the two bytes of the object that follow the array.\<close>

theorem DetectInputPkt_copies_past_buffer:
  assumes "length (s_buff s) = kMaxSize" "length (s_past s) = 2"
    and "DetectInputPkt s = Inr s'" "s_input s' = Some p" "s_input s = None"
  shows "drop (kMaxSize - 2) (bdata (pk_buff p)) = s_past s \<and> bsize (pk_buff p) = kMaxSize"
proof -
  from assms(3-5) obtain q b where
    q: "new_input (s_buff s ! 1) = Some q"
      "b = snd (set_data (Some (drop 2 (s_buff s) @ s_past s)) (kBuffMaxSize * 2) (pk_buff q))"
      "\<exists>r. Read (with_buff b q) = Some (r, p)"
    by (auto simp: DetectInputPkt_def Let_def simp del: new_input.simps split: option.splits)
  then have "pk_buff q = new_buffer" by (auto split: if_splits)
  with q(2) have "bdata b = drop 2 (s_buff s) @ s_past s" "bsize b = kMaxSize"
    using input_copy [OF assms(1,2), of new_buffer]
    by (simp_all add: new_buffer_def) (simp add: set_data_def kBuff_le)
  moreover have "pk_buff p = b"
    using q(3) by (cases q) (auto simp: Let_def split: option.splits prod.splits)
  ultimately show ?thesis using assms(1) by (simp add: kBuff_le)
qed

theorem DetectInputPkt_copies_past_buffer_witness:
  "drop (kMaxSize - 2) (bdata (pk_buff (PacketACK
      \<lparr>bdata = [0, 9] @ replicate 512 0 @ [7, 8], bsize = 516\<rparr> (Some 9)))) = [7, 8]
   \<and> bsize (pk_buff (PacketACK
      \<lparr>bdata = [0, 9] @ replicate 512 0 @ [7, 8], bsize = 516\<rparr> (Some 9))) = kMaxSize"
proof -
  define s where "s = (new_Session garbage0)\<lparr>s_buff := ack_wire 9 @ replicate 512 0, s_past := [7, 8]\<rparr>"
  let ?b = "\<lparr>bdata = [0, 9] @ replicate 512 0 @ [7, 8], bsize = 516\<rparr>"
  have "set_data (Some (drop 2 (s_buff s) @ s_past s)) (kBuffMaxSize * 2) new_buffer = (True, ?b)"
    by (simp add: s_def set_data_def kBuff_le ack_wire_def new_buffer_def overwrite_def)
  moreover have "snd (GetVal_u16 [0, 0] 0 ?b) = 9"
    using GetVal_u16_0 [of ?b 0 9 "replicate 512 0 @ [7, 8]" "[0, 0]"] by (simp add: mk16_def)
  moreover have "s_buff s ! 1 = 4" by (simp add: s_def ack_wire_def)
  ultimately have "DetectInputPkt s = Inr (s\<lparr>s_input := Some (PacketACK ?b (Some 9))\<rparr>)"
    by (simp add: DetectInputPkt_def Let_def)
  from DetectInputPkt_copies_past_buffer [OF _ _ this, of "PacketACK ?b (Some 9)"]
  show ?thesis by (simp add: s_def new_Session_def kBuff_le ack_wire_def)
qed

section \<open>A socket that cannot be opened\<close>

text \<open>The result of \<open>Open\<close> is not looked at.  Where it fails, \<open>Run\<close> reports success without
  waiting for anything, drops the session, and leaves its receive and timer handlers pending
  on the service, which hold a pointer to it.\<close>

theorem Run_open_fails:
  assumes "srv_sess srv = None"
  shows "\<exists>s. Run files g False es srv = Some (Inr (True, srv, s, es)) \<and> \<not> s_open s \<and>
             s_pend s = [(OpRecv kBuffMaxSize, False), (OpTimer kRequestTimeoutMs, False)]"
proof -
  let ?s = "new_connection g False"
  have s: "\<not> s_open ?s" "s_input ?s = None" "\<not> s_timeout ?s"
      "s_pend ?s = [(OpRecv kBuffMaxSize, False), (OpTimer kRequestTimeoutMs, False)]"
    by (simp_all add: new_connection_def Open_def new_Session_def AsyncAccept_idle
        AsyncAccept_timeout)
  from run_loop_end [OF Process_nothing [OF s(2)], of "pub_files srv" files es] s assms
  show ?thesis by (simp add: Run_def)
qed

theorem Run_open_fails_witness:
  "\<exists>s. Run Map.empty garbage0 False [] new_Server = Some (Inr (True, new_Server, s, [])) \<and>
       \<not> s_open s \<and>
       s_pend s = [(OpRecv kBuffMaxSize, False), (OpTimer kRequestTimeoutMs, False)]"
  by (rule Run_open_fails) (simp add: new_Server_def)

section \<open>What is published\<close>

definition publish_all :: "(string \<times> string) list \<Rightarrow> Server \<Rightarrow> Server" where
  "publish_all ps srv = fold (\<lambda>(name, path) srv. snd (PublishFile name path srv)) ps srv"

lemma pub_files_PublishFile:
  "pub_files (snd (PublishFile n p srv)) name =
     (if name = n \<and> n \<noteq> [] \<and> p \<noteq> [] \<and> pub_files srv n = None then Some p
      else pub_files srv name)"
  by (auto simp: PublishFile_def split: option.split)

text \<open>The first publication of a name counts, later ones are ignored without a word, and
  empty names and paths are never published.\<close>

theorem first_publication_wins:
  "pub_files (publish_all ps srv) name =
     (case pub_files srv name of
        Some path \<Rightarrow> Some path
      | None \<Rightarrow> map_of (filter (\<lambda>(n, p). n \<noteq> '''' \<and> p \<noteq> '''') ps) name)"
  unfolding publish_all_def
  by (induction ps arbitrary: srv)
    (auto simp: pub_files_PublishFile split: option.splits)

end
