(* ===== verification/Regi_Retry.thy ===== *)
theory Regi_Retry
  imports Regi_Prelude
begin

text \<open>
  Operations that are tried a bounded number of times: the interface, with the lemmas that
  hold of every such loop.  An attempt may not return (\<^theory_text>\<open>None\<close>), may stop the run
  (\<open>Inl\<close>), or succeeds or fails in a new state.
\<close>

type_synonym 's attempt = "(stop + (bool \<times> 's)) option"

definition retry_step :: "('s \<Rightarrow> 's attempt) \<Rightarrow> ('s \<Rightarrow> 's attempt) \<Rightarrow> 's \<Rightarrow> 's attempt" where
  "retry_step attempt again s =
     (case attempt s of
        Some (Inr (ok, t)) \<Rightarrow> (if ok then Some (Inr (True, t)) else again t)
      | r \<Rightarrow> r)"

locale retry =
  fixes attempt :: "'s \<Rightarrow> 's attempt"
    and loop :: "nat \<Rightarrow> 's \<Rightarrow> 's attempt"
  assumes loop_0: "loop 0 s = Some (Inr (False, s))"
    and loop_Suc: "loop (Suc n) s = retry_step attempt (loop n) s"
begin

text \<open>\<open>k\<close> attempts in a row that fail lead from \<open>s\<close> to \<open>t\<close>.\<close>

fun fails :: "nat \<Rightarrow> 's \<Rightarrow> 's \<Rightarrow> bool" where
  "fails 0 s t \<longleftrightarrow> s = t"
| "fails (Suc k) s t \<longleftrightarrow> (\<exists>u. attempt s = Some (Inr (False, u)) \<and> fails k u t)"

lemma loop_False_iff: "loop n s = Some (Inr (False, t)) \<longleftrightarrow> fails n s t"
proof (induction n arbitrary: s)
  case (Suc n)
  then show ?case
    by (auto simp: loop_Suc retry_step_def split: option.splits sum.splits)
qed (simp add: loop_0)

lemma loop_True_iff:
  "loop n s = Some (Inr (True, t)) \<longleftrightarrow>
   (\<exists>k<n. \<exists>u. fails k s u \<and> attempt u = Some (Inr (True, t)))"
proof (induction n arbitrary: s)
  case (Suc n)
  have "(\<exists>k<Suc n. \<exists>u. fails k s u \<and> attempt u = Some (Inr (True, t))) \<longleftrightarrow>
      attempt s = Some (Inr (True, t)) \<or>
      (\<exists>v. attempt s = Some (Inr (False, v)) \<and>
        (\<exists>k<n. \<exists>u. fails k v u \<and> attempt u = Some (Inr (True, t))))"
    (is "?l \<longleftrightarrow> ?r")
  proof
    assume ?l
    then obtain k u where "k < Suc n" "fails k s u" "attempt u = Some (Inr (True, t))" by blast
    then show ?r by (cases k) auto
  next
    assume ?r
    then show ?l
    proof
      assume "attempt s = Some (Inr (True, t))"
      then show ?l by (intro exI [of _ 0]) auto
    next
      assume "\<exists>v. attempt s = Some (Inr (False, v)) \<and>
        (\<exists>k<n. \<exists>u. fails k v u \<and> attempt u = Some (Inr (True, t)))"
      then obtain v k u where "attempt s = Some (Inr (False, v))" "k < n" "fails k v u"
        "attempt u = Some (Inr (True, t))" by blast
      then show ?l by (intro exI [of _ "Suc k"]) auto
    qed
  qed
  with Suc show ?case
    by (auto simp: loop_Suc retry_step_def split: option.splits sum.splits)
qed (simp add: loop_0)

text \<open>
  An invariant that failed attempts keep holds at the end of a loop that fails, and in the
  state in which the attempt succeeded where it does not.
\<close>

lemma loop_False_inv:
  assumes "\<And>s t. P s \<Longrightarrow> attempt s = Some (Inr (False, t)) \<Longrightarrow> P t"
    and "loop n s = Some (Inr (False, t))" and "P s"
  shows "P t"
  using assms(2,3)
proof (induction n arbitrary: s)
  case (Suc n)
  then show ?case using assms(1)
    by (fastforce simp: loop_Suc retry_step_def split: option.splits sum.splits if_splits prod.splits)
qed (simp add: loop_0)

lemma loop_True_last:
  assumes "\<And>s t. P s \<Longrightarrow> attempt s = Some (Inr (False, t)) \<Longrightarrow> P t"
    and "loop n s = Some (Inr (True, t))" and "P s"
  shows "\<exists>u. P u \<and> attempt u = Some (Inr (True, t))"
  using assms(2,3)
proof (induction n arbitrary: s)
  case (Suc n)
  from Suc.prems obtain ok' u where u: "attempt s = Some (Inr (ok', u))"
    and r: "(ok' \<and> t = u) \<or> (\<not> ok' \<and> loop n u = Some (Inr (True, t)))"
    by (auto simp: loop_Suc retry_step_def split: option.splits sum.splits if_splits)
  from assms(1) [OF Suc.prems(2)] Suc.IH [of u] r u Suc.prems(2) show ?case by (cases ok') auto
qed (simp add: loop_0)

text \<open>Each attempt costs at most \<open>c\<close>, so \<open>n\<close> of them cost at most \<open>n * c\<close>.\<close>

lemma loop_cost:
  fixes cost :: "'s \<Rightarrow> nat"
  assumes "\<And>s t. P s \<Longrightarrow> attempt s = Some (Inr (False, t)) \<Longrightarrow> P t"
    and "\<And>s ok t. P s \<Longrightarrow> attempt s = Some (Inr (ok, t)) \<Longrightarrow> cost t \<le> cost s + c"
    and "loop n s = Some (Inr (ok, t))" and "P s"
  shows "cost t \<le> cost s + n * c"
  using assms(3,4)
proof (induction n arbitrary: s)
  case (Suc n)
  from Suc.prems obtain ok' u where u: "attempt s = Some (Inr (ok', u))"
    and r: "(ok' \<and> t = u) \<or> (\<not> ok' \<and> loop n u = Some (Inr (ok, t)))"
    by (auto simp: loop_Suc retry_step_def split: option.splits sum.splits if_splits)
  from assms(2) [OF Suc.prems(2) u] have "cost u \<le> cost s + c" .
  with assms(1) [OF Suc.prems(2)] Suc.IH [of u] r u show ?case by auto
qed (simp add: loop_0)

lemma loop_total:
  assumes "\<And>s. P s \<Longrightarrow> attempt s \<noteq> None"
    and "\<And>s t. P s \<Longrightarrow> attempt s = Some (Inr (False, t)) \<Longrightarrow> P t"
    and "P s"
  shows "loop n s \<noteq> None"
  using assms(3)
proof (induction n arbitrary: s)
  case (Suc n)
  from assms(1) [OF Suc.prems] obtain r where r: "attempt s = Some r" by auto
  show ?case
  proof (cases r)
    case (Inr p)
    then obtain ok u where p: "r = Inr (ok, u)" by (cases p) auto
    with r Suc assms(2) show ?thesis
      by (cases ok) (auto simp: loop_Suc retry_step_def)
  qed (simp add: loop_Suc retry_step_def r)
qed (simp add: loop_0)

end

end
