(* ===== verification/Sdp_Packet.thy ===== *)
theory Sdp_Packet
  imports Regi_Retry
begin

text \<open>
  The packets of the i.MX53 serial download protocol (regiloader/sdp.hpp, sdp.cpp): the
  16-byte packet, the functions that store fields in it and read them back in either byte
  order, and the \<open>Write\<close> and \<open>Read\<close> methods of the packet classes.

  \<open>SdpPacket\<close> and its subclasses are one state, \<open>Sdp\<close>, and a value \<open>SdpKind\<close> that says which
  class the object has and holds the members of that class.
\<close>

section \<open>The object\<close>

definition kPktSize :: nat where
  "kPktSize = 16"

datatype Transfer = kStop | kContinue | kError

definition kOtherwise :: u32 where
  "kOtherwise = 0x56787856"

datatype SdpOp = SWrite "byte list" | SRead nat | STimer

record Sdp =
  k_cmd_id :: u16
  k_packet :: "byte list"
  k_resp :: nat
  k_req :: nat
  k_was_read :: bool
  k_timeout :: bool
  k_session :: bool
  k_rcv :: "byte list"
  k_open :: bool
  k_pend :: "(SdpOp \<times> bool) list"
  k_wire :: "byte list list"

text \<open>
  The constructor: \<open>pkt\<close> are the bytes the packet has before anything is stored in it;
  \<open>open_port\<close> says whether the port is open.
\<close>

definition new_SdpPacket :: "byte list \<Rightarrow> bool \<Rightarrow> byte \<Rightarrow> nat \<Rightarrow> nat \<Rightarrow> Sdp" where
  "new_SdpPacket pkt open_port cmd resp req =
     \<lparr>k_cmd_id = push_bit 8 (ucast cmd) OR ucast cmd, k_packet = pkt,
      k_resp = (if resp > kPktSize then kPktSize else resp), k_req = req,
      k_was_read = False, k_timeout = False, k_session = False, k_rcv = [],
      k_open = open_port, k_pend = [], k_wire = []\<rparr>"

section \<open>Fields\<close>

text \<open>Offsets are bytes, so that their arithmetic is modulo 256.\<close>

definition add_dst :: "byte \<Rightarrow> bool \<Rightarrow> nat \<Rightarrow> byte" where
  "add_dst offs msb src = (if msb then offs - word_of_nat src else offs + word_of_nat src)"

definition field_start :: "byte \<Rightarrow> nat \<Rightarrow> bool \<Rightarrow> byte" where
  "field_start offs sz msb = offs + (if msb then word_of_nat (sz - 1) else 0)"

definition AddArr :: "byte \<Rightarrow> byte list \<Rightarrow> bool \<Rightarrow> Sdp \<Rightarrow> Sdp" where
  "AddArr offs arr msb s =
     (if length arr = 0 then s
      else (let offs = field_start offs (length arr) msb in
            if k_req s \<le> unat offs then s
            else s\<lparr>k_packet :=
                     fold (\<lambda>src packet. let dst = unat (add_dst offs msb src) in
                             if dst < kPktSize then packet[dst := arr ! src] else packet)
                          [0..<length arr] (k_packet s)\<rparr>))"

definition GetArr :: "byte \<Rightarrow> byte list \<Rightarrow> bool \<Rightarrow> Sdp \<Rightarrow> byte list" where
  "GetArr offs arr msb s =
     (if length arr = 0 then arr
      else (let kDst = field_start offs (length arr) msb in
            if k_req s \<le> unat kDst then arr
            else fold (\<lambda>src arr. let src_off = unat (add_dst kDst msb src) in
                         if src_off < kPktSize then arr[src := k_packet s ! src_off] else arr)
                      [0..<length arr] arr))"

definition AddVal :: "byte \<Rightarrow> u32 \<Rightarrow> Sdp \<Rightarrow> Sdp" where
  "AddVal offs val s = AddArr offs (le32 val) False s"

definition AddMsbVal :: "byte \<Rightarrow> u32 \<Rightarrow> Sdp \<Rightarrow> Sdp" where
  "AddMsbVal offs val s = AddArr offs (le32 val) True s"

definition AddVal_u8 :: "byte \<Rightarrow> byte \<Rightarrow> Sdp \<Rightarrow> Sdp" where
  "AddVal_u8 offs val s = AddArr offs [val] False s"

definition GetVal :: "byte \<Rightarrow> u32 \<Rightarrow> Sdp \<Rightarrow> u32" where
  "GetVal offs val s = of_le32 (GetArr offs (le32 val) False s)"

definition GetMsbVal :: "byte \<Rightarrow> u32 \<Rightarrow> Sdp \<Rightarrow> u32" where
  "GetMsbVal offs val s = of_le32 (GetArr offs (le32 val) True s)"

definition GetVal_u8 :: "byte \<Rightarrow> byte \<Rightarrow> Sdp \<Rightarrow> byte" where
  "GetVal_u8 offs val s = GetArr offs [val] False s ! 0"

section \<open>The packet classes\<close>

datatype DataSize = kByte | kHalfWord | kWord

fun DataSize_id :: "DataSize \<Rightarrow> byte" where
  "DataSize_id kByte = 0x08"
| "DataSize_id kHalfWord = 0x10"
| "DataSize_id kWord = 0x20"

fun GetSizeFor :: "DataSize \<Rightarrow> nat" where
  "GetSizeFor kByte = 1"
| "GetSizeFor kHalfWord = 2"
| "GetSizeFor kWord = 4"

text \<open>
  What \<open>PktWriteF\<close> takes from the firmware: whether a file is loaded, its bytes, \<open>self_ptr\<close>,
  and whether it has boot data.
\<close>

record Firm =
  fm_loaded :: bool
  fm_data :: "byte list"
  fm_self_ptr :: u32
  fm_boot :: bool

datatype SdpKind =
  PktStatus
| PktComplete
| PktWriteMem (wm_addr: u32) (wm_data: u32)
| PktReadMem (rm_addr: u32) (rm_size: DataSize) (rm_value: u32)
| PktWriteF (wf_firm: "Firm option")

definition kApplication :: byte where
  "kApplication = 0xAA"

fun sdp_cmd :: "SdpKind \<Rightarrow> byte" where
  "sdp_cmd PktStatus = 0x05"
| "sdp_cmd PktComplete = 0x05"
| "sdp_cmd (PktWriteMem _ _) = 0x02"
| "sdp_cmd (PktReadMem _ _ _) = 0x01"
| "sdp_cmd (PktWriteF _) = 0x04"

fun sdp_resp :: "SdpKind \<Rightarrow> nat" where
  "sdp_resp PktStatus = 4"
| "sdp_resp PktComplete = 4"
| "sdp_resp (PktWriteMem _ _) = 8"
| "sdp_resp (PktReadMem _ sz _) = 4 + GetSizeFor sz"
| "sdp_resp (PktWriteF _) = 4"

fun sdp_req :: "SdpKind \<Rightarrow> nat" where
  "sdp_req PktStatus = 11"
| "sdp_req PktComplete = 11"
| "sdp_req (PktWriteMem _ _) = 16"
| "sdp_req (PktReadMem _ _ _) = 16"
| "sdp_req (PktWriteF _) = 16"

definition new_Pkt :: "byte list \<Rightarrow> bool \<Rightarrow> SdpKind \<Rightarrow> Sdp" where
  "new_Pkt pkt open_port k =
     new_SdpPacket pkt open_port (sdp_cmd k) (sdp_resp k) (sdp_req k)"

text \<open>The virtual \<open>Write()\<close>.\<close>

fun sdp_Write :: "SdpKind \<Rightarrow> Sdp \<Rightarrow> bool \<times> Sdp" where
  "sdp_Write PktStatus s = (True, s)"
| "sdp_Write PktComplete s = (True, s)"
| "sdp_Write (PktWriteMem addr data) s =
     (True, AddVal 11 data (AddVal_u8 6 (DataSize_id kWord) (AddVal 2 addr s)))"
| "sdp_Write (PktReadMem addr sz _) s =
     (True, AddMsbVal 7 1 (AddVal_u8 6 (DataSize_id sz) (AddVal 2 addr s)))"
| "sdp_Write (PktWriteF firm) s =
     (case firm of
        None \<Rightarrow> (False, s)
      | Some f \<Rightarrow>
          (if \<not> fm_boot f then (False, s)
           else (True, AddVal_u8 15 kApplication
                         (AddMsbVal 7 (word_of_nat (length (fm_data f)))
                           (AddMsbVal 2 (fm_self_ptr f) s)))))"

text \<open>
  The virtual \<open>Read()\<close>: its result, and the object with the value it stores.  The fields it
  reads into hold \<open>junk\<close> before, which never shows as all their bytes are read.
\<close>

fun sdp_Read :: "u32 \<Rightarrow> Sdp \<Rightarrow> SdpKind \<Rightarrow> Transfer \<times> SdpKind" where
  "sdp_Read junk s PktStatus = (if GetVal 0 junk s = 0xF0F0F0F0 then kStop else kError, PktStatus)"
| "sdp_Read junk s PktComplete =
     (if GetVal 0 junk s = 0x88888888 then kStop else kError, PktComplete)"
| "sdp_Read junk s (PktWriteMem addr data) =
     (if GetVal 0 junk s = kOtherwise \<and> GetVal 4 junk s = 0x128A8A12 then kStop else kError,
      PktWriteMem addr data)"
| "sdp_Read junk s (PktReadMem addr sz _) =
     (if GetVal 0 junk s = kOtherwise then kStop else kError,
      PktReadMem addr sz (GetMsbVal 4 junk s))"
| "sdp_Read junk s (PktWriteF firm) =
     (if GetVal 0 junk s = kOtherwise then kContinue else kError, PktWriteF firm)"

section \<open>Fields stay where they were put\<close>

lemma fold_add_lsb:
  assumes "offs + length arr \<le> kPktSize" and "length pkt = kPktSize" and "k \<le> length arr"
  shows "fold (\<lambda>src packet. let dst = unat (add_dst (word_of_nat offs) False src) in
            if dst < kPktSize then packet[dst := arr ! src] else packet) [0..<k] pkt
         = overwrite pkt offs (take k arr)"
  using assms(3)
proof (induction k)
  case (Suc k)
  have "unat (add_dst (word_of_nat offs :: byte) False k) = offs + k"
    using Suc.prems assms(1)
    by (simp add: add_dst_def kPktSize_def unat_of_nat take_bit_eq_mod flip: of_nat_add)
  moreover have "(overwrite pkt offs (take k arr))[offs + k := arr ! k]
      = overwrite pkt offs (take (Suc k) arr)"
  proof (rule nth_equalityI)
    fix i assume "i < length ((overwrite pkt offs (take k arr))[offs + k := arr ! k])"
    with Suc.prems assms(1,2) show "(overwrite pkt offs (take k arr))[offs + k := arr ! k] ! i
        = overwrite pkt offs (take (Suc k) arr) ! i"
      by (auto simp: nth_overwrite nth_list_update)
  qed (use Suc.prems assms in simp)
  ultimately show ?case using Suc assms(1) by (simp add: Let_def)
qed simp

lemma fold_add_msb:
  assumes "offs + length arr \<le> kPktSize" and "length pkt = kPktSize" and "k \<le> length arr"
    and "arr \<noteq> []"
  shows "fold (\<lambda>src packet. let dst = unat (add_dst (word_of_nat (offs + length arr - 1)) True src) in
            if dst < kPktSize then packet[dst := arr ! src] else packet) [0..<k] pkt
         = overwrite pkt (offs + length arr - k) (rev (take k arr))"
  using assms(3)
proof (induction k)
  case (Suc k)
  have "unat (add_dst (word_of_nat (offs + length arr - 1) :: byte) True k) = offs + length arr - 1 - k"
  proof -
    have "word_of_nat (offs + length arr - 1) - word_of_nat k
        = (word_of_nat (offs + length arr - 1 - k) :: byte)"
      using Suc.prems by (simp add: of_nat_diff)
    then show ?thesis
      using Suc.prems assms(1)
      by (simp add: add_dst_def kPktSize_def unat_of_nat take_bit_eq_mod del: of_nat_diff)
  qed
  moreover have "(overwrite pkt (offs + length arr - k) (rev (take k arr)))
        [offs + length arr - 1 - k := arr ! k]
      = overwrite pkt (offs + length arr - Suc k) (rev (take (Suc k) arr))"
  proof (rule nth_equalityI)
    fix i assume "i < length ((overwrite pkt (offs + length arr - k) (rev (take k arr)))
        [offs + length arr - 1 - k := arr ! k])"
    with Suc.prems assms(1,2) show "(overwrite pkt (offs + length arr - k) (rev (take k arr)))
        [offs + length arr - 1 - k := arr ! k] ! i
        = overwrite pkt (offs + length arr - Suc k) (rev (take (Suc k) arr)) ! i"
      by (auto simp: nth_overwrite nth_list_update rev_nth)
  qed (use Suc.prems assms in simp)
  moreover have "offs + length arr - Suc k < kPktSize"
    using Suc.prems assms(1) by linarith
  ultimately show ?case using Suc assms(1) by (simp add: Let_def)
qed simp

lemma field_start_of_nat:
  "0 < n \<Longrightarrow> field_start (word_of_nat offs) n msb = word_of_nat (offs + (if msb then n - 1 else 0))"
  by (simp add: field_start_def flip: of_nat_add)

text \<open>What \<open>AddArr\<close> stores, for a field that lies inside the packet and the request.\<close>

lemma AddArr_spec:
  assumes "length (k_packet s) = kPktSize" and "arr \<noteq> []" and "offs + length arr \<le> kPktSize"
    and "offs + length arr \<le> k_req s"
  shows "AddArr (word_of_nat offs) arr msb s
    = s\<lparr>k_packet := overwrite (k_packet s) offs (if msb then rev arr else arr)\<rparr>"
proof -
  have n: "0 < length arr" using assms(2) by simp
  have "offs + (if msb then length arr - 1 else 0) < 256"
    using assms(3) unfolding kPktSize_def by (cases msb) auto
  then have fs: "unat (field_start (word_of_nat offs) (length arr) msb)
      = offs + (if msb then length arr - 1 else 0)"
    unfolding field_start_of_nat [OF n] by (simp only: unat_of_nat take_bit_eq_mod) simp
  have lim: "\<not> k_req s \<le> unat (field_start (word_of_nat offs) (length arr) msb)"
  proof -
    have "(if msb then length arr - 1 else 0) < length arr" using n by (cases msb) auto
    then show ?thesis unfolding fs using assms(4) by linarith
  qed
  show ?thesis
  proof (cases msb)
    case True
    have start: "offs + (length arr - 1) = offs + length arr - 1" using n by linarith
    from True show ?thesis
      using fold_add_msb [OF assms(3,1) order_refl assms(2)] lim n
      by (simp only: AddArr_def Let_def field_start_of_nat [OF n] start if_True if_False refl
          length_greater_0_conv) simp
  next
    case False
    then show ?thesis
      using fold_add_lsb [OF assms(3,1) order_refl] lim n
      by (simp only: AddArr_def Let_def field_start_of_nat [OF n] if_True if_False add_0_right) simp
  qed
qed

lemma fold_list_update:
  "k \<le> length arr \<Longrightarrow> fold (\<lambda>i a. a[i := f i]) [0..<k] arr = map f [0..<k] @ drop k arr"
proof (induction k)
  case (Suc k)
  then have "drop k arr = arr ! k # drop (Suc k) arr" by (simp add: Cons_nth_drop_Suc)
  with Suc show ?case by (simp add: list_update_append)
qed simp

lemma add_dst_in_field:
  assumes "src < n" and "offs + n \<le> kPktSize"
  shows "unat (add_dst (word_of_nat (offs + (if msb then n - 1 else 0))) msb src)
    = (if msb then offs + (n - 1 - src) else offs + src)"
proof (cases msb)
  case True
  have "word_of_nat (offs + (n - 1)) - word_of_nat src
      = (word_of_nat (offs + (n - 1) - src) :: byte)"
    using assms(1) by (simp add: of_nat_diff)
  moreover have "offs + (n - 1) - src < 256" using assms(2) by (simp add: kPktSize_def)
  ultimately show ?thesis
    using True assms(1) by (simp add: add_dst_def unat_of_nat take_bit_eq_mod del: of_nat_diff)
next
  case False
  with assms show ?thesis
    by (simp add: add_dst_def kPktSize_def unat_of_nat take_bit_eq_mod flip: of_nat_add)
qed

text \<open>What \<open>GetArr\<close> reads from such a field; nothing of the old contents is left.\<close>

lemma GetArr_spec:
  assumes "length (k_packet s) = kPktSize" and "arr \<noteq> []" and "offs + length arr \<le> kPktSize"
    and "offs + length arr \<le> k_req s"
  shows "GetArr (word_of_nat offs) arr msb s =
    (let field = take (length arr) (drop offs (k_packet s)) in if msb then rev field else field)"
proof -
  have n: "0 < length arr" using assms(2) by simp
  let ?at = "\<lambda>src. if msb then offs + (length arr - 1 - src) else offs + src"
  have start: "(if msb then length arr - 1 else 0) < length arr" using n by (cases msb) auto
  then have "offs + (if msb then length arr - 1 else 0) < 256"
    using assms(3) unfolding kPktSize_def by linarith
  then have fs: "unat (field_start (word_of_nat offs) (length arr) msb)
      = offs + (if msb then length arr - 1 else 0)"
    unfolding field_start_of_nat [OF n] by (simp only: unat_of_nat take_bit_eq_mod) simp
  have lim: "\<not> k_req s \<le> unat (field_start (word_of_nat offs) (length arr) msb)"
    unfolding fs using assms(4) start by linarith
  have "fold (\<lambda>src arr'. let src_off = unat (add_dst (field_start (word_of_nat offs) (length arr) msb)
            msb src) in if src_off < kPktSize then arr'[src := k_packet s ! src_off] else arr')
          [0..<length arr] arr
      = fold (\<lambda>src arr'. arr'[src := k_packet s ! ?at src]) [0..<length arr] arr"
  proof (rule fold_cong [OF refl refl])
    fix src assume "src \<in> set [0..<length arr]"
    then have s: "src < length arr" by simp
    have "?at src < kPktSize" using s assms(3) by (cases msb) auto
    then show "(\<lambda>arr'. let src_off = unat (add_dst (field_start (word_of_nat offs) (length arr) msb)
            msb src) in if src_off < kPktSize then arr'[src := k_packet s ! src_off] else arr')
        = (\<lambda>arr'. arr'[src := k_packet s ! ?at src])"
      unfolding field_start_of_nat [OF n] add_dst_in_field [OF s assms(3)] by (simp add: Let_def)
  qed
  also have "\<dots> = map (\<lambda>src. k_packet s ! ?at src) [0..<length arr]"
    by (simp add: fold_list_update)
  also have "\<dots> = (let field = take (length arr) (drop offs (k_packet s))
      in if msb then rev field else field)"
  proof (rule nth_equalityI)
    have len: "length (take (length arr) (drop offs (k_packet s))) = length arr"
      using assms by simp
    fix i assume "i < length (map (\<lambda>src. k_packet s ! ?at src) [0..<length arr])"
    with assms len show "map (\<lambda>src. k_packet s ! ?at src) [0..<length arr] ! i
        = (let field = take (length arr) (drop offs (k_packet s)) in if msb then rev field else field) ! i"
      by (cases msb) (simp_all add: Let_def rev_nth)
  qed (use assms in \<open>simp add: Let_def\<close>)
  finally show ?thesis using lim n by (simp add: GetArr_def Let_def)
qed

text \<open>
  The interface of a 32-bit field: \<open>fits\<close> says where it may lie; what was put is what is
  read, and the bytes of the packet outside the field stay.
\<close>

locale sdp_field =
  fixes fits :: "nat \<Rightarrow> Sdp \<Rightarrow> bool"
    and put :: "nat \<Rightarrow> u32 \<Rightarrow> Sdp \<Rightarrow> Sdp"
    and get :: "nat \<Rightarrow> Sdp \<Rightarrow> u32"
  assumes put_fits: "fits o1 s \<Longrightarrow> fits o2 (put o1 v s) = fits o2 s"
    and get_put: "fits off s \<Longrightarrow> get off (put off v s) = v"
    and put_other: "fits off s \<Longrightarrow> i < off \<or> off + 4 \<le> i \<Longrightarrow>
          k_packet (put off v s) ! i = k_packet s ! i"
    and get_local: "fits off s \<Longrightarrow> fits off t \<Longrightarrow>
          (\<And>i. off \<le> i \<Longrightarrow> i < off + 4 \<Longrightarrow> k_packet s ! i = k_packet t ! i) \<Longrightarrow>
          get off s = get off t"
begin

text \<open>Two fields that do not overlap keep their values.\<close>

lemma get_put_other:
  assumes "fits a s" "fits b s" "a + 4 \<le> b \<or> b + 4 \<le> a"
  shows "get a (put b v s) = get a s"
  using assms by (intro get_local) (auto simp: put_fits intro!: put_other)

lemma get_both:
  assumes "fits a s" "fits b s" "a + 4 \<le> b \<or> b + 4 \<le> a"
  shows "get a (put b w (put a v s)) = v \<and> get b (put b w (put a v s)) = w"
  using assms by (simp add: get_put_other get_put put_fits)

end

definition sdp_fits :: "nat \<Rightarrow> Sdp \<Rightarrow> bool" where
  "sdp_fits off s \<longleftrightarrow> length (k_packet s) = kPktSize \<and> off + 4 \<le> kPktSize \<and> off + 4 \<le> k_req s"

lemma AddVal_spec:
  "sdp_fits off s \<Longrightarrow>
   AddVal (word_of_nat off) v s = s\<lparr>k_packet := overwrite (k_packet s) off (le32 v)\<rparr>"
  using AddArr_spec [of s "le32 v" off False] by (simp add: AddVal_def sdp_fits_def)

lemma AddMsbVal_spec:
  "sdp_fits off s \<Longrightarrow>
   AddMsbVal (word_of_nat off) v s = s\<lparr>k_packet := overwrite (k_packet s) off (rev (le32 v))\<rparr>"
  using AddArr_spec [of s "le32 v" off True] by (simp add: AddMsbVal_def sdp_fits_def)

lemma GetVal_spec:
  "sdp_fits off s \<Longrightarrow> GetVal (word_of_nat off) old s = of_le32 (take 4 (drop off (k_packet s)))"
  using GetArr_spec [of s "le32 old" off False] by (simp add: GetVal_def sdp_fits_def)

lemma GetMsbVal_spec:
  "sdp_fits off s \<Longrightarrow>
   GetMsbVal (word_of_nat off) old s = of_le32 (rev (take 4 (drop off (k_packet s))))"
  using GetArr_spec [of s "le32 old" off True] by (simp add: GetMsbVal_def sdp_fits_def)

lemma sdp_fits_overwrite:
  "sdp_fits o1 s \<Longrightarrow> length bs = 4 \<Longrightarrow>
   sdp_fits o2 (s\<lparr>k_packet := overwrite (k_packet s) o1 bs\<rparr>) = sdp_fits o2 s"
  by (auto simp: sdp_fits_def)

lemma field_overwrite:
  "sdp_fits off s \<Longrightarrow> length bs = 4 \<Longrightarrow>
   take 4 (drop off (overwrite (k_packet s) off bs)) = bs"
  by (simp add: overwrite_def sdp_fits_def)

lemma packet_other:
  "sdp_fits off s \<Longrightarrow> length bs = 4 \<Longrightarrow> i < off \<or> off + 4 \<le> i \<Longrightarrow> i < kPktSize \<Longrightarrow>
   overwrite (k_packet s) off bs ! i = k_packet s ! i"
  by (auto simp: sdp_fits_def nth_overwrite)

lemma field_cong:
  assumes "sdp_fits off s" "sdp_fits off t"
    and "\<And>i. off \<le> i \<Longrightarrow> i < off + 4 \<Longrightarrow> k_packet s ! i = k_packet t ! i"
  shows "take 4 (drop off (k_packet s)) = take 4 (drop off (k_packet t))"
  by (rule nth_equalityI) (use assms in \<open>auto simp: sdp_fits_def\<close>)

lemma packet_beyond:
  "sdp_fits off s \<Longrightarrow> length bs = 4 \<Longrightarrow> i < off \<or> off + 4 \<le> i \<Longrightarrow>
   overwrite (k_packet s) off bs ! i = k_packet s ! i"
  by (cases "i < kPktSize")
    (auto simp: packet_other, auto simp: sdp_fits_def overwrite_def nth_append)

interpretation lsb: sdp_field sdp_fits "\<lambda>off. AddVal (word_of_nat off)"
    "\<lambda>off. GetVal (word_of_nat off) 0"
proof unfold_locales
  fix off s t assume "sdp_fits off s" "sdp_fits off t"
    "\<And>i. off \<le> i \<Longrightarrow> i < off + 4 \<Longrightarrow> k_packet s ! i = k_packet t ! i"
  then show "GetVal (word_of_nat off) 0 s = GetVal (word_of_nat off) 0 t"
    using field_cong [of off s t] by (simp add: GetVal_spec)
qed (auto simp: AddVal_spec GetVal_spec sdp_fits_overwrite field_overwrite packet_beyond)

interpretation msb: sdp_field sdp_fits "\<lambda>off. AddMsbVal (word_of_nat off)"
    "\<lambda>off. GetMsbVal (word_of_nat off) 0"
proof unfold_locales
  fix off s t assume "sdp_fits off s" "sdp_fits off t"
    "\<And>i. off \<le> i \<Longrightarrow> i < off + 4 \<Longrightarrow> k_packet s ! i = k_packet t ! i"
  then show "GetMsbVal (word_of_nat off) 0 s = GetMsbVal (word_of_nat off) 0 t"
    using field_cong [of off s t] by (simp add: GetMsbVal_spec)
qed (auto simp: AddMsbVal_spec GetMsbVal_spec sdp_fits_overwrite field_overwrite packet_beyond)

section \<open>The bytes of each command\<close>

text \<open>The commands as the device gets them; data and addresses are what the packet was given.\<close>

fun sdp_wire :: "SdpKind \<Rightarrow> byte list" where
  "sdp_wire PktStatus = [5, 5] @ replicate 9 0"
| "sdp_wire PktComplete = [5, 5] @ replicate 9 0"
| "sdp_wire (PktWriteMem addr data) =
     [2, 2] @ le32 addr @ [0x20] @ replicate 4 0 @ le32 data @ [0]"
| "sdp_wire (PktReadMem addr sz _) =
     [1, 1] @ le32 addr @ [DataSize_id sz] @ [0, 0, 0, 1] @ replicate 5 0"
| "sdp_wire (PktWriteF firm) =
     [4, 4] @ rev (le32 (fm_self_ptr (the firm))) @ [0] @
     rev (le32 (word_of_nat (length (fm_data (the firm))))) @ replicate 4 0 @ [0xAA]"

definition sdp_made :: "SdpKind \<Rightarrow> Sdp \<Rightarrow> bool" where
  "sdp_made k s \<longleftrightarrow> k_cmd_id s = push_bit 8 (ucast (sdp_cmd k)) OR ucast (sdp_cmd k) \<and>
     k_resp s = sdp_resp k \<and> k_req s = sdp_req k"

lemma sdp_resp_le: "sdp_resp k \<le> 8" "4 \<le> sdp_resp k"
  by (cases k; cases "rm_size k"; simp; cases "rm_size k"; simp)+

lemma sdp_made_new: "sdp_made k (new_Pkt pkt open_port k)"
  using sdp_resp_le [of k] by (simp add: sdp_made_def new_Pkt_def new_SdpPacket_def kPktSize_def)

lemma cmd_bytes: "le16 (push_bit 8 (ucast c) OR ucast c) = [c, c :: byte]"
proof -
  have "push_bit 8 (ucast c) OR ucast c = mk16 c c" by (simp add: mk16_def or.commute)
  then show ?thesis by simp
qed

text \<open>The command a packet is turned into before it is sent.\<close>

definition sdp_ready :: "SdpKind \<Rightarrow> Sdp \<Rightarrow> bool \<times> Sdp" where
  "sdp_ready k s =
     (let (ok, s) = sdp_Write k (s\<lparr>k_packet := replicate kPktSize 0\<rparr>)
      in (ok, if ok then AddArr 0 (le16 (k_cmd_id s)) False s else s))"

lemma AddArr_0:
  "length (k_packet s) = kPktSize \<Longrightarrow> arr \<noteq> [] \<Longrightarrow> length arr \<le> kPktSize \<Longrightarrow> length arr \<le> k_req s \<Longrightarrow>
   AddArr 0 arr False s = s\<lparr>k_packet := overwrite (k_packet s) 0 arr\<rparr>"
  using AddArr_spec [of s arr 0 False] by simp

lemma AddVal_u8_spec:
  "length (k_packet s) = kPktSize \<Longrightarrow> off < kPktSize \<Longrightarrow> off < k_req s \<Longrightarrow>
   AddVal_u8 (word_of_nat off) v s = s\<lparr>k_packet := overwrite (k_packet s) off [v]\<rparr>"
  using AddArr_spec [of s "[v]" off False] by (simp add: AddVal_u8_def)

lemmas put_at =
  AddVal_spec [of 2, simplified] AddVal_spec [of 11, simplified] AddMsbVal_spec [of 7, simplified]
  AddMsbVal_spec [of 2, simplified] AddVal_u8_spec [where off = 6, simplified]
  AddVal_u8_spec [where off = 15, simplified]

lemma sdp_ready_frame:
  assumes "sdp_made k s" and "sdp_ready k s = (ok, t)"
  shows "\<exists>p. t = s\<lparr>k_packet := p\<rparr> \<and> length p = kPktSize"
  using assms
  by (cases k)
    (auto simp: sdp_ready_def sdp_made_def put_at AddArr_0 sdp_fits_def kPktSize_def
      split: option.splits if_splits)

lemma sixteen: "replicate kPktSize (0::byte) = [0,0,0,0,0,0,0,0,0,0,0,0,0,0,0,0]"
  by (simp add: kPktSize_def numeral_eq_Suc)

lemma zeros: "replicate 9 (0::byte) = [0,0,0,0,0,0,0,0,0]" "replicate 5 (0::byte) = [0,0,0,0,0]"
  "replicate 4 (0::byte) = [0,0,0,0]"
  by (simp_all add: numeral_eq_Suc)

lemma sdp_made_parts:
  assumes "sdp_made k s"
  shows "le16 (k_cmd_id s) = [sdp_cmd k, sdp_cmd k]" "k_req s = sdp_req k" "k_resp s = sdp_resp k"
  using assms by (simp_all add: sdp_made_def cmd_bytes)

lemma sdp_ready_wire:
  assumes "sdp_made k s" and "sdp_ready k s = (True, t)"
  shows "take (k_req t) (k_packet t) = sdp_wire k"
proof -
  note facts = sdp_ready_def put_at AddArr_0 sdp_fits_def sixteen overwrite_def zeros
    kApplication_def le32_def
  have "kPktSize = 16" by (simp add: kPktSize_def)
  with assms(2) sdp_made_parts [OF assms(1)] show ?thesis
    by (cases k) (auto simp: facts split: option.splits if_splits)
qed

lemma sdp_ready_ok:
  "fst (sdp_ready k s) \<longleftrightarrow> (\<forall>firm. k = PktWriteF firm \<longrightarrow> (\<exists>f. firm = Some f \<and> fm_boot f))"
  by (cases k) (auto simp: sdp_ready_def Let_def split: option.splits)

end
