(* ===== verification/Sdp_Exchange.thy ===== *)
theory Sdp_Exchange
  imports Sdp_Packet
begin

text \<open>
  Sending a packet of the serial download protocol (regiloader/sdp.cpp): the handlers that
  the I/O service calls, the wait for an answer, the four tries of \<open>Send\<close> and the repetition
  of \<open>Send\<close> itself.

  As in \<open>Tftp_Session\<close>, an operation under way is an entry of \<open>k_pend\<close> with a flag that says
  whether it was cancelled; the events say which one ends and how.  A timer that was not
  cancelled ends when its time has come, so its handler finds it expired; one that was set
  again may have been on its way already.  \<open>k_wire\<close> records what the port has sent.
\<close>

section \<open>Handlers\<close>

definition sdp_cancel_timer :: "Sdp \<Rightarrow> Sdp" where
  "sdp_cancel_timer s =
     s\<lparr>k_pend := map (\<lambda>(op, c). (op, case op of STimer \<Rightarrow> True | _ \<Rightarrow> c)) (k_pend s)\<rparr>"

definition sdp_cancel_port :: "Sdp \<Rightarrow> Sdp" where
  "sdp_cancel_port s =
     s\<lparr>k_pend := map (\<lambda>(op, c). (op, case op of STimer \<Rightarrow> c | _ \<Rightarrow> True)) (k_pend s)\<rparr>"

text \<open>\<open>expires_from_now\<close> cancels the wait that may be under way.\<close>

definition sdp_CreateTimer :: "Sdp \<Rightarrow> Sdp" where
  "sdp_CreateTimer s =
     (let s = sdp_cancel_timer s in s\<lparr>k_pend := k_pend s @ [(STimer, False)]\<rparr>)"

definition sdp_HandlerRead :: "bool \<Rightarrow> nat \<Rightarrow> Sdp \<Rightarrow> Sdp" where
  "sdp_HandlerRead err n s =
     (let s = s\<lparr>k_was_read := (if err then False else n = k_resp s)\<rparr>
      in if k_was_read s then sdp_cancel_timer s else s)"

definition sdp_ReadArray :: "nat \<Rightarrow> Sdp \<Rightarrow> bool \<times> Sdp" where
  "sdp_ReadArray sz s =
     (if sz = 0 then (False, s)
      else (let sz = (if sz > kPktSize then kPktSize else sz)
            in (True, sdp_CreateTimer
                        (s\<lparr>k_rcv := overwrite (k_rcv s) 0 (replicate sz 0),
                           k_pend := k_pend s @ [(SRead sz, False)]\<rparr>))))"

text \<open>The number of bytes written is not looked at.\<close>

definition sdp_HandlerWrite :: "bool \<Rightarrow> nat \<Rightarrow> Sdp \<Rightarrow> Sdp" where
  "sdp_HandlerWrite err n s =
     (if \<not> k_session s \<or> err then (sdp_cancel_timer s)\<lparr>k_timeout := True\<rparr>
      else (let (ok, s) = sdp_ReadArray (k_resp s) s
            in if \<not> ok then (sdp_cancel_timer s)\<lparr>k_timeout := True\<rparr> else s))"

definition sdp_HandlerTimeout :: "bool \<Rightarrow> bool \<Rightarrow> Sdp \<Rightarrow> Sdp" where
  "sdp_HandlerTimeout err expired s =
     (if \<not> err \<and> expired
      then (let s = s\<lparr>k_timeout := True\<rparr> in if k_session s then sdp_cancel_port s else s)
      else s)"

section \<open>The I/O service\<close>

text \<open>
  \<open>SDone n d\<close>: \<open>n\<close> bytes of a write went out, or the read delivered \<open>d\<close>; a read ends well only
  with as many bytes as it asked for.  \<open>SdpWrote\<close> ends the blocking write of the image, which
  throws where it fails.
\<close>

datatype SdpOut = SDone nat "byte list" | SFailed "byte list" | SFired bool

datatype SdpEv = SdpEv nat SdpOut | SdpWrote bool

fun sdp_op_exec :: "SdpOp \<Rightarrow> bool \<Rightarrow> SdpOut \<Rightarrow> Sdp \<Rightarrow> stop + Sdp" where
  "sdp_op_exec (SWrite w) c (SDone n _) s =
     (if n \<le> length w
      then Inr (sdp_HandlerWrite False n (s\<lparr>k_wire := k_wire s @ [take n w]\<rparr>))
      else Inl NotPending)"
| "sdp_op_exec (SWrite w) c (SFailed _) s = Inr (sdp_HandlerWrite True 0 s)"
| "sdp_op_exec (SRead sz) c (SDone n d) s =
     (if n = sz \<and> length d = sz
      then Inr (sdp_HandlerRead False n (s\<lparr>k_rcv := overwrite (k_rcv s) 0 d\<rparr>))
      else Inl NotPending)"
| "sdp_op_exec (SRead sz) c (SFailed d) s =
     (if length d < sz
      then Inr (sdp_HandlerRead True (length d) (s\<lparr>k_rcv := overwrite (k_rcv s) 0 d\<rparr>))
      else Inl NotPending)"
| "sdp_op_exec STimer c (SFired expired) s =
     (if c \<or> expired then Inr (sdp_HandlerTimeout False expired s) else Inl NotPending)"
| "sdp_op_exec STimer c (SFailed _) s =
     (if c then Inr (sdp_HandlerTimeout True False s) else Inl NotPending)"
| "sdp_op_exec _ _ _ _ = Inl NotPending"

definition sdp_drop_pend :: "nat \<Rightarrow> Sdp \<Rightarrow> Sdp" where
  "sdp_drop_pend i s = s\<lparr>k_pend := take i (k_pend s) @ drop (Suc i) (k_pend s)\<rparr>"

definition sdp_io_exec :: "nat \<Rightarrow> SdpOut \<Rightarrow> Sdp \<Rightarrow> stop + Sdp" where
  "sdp_io_exec i out s =
     (if i < length (k_pend s)
      then (let (op, c) = k_pend s ! i in sdp_op_exec op c out (sdp_drop_pend i s))
      else Inl NotPending)"

fun sdp_io_run :: "SdpEv list \<Rightarrow> Sdp \<Rightarrow> stop + (Sdp \<times> SdpEv list)" where
  "sdp_io_run [] s = (if k_pend s = [] then Inr (s, []) else Inl Starved)"
| "sdp_io_run (SdpWrote b # es) s =
     (if k_pend s = [] then Inr (s, SdpWrote b # es) else Inl NotPending)"
| "sdp_io_run (SdpEv i out # es) s =
     (if k_pend s = [] then Inr (s, SdpEv i out # es)
      else (case sdp_io_exec i out s of Inl x \<Rightarrow> Inl x | Inr s' \<Rightarrow> sdp_io_run es s'))"

section \<open>Send\<close>

text \<open>The loop of \<open>TransferData\<close>, which waits for a flag that nothing may be left to set.\<close>

partial_function (option) transfer_loop :: "SdpEv list \<Rightarrow> Sdp \<Rightarrow> (Sdp \<times> SdpEv list) attempt" where
  "transfer_loop es s =
     (case sdp_io_run es s of
        Inl x \<Rightarrow> Some (Inl x)
      | Inr (s', es') \<Rightarrow>
          (if \<not> k_was_read s' \<and> \<not> k_timeout s' then transfer_loop es' s'
           else Some (Inr (k_was_read s' \<and> \<not> k_timeout s', s', es'))))"

definition TransferData :: "SdpEv list \<Rightarrow> Sdp \<Rightarrow> (Sdp \<times> SdpEv list) attempt" where
  "TransferData es s = transfer_loop es (s\<lparr>k_was_read := False, k_timeout := False\<rparr>)"

definition kMaxAmountOfTries :: nat where
  "kMaxAmountOfTries = 4"

fun send_try :: "Sdp \<times> SdpEv list \<Rightarrow> (Sdp \<times> SdpEv list) attempt" where
  "send_try (s, es) =
     (let s = sdp_CreateTimer
                (s\<lparr>k_pend := k_pend s @ [(SWrite (take (k_req s) (k_packet s)), False)]\<rparr>)
      in case TransferData es s of
           Some (Inr (True, s, es)) \<Rightarrow> Some (Inr (True, s\<lparr>k_packet := k_rcv s\<rparr>, es))
         | r \<Rightarrow> r)"

fun send_loop :: "nat \<Rightarrow> Sdp \<times> SdpEv list \<Rightarrow> (Sdp \<times> SdpEv list) attempt" where
  "send_loop 0 p = Some (Inr (False, p))"
| "send_loop (Suc n) p = retry_step send_try (send_loop n) p"

text \<open>The virtual \<open>Write(port)\<close>: the firmware goes out in one blocking write.\<close>

fun sdp_Write_port :: "SdpKind \<Rightarrow> Sdp \<Rightarrow> SdpEv list \<Rightarrow> (SdpKind \<times> Sdp \<times> SdpEv list) attempt" where
  "sdp_Write_port (PktWriteF firm) s es =
     (case firm of
        None \<Rightarrow> Some (Inr (False, PktWriteF firm, s, es))
      | Some f \<Rightarrow>
          (if \<not> fm_loaded f then Some (Inr (False, PktWriteF firm, s, es))
           else (case es of
                   SdpWrote True # es' \<Rightarrow>
                     Some (Inr (True, PktWriteF firm, s\<lparr>k_wire := k_wire s @ [fm_data f]\<rparr>, es'))
                 | SdpWrote False # es' \<Rightarrow> Some (Inl Thrown)
                 | _ \<Rightarrow> Some (Inl Starved))))"
| "sdp_Write_port k s es = Some (Inr (True, k, s, es))"

text \<open>
  \<open>Send(port)\<close>.  \<open>rcv\<close> are the bytes the local array of 16 bytes has before anything is
  received, \<open>junk\<close> those of the fields \<open>Read\<close> reads into.
\<close>

fun sdp_Send ::
  "byte list \<Rightarrow> u32 \<Rightarrow> SdpKind \<times> Sdp \<times> SdpEv list \<Rightarrow> (SdpKind \<times> Sdp \<times> SdpEv list) attempt" where
  "sdp_Send rcv junk (k, s, es) =
     (if \<not> k_open s then Some (Inr (False, k, s, es))
      else (let (ok, s) = sdp_ready k s in
            if \<not> ok then Some (Inr (False, k, s, es))
            else (case send_loop kMaxAmountOfTries (s\<lparr>k_session := True, k_rcv := rcv\<rparr>, es) of
                    None \<Rightarrow> None
                  | Some (Inl x) \<Rightarrow> Some (Inl x)
                  | Some (Inr (got, s, es)) \<Rightarrow>
                      (let s = s\<lparr>k_session := False\<rparr> in
                       if \<not> got then Some (Inr (False, k, s, es))
                       else (let (act, k) = sdp_Read junk s k in
                             if act = kContinue then sdp_Write_port k s es
                             else Some (Inr (act = kStop, k, s, es)))))))"

text \<open>\<open>Send(port, tries, msg)\<close>.\<close>

fun Send_tries ::
  "byte list \<Rightarrow> u32 \<Rightarrow> nat \<Rightarrow> SdpKind \<times> Sdp \<times> SdpEv list \<Rightarrow>
   (SdpKind \<times> Sdp \<times> SdpEv list) attempt" where
  "Send_tries rcv junk 0 p = Some (Inr (False, p))"
| "Send_tries rcv junk (Suc tries) p =
     retry_step (sdp_Send rcv junk) (Send_tries rcv junk tries) p"

interpretation tries: retry send_try send_loop
  by unfold_locales simp_all

interpretation sends: retry "sdp_Send rcv junk" "Send_tries rcv junk" for rcv junk
  by unfold_locales simp_all

section \<open>Every wait ends\<close>

definition port_ops :: "Sdp \<Rightarrow> (SdpOp \<times> bool) list" where
  "port_ops s = filter (\<lambda>p. fst p \<noteq> STimer) (k_pend s)"

text \<open>
  While a try is under way: at most one operation of the port is pending, none once the answer
  is there, and as long as neither flag is set a timer runs that will fire.
\<close>

definition trying :: "Sdp \<Rightarrow> bool" where
  "trying s \<longleftrightarrow> length (port_ops s) \<le> 1 \<and> (k_was_read s \<longrightarrow> port_ops s = []) \<and>
     (k_was_read s \<or> k_timeout s \<or> (STimer, False) \<in> set (k_pend s)) \<and> k_session s \<and>
     length (k_rcv s) = kPktSize \<and> 0 < k_resp s \<and> k_resp s \<le> kPktSize \<and>
     (\<forall>n c. (SRead n, c) \<in> set (port_ops s) \<longrightarrow> n \<le> kPktSize)"

lemma trying_flags: "trying s \<Longrightarrow> k_pend s = [] \<Longrightarrow> k_was_read s \<or> k_timeout s"
  by (simp add: trying_def)

lemma filter_cancel:
  "filter (\<lambda>p. fst p \<noteq> STimer) (map (\<lambda>(op, c). (op, case op of STimer \<Rightarrow> True | _ \<Rightarrow> c)) xs)
     = filter (\<lambda>p. fst p \<noteq> STimer) xs"
  "filter (\<lambda>p. fst p \<noteq> STimer) (map (\<lambda>(op, c). (op, case op of STimer \<Rightarrow> c | _ \<Rightarrow> True)) xs)
     = map (\<lambda>(op, c). (op, True)) (filter (\<lambda>p. fst p \<noteq> STimer) xs)"
  by (induction xs) (auto split: SdpOp.splits)

lemma port_ops_cancel [simp]:
  "port_ops (sdp_cancel_timer s) = port_ops s"
  "port_ops (sdp_cancel_port s) = map (\<lambda>(op, c). (op, True)) (port_ops s)"
  by (simp_all add: port_ops_def sdp_cancel_timer_def sdp_cancel_port_def filter_cancel)

lemma sdp_frames [simp]:
  "k_session (sdp_cancel_timer s) = k_session s" "k_was_read (sdp_cancel_timer s) = k_was_read s"
  "k_timeout (sdp_cancel_timer s) = k_timeout s" "k_rcv (sdp_cancel_timer s) = k_rcv s"
  "k_resp (sdp_cancel_timer s) = k_resp s" "k_wire (sdp_cancel_timer s) = k_wire s"
  "k_packet (sdp_cancel_timer s) = k_packet s" "k_req (sdp_cancel_timer s) = k_req s"
  "k_session (sdp_cancel_port s) = k_session s" "k_was_read (sdp_cancel_port s) = k_was_read s"
  "k_timeout (sdp_cancel_port s) = k_timeout s" "k_rcv (sdp_cancel_port s) = k_rcv s"
  "k_resp (sdp_cancel_port s) = k_resp s" "k_wire (sdp_cancel_port s) = k_wire s"
  "k_packet (sdp_cancel_port s) = k_packet s" "k_req (sdp_cancel_port s) = k_req s"
  "k_session (sdp_CreateTimer s) = k_session s" "k_was_read (sdp_CreateTimer s) = k_was_read s"
  "k_timeout (sdp_CreateTimer s) = k_timeout s" "k_rcv (sdp_CreateTimer s) = k_rcv s"
  "k_resp (sdp_CreateTimer s) = k_resp s" "k_wire (sdp_CreateTimer s) = k_wire s"
  "k_packet (sdp_CreateTimer s) = k_packet s" "k_req (sdp_CreateTimer s) = k_req s"
  "k_session (sdp_drop_pend i s) = k_session s" "k_was_read (sdp_drop_pend i s) = k_was_read s"
  "k_timeout (sdp_drop_pend i s) = k_timeout s" "k_rcv (sdp_drop_pend i s) = k_rcv s"
  "k_resp (sdp_drop_pend i s) = k_resp s" "k_wire (sdp_drop_pend i s) = k_wire s"
  "k_packet (sdp_drop_pend i s) = k_packet s" "k_req (sdp_drop_pend i s) = k_req s"
  "k_open (sdp_cancel_timer s) = k_open s" "k_open (sdp_cancel_port s) = k_open s"
  "k_open (sdp_CreateTimer s) = k_open s" "k_open (sdp_drop_pend i s) = k_open s"
  "k_cmd_id (sdp_cancel_timer s) = k_cmd_id s" "k_cmd_id (sdp_cancel_port s) = k_cmd_id s"
  "k_cmd_id (sdp_CreateTimer s) = k_cmd_id s" "k_cmd_id (sdp_drop_pend i s) = k_cmd_id s"
  by (simp_all add: sdp_cancel_timer_def sdp_cancel_port_def sdp_CreateTimer_def sdp_drop_pend_def
      Let_def)

lemma port_ops_CreateTimer [simp]: "port_ops (sdp_CreateTimer s) = port_ops s"
proof -
  have "port_ops (sdp_CreateTimer s) = port_ops (sdp_cancel_timer s)"
    by (simp add: sdp_CreateTimer_def port_ops_def Let_def)
  then show ?thesis by simp
qed

lemma timer_CreateTimer [simp]: "(STimer, False) \<in> set (k_pend (sdp_CreateTimer s))"
  by (simp add: sdp_CreateTimer_def Let_def)

lemma timer_cancel_port [simp]:
  "(STimer, False) \<in> set (k_pend (sdp_cancel_port s)) \<longleftrightarrow> (STimer, False) \<in> set (k_pend s)"
  by (force simp: sdp_cancel_port_def split: SdpOp.splits)

lemma port_ops_upd [simp]:
  "port_ops (s\<lparr>k_was_read := a\<rparr>) = port_ops s" "port_ops (s\<lparr>k_timeout := b\<rparr>) = port_ops s"
  "port_ops (s\<lparr>k_rcv := c\<rparr>) = port_ops s" "port_ops (s\<lparr>k_wire := d\<rparr>) = port_ops s"
  "port_ops (s\<lparr>k_wire := d, k_rcv := c, k_pend := p\<rparr>) = filter (\<lambda>p. fst p \<noteq> STimer) p"
  by (simp_all add: port_ops_def)

text \<open>The entries that are left when one is taken out.\<close>

lemma sdp_drop_pend_split:
  assumes "i < length (k_pend s)"
  shows "\<exists>xs ys. k_pend s = xs @ k_pend s ! i # ys \<and> k_pend (sdp_drop_pend i s) = xs @ ys"
  using assms
  by (intro exI [of _ "take i (k_pend s)"] exI [of _ "drop (Suc i) (k_pend s)"])
    (simp add: sdp_drop_pend_def id_take_nth_drop)

text \<open>
  What holds of the state between the moment an operation ends and its handler: a port
  operation that ended was the only one.
\<close>

lemma port_ended:
  assumes "trying s" "i < length (k_pend s)" "k_pend s ! i = (op, c)" "op \<noteq> STimer"
  shows "port_ops (sdp_drop_pend i s) = []" "\<not> k_was_read s"
    and "k_timeout s \<or> (STimer, False) \<in> set (k_pend (sdp_drop_pend i s))"
proof -
  from sdp_drop_pend_split [OF assms(2)] assms(3) obtain xs ys where
    p: "k_pend s = xs @ (op, c) # ys" "k_pend (sdp_drop_pend i s) = xs @ ys" by auto
  from assms(1,4) p show "port_ops (sdp_drop_pend i s) = []" "\<not> k_was_read s"
    "k_timeout s \<or> (STimer, False) \<in> set (k_pend (sdp_drop_pend i s))"
    by (auto simp: trying_def port_ops_def)
qed

lemma timer_ended:
  assumes "trying s" "i < length (k_pend s)" "k_pend s ! i = (STimer, c)"
  shows "port_ops (sdp_drop_pend i s) = port_ops s"
    and "c \<Longrightarrow> (STimer, False) \<in> set (k_pend s) \<longleftrightarrow> (STimer, False) \<in> set (k_pend (sdp_drop_pend i s))"
proof -
  from sdp_drop_pend_split [OF assms(2)] assms(3) obtain xs ys where
    p: "k_pend s = xs @ (STimer, c) # ys" "k_pend (sdp_drop_pend i s) = xs @ ys" by auto
  show "port_ops (sdp_drop_pend i s) = port_ops s"
    by (simp add: port_ops_def p)
  show "c \<Longrightarrow> (STimer, False) \<in> set (k_pend s) \<longleftrightarrow> (STimer, False) \<in> set (k_pend (sdp_drop_pend i s))"
    by (simp add: p)
qed

lemma trying_timer:
  assumes "trying s" "i < length (k_pend s)" "k_pend s ! i = (STimer, c)" "c \<or> expired"
  shows "trying (sdp_HandlerTimeout False expired (sdp_drop_pend i s))"
    and "c \<Longrightarrow> trying (sdp_drop_pend i s)"
proof -
  note e = timer_ended [OF assms(1-3)]
  show "trying (sdp_HandlerTimeout False expired (sdp_drop_pend i s))"
    using assms(1,4) e
    by (cases expired) (auto simp: sdp_HandlerTimeout_def trying_def Let_def)
  show "c \<Longrightarrow> trying (sdp_drop_pend i s)"
    using assms(1) e by (auto simp: trying_def)
qed

text \<open>The answer \<open>d\<close> to the command has come with one of the events \<open>used\<close>.\<close>

definition answered_by :: "SdpEv list \<Rightarrow> Sdp \<Rightarrow> bool" where
  "answered_by used s \<longleftrightarrow> (\<exists>i n. SdpEv i (SDone n (take (k_resp s) (k_rcv s))) \<in> set used)"

text \<open>What an ended operation leaves of a try; the three kinds of operations.\<close>

definition keeps_trying :: "SdpEv list \<Rightarrow> Sdp \<Rightarrow> Sdp \<Rightarrow> bool" where
  "keeps_trying used s t \<longleftrightarrow>
     trying t \<and> k_packet t = k_packet s \<and> k_cmd_id t = k_cmd_id s \<and> k_req t = k_req s \<and> k_resp t = k_resp s \<and>
     (k_was_read t \<longrightarrow> k_was_read s \<and> k_rcv t = k_rcv s \<or> answered_by used t)"

lemma timer_exec_trying:
  assumes "trying s" "i < length (k_pend s)" "k_pend s ! i = (STimer, c)"
    and x: "sdp_op_exec STimer c out (sdp_drop_pend i s) = Inr t"
  shows "keeps_trying [SdpEv i out] s t"
proof -
  obtain b where b: "c \<or> b"
    "t = sdp_HandlerTimeout False b (sdp_drop_pend i s) \<or> c \<and> t = sdp_drop_pend i s"
  proof (cases out)
    case (SFired e)
    with x that [of e] show ?thesis by (simp split: if_splits)
  next
    case (SFailed d)
    with x that [of True] show ?thesis by (simp add: sdp_HandlerTimeout_def split: if_splits)
  qed (use x in simp)
  then have "trying t" using trying_timer [OF assms(1-3), of b] by blast
  moreover have "k_packet t = k_packet s \<and> k_cmd_id t = k_cmd_id s \<and> k_req t = k_req s \<and> k_resp t = k_resp s \<and>
      k_was_read t = k_was_read s \<and> k_rcv t = k_rcv s"
    using b(2) by (auto simp: sdp_HandlerTimeout_def Let_def split: if_splits)
  ultimately show ?thesis by (simp add: keeps_trying_def)
qed

lemma write_exec_trying:
  assumes "trying s" "i < length (k_pend s)" "k_pend s ! i = (SWrite w, c)"
    and x: "sdp_op_exec (SWrite w) c out (sdp_drop_pend i s) = Inr t"
  shows "keeps_trying [SdpEv i out] s t"
proof -
  note e = port_ended [OF assms(1-3), simplified]
  from assms(1) have k: "k_session s" "0 < k_resp s" "k_resp s \<le> kPktSize" "length (k_rcv s) = kPktSize"
    by (auto simp: trying_def)
  show ?thesis
  proof (cases out)
    case (SDone n d)
    with x e k e(1) [unfolded port_ops_def] show ?thesis
      by (auto simp: keeps_trying_def sdp_HandlerWrite_def sdp_ReadArray_def Let_def trying_def split: if_splits)
  qed (use x e k in \<open>auto simp: keeps_trying_def sdp_HandlerWrite_def trying_def\<close>)
qed

lemma read_exec_trying:
  assumes "trying s" "i < length (k_pend s)" "k_pend s ! i = (SRead sz, c)"
    and x: "sdp_op_exec (SRead sz) c out (sdp_drop_pend i s) = Inr t"
  shows "keeps_trying [SdpEv i out] s t"
proof -
  note e = port_ended [OF assms(1-3), simplified]
  have "(SRead sz, c) \<in> set (port_ops s)"
    using assms(3) nth_mem [OF assms(2)] by (simp add: port_ops_def)
  with assms(1) have k: "k_session s" "0 < k_resp s" "k_resp s \<le> kPktSize" "length (k_rcv s) = kPktSize" "sz \<le> kPktSize"
    by (auto simp: trying_def)
  show ?thesis
  proof (cases out)
    case (SDone n d)
    with x have t: "n = sz" "length d = sz"
      "t = sdp_HandlerRead False n ((sdp_drop_pend i s)\<lparr>k_rcv := overwrite (k_rcv s) 0 d\<rparr>)"
      by (auto split: if_splits)
    then show ?thesis
      using e k SDone
      by (auto simp: keeps_trying_def sdp_HandlerRead_def trying_def answered_by_def Let_def overwrite_def)
  next
    case (SFailed d)
    with x e k show ?thesis
      by (auto simp: keeps_trying_def sdp_HandlerRead_def trying_def Let_def split: if_splits)
  qed (use x in auto)
qed

lemma sdp_io_exec_trying:
  assumes "trying s" "sdp_io_exec i out s = Inr t"
  shows "trying t \<and> k_packet t = k_packet s \<and> k_cmd_id t = k_cmd_id s \<and> k_req t = k_req s \<and> k_resp t = k_resp s \<and>
    (k_was_read t \<longrightarrow> k_was_read s \<and> k_rcv t = k_rcv s \<or> answered_by [SdpEv i out] t)"
proof -
  obtain op c where i: "i < length (k_pend s)" "k_pend s ! i = (op, c)"
    and x: "sdp_op_exec op c out (sdp_drop_pend i s) = Inr t"
    using assms(2) by (auto simp: sdp_io_exec_def split: if_splits prod.splits)
  then have "keeps_trying [SdpEv i out] s t"
    using timer_exec_trying write_exec_trying read_exec_trying assms(1) by (cases op) blast+
  then show ?thesis by (simp add: keeps_trying_def)
qed

text \<open>One try puts the command on the wire at most once, and possibly not all of it.\<close>

definition wire_ok :: "byte list \<Rightarrow> byte list list \<Rightarrow> Sdp \<Rightarrow> bool" where
  "wire_ok cmd base s \<longleftrightarrow>
     (k_wire s = base \<and> (\<forall>w c. (SWrite w, c) \<in> set (port_ops s) \<longrightarrow> w = cmd)) \<or>
     (\<exists>n. k_wire s = base @ [take n cmd] \<and> (\<forall>w c. (SWrite w, c) \<notin> set (port_ops s)))"

lemma sdp_io_exec_wire:
  assumes "trying s" "wire_ok cmd base s" "sdp_io_exec i out s = Inr t"
  shows "wire_ok cmd base t"
proof -
  obtain op c where i: "i < length (k_pend s)" "k_pend s ! i = (op, c)"
    and x: "sdp_op_exec op c out (sdp_drop_pend i s) = Inr t"
    using assms(3) by (auto simp: sdp_io_exec_def split: if_splits prod.splits)
  show ?thesis
  proof (cases op)
    case STimer
    with i have i': "k_pend s ! i = (STimer, c)" by simp
    have "k_wire t = k_wire s \<and> (\<exists>f. port_ops t = map (\<lambda>(op, c). (op, f c)) (port_ops s))"
    proof -
      have same: "\<exists>f. port_ops s = map (\<lambda>(op, c). (op, f c)) (port_ops s)"
        by (rule exI [of _ "\<lambda>c. c"]) simp
      have "\<exists>f. map (\<lambda>(op, c). (op, True)) (port_ops s) = map (\<lambda>(op, c). (op, f c)) (port_ops s)"
        by (rule exI [of _ "\<lambda>c. True"]) simp
      with same show ?thesis
        using x STimer timer_ended(1) [OF assms(1) i(1) i']
        by (cases out) (simp_all add: sdp_HandlerTimeout_def Let_def split: if_splits, auto)
    qed
    with assms(2) show ?thesis by (fastforce simp: wire_ok_def)
  next
    case (SWrite w)
    note e = port_ended [OF assms(1) i, unfolded SWrite, simplified]
    have k: "k_session s" "0 < k_resp s" using assms(1) by (auto simp: trying_def)
    have "(SWrite w, c) \<in> set (port_ops s)"
      using i SWrite nth_mem [OF i(1)] by (simp add: port_ops_def)
    with assms(2) have w: "k_wire s = base" "w = cmd" by (auto simp: wire_ok_def)
    show ?thesis
    proof (cases out)
      case (SDone n d)
      with x SWrite e k w e(1) [unfolded port_ops_def] show ?thesis
        by (auto simp: sdp_HandlerWrite_def sdp_ReadArray_def Let_def wire_ok_def split: if_splits)
    qed (use x SWrite e k w in \<open>auto simp: sdp_HandlerWrite_def wire_ok_def\<close>)
  next
    case (SRead sz)
    note e = port_ended [OF assms(1) i, unfolded SRead, simplified]
    have "k_wire t = k_wire s \<and> port_ops t = []"
      using x SRead e by (cases out) (auto simp: sdp_HandlerRead_def Let_def split: if_splits)
    with assms(2) show ?thesis by (auto simp: wire_ok_def)
  qed
qed

lemma answered_by_more:
  "answered_by used t \<Longrightarrow> answered_by (e # used) t"
  "answered_by [e] u \<Longrightarrow> k_resp t = k_resp u \<Longrightarrow> k_rcv t = k_rcv u \<Longrightarrow> answered_by (e # used) t"
  by (auto simp: answered_by_def)

lemma sdp_io_run_trying:
  assumes "trying s" "wire_ok cmd base s" "sdp_io_run es s = Inr (t, es')"
  shows "\<exists>used. es = used @ es' \<and> trying t \<and> wire_ok cmd base t \<and> k_pend t = [] \<and>
    k_packet t = k_packet s \<and> k_cmd_id t = k_cmd_id s \<and> k_req t = k_req s \<and> k_resp t = k_resp s \<and>
    (k_was_read t \<longrightarrow> k_was_read s \<and> k_rcv t = k_rcv s \<or> answered_by used t)"
  using assms
proof (induction es s rule: sdp_io_run.induct)
  case (3 i out es s)
  show ?case
  proof (cases "k_pend s = []")
    case True
    with 3 show ?thesis by simp
  next
    case False
    with 3 obtain u where u: "sdp_io_exec i out s = Inr u" "sdp_io_run es u = Inr (t, es')"
      by (auto split: sum.splits)
    note x = sdp_io_exec_trying [OF "3.prems"(1) u(1)]
    from 3(1) [OF False u(1)] x sdp_io_exec_wire [OF "3.prems"(1,2) u(1)] u(2) obtain used where
      r: "es = used @ es'" "trying t" "wire_ok cmd base t" "k_pend t = []"
        "k_packet t = k_packet u" "k_cmd_id t = k_cmd_id u" "k_req t = k_req u" "k_resp t = k_resp u"
        "k_was_read t \<longrightarrow> k_was_read u \<and> k_rcv t = k_rcv u \<or> answered_by used t" by blast
    have "k_was_read t \<longrightarrow> k_was_read s \<and> k_rcv t = k_rcv s \<or> answered_by (SdpEv i out # used) t"
      using r(8,9) x answered_by_more by metis
    with r x show ?thesis by (intro exI [of _ "SdpEv i out # used"]) simp
  qed
qed (auto split: if_splits)

text \<open>A run that starts with a try leaves \<open>TransferData\<close> after one turn of its loop.\<close>

lemma transfer_loop_once:
  assumes "trying s" "wire_ok cmd base s"
  shows "transfer_loop es s =
    (case sdp_io_run es s of
       Inl x \<Rightarrow> Some (Inl x)
     | Inr (t, es') \<Rightarrow> Some (Inr (k_was_read t \<and> \<not> k_timeout t, t, es')))"
proof (cases "sdp_io_run es s")
  case (Inr p)
  then obtain t es' where p: "p = (t, es')" "sdp_io_run es s = Inr (t, es')" by (cases p) auto
  from sdp_io_run_trying [OF assms p(2)] have "k_was_read t \<or> k_timeout t"
    using trying_flags by blast
  with p show ?thesis by (subst transfer_loop.simps) (auto split: if_splits)
qed (subst transfer_loop.simps, simp)

definition sdp_idle :: "Sdp \<Rightarrow> bool" where
  "sdp_idle s \<longleftrightarrow> k_pend s = [] \<and> k_session s \<and> length (k_rcv s) = kPktSize \<and>
     0 < k_resp s \<and> k_resp s \<le> kPktSize"

text \<open>What a try does: at most one command, and success only with an answer of the right length.\<close>

lemma send_try_result:
  assumes "sdp_idle s" "cmd = take (k_req s) (k_packet s)"
  shows "send_try (s, es) \<noteq> None"
    and "send_try (s, es) = Some (Inr (ok, t, es')) \<Longrightarrow>
      \<exists>used ws. es = used @ es' \<and> sdp_idle t \<and> k_cmd_id t = k_cmd_id s \<and> k_req t = k_req s \<and> k_resp t = k_resp s \<and>
        k_wire t = k_wire s @ ws \<and> length ws \<le> 1 \<and> (\<forall>w \<in> set ws. \<exists>n. w = take n cmd) \<and>
        (if ok then k_packet t = k_rcv t \<and> answered_by used t else k_packet t = k_packet s)"
proof -
  define u where "u = (sdp_CreateTimer (s\<lparr>k_pend := k_pend s @
      [(SWrite (take (k_req s) (k_packet s)), False)]\<rparr>))\<lparr>k_was_read := False, k_timeout := False\<rparr>"
  have ops: "port_ops u = [(SWrite cmd, False)]"
    using assms by (simp add: u_def sdp_idle_def) (simp add: port_ops_def)
  have u: "trying u" "wire_ok cmd (k_wire s) u" "\<not> k_was_read u"
      "k_packet u = k_packet s" "k_cmd_id u = k_cmd_id s" "k_req u = k_req s" "k_resp u = k_resp s"
    using assms ops by (auto simp: trying_def wire_ok_def) (auto simp: u_def sdp_idle_def)
  have loop: "send_try (s, es) = (case sdp_io_run es u of Inl x \<Rightarrow> Some (Inl x)
      | Inr (t, es') \<Rightarrow> Some (Inr (k_was_read t \<and> \<not> k_timeout t,
          (if k_was_read t \<and> \<not> k_timeout t then t\<lparr>k_packet := k_rcv t\<rparr> else t), es')))"
    using transfer_loop_once [OF u(1,2), of es]
    by (auto simp: u_def TransferData_def Let_def split: sum.splits prod.splits bool.splits)
  then show "send_try (s, es) \<noteq> None" by (simp split: sum.split)
  assume "send_try (s, es) = Some (Inr (ok, t, es'))"
  then obtain t0 where run: "sdp_io_run es u = Inr (t0, es')"
    and ok: "ok = (k_was_read t0 \<and> \<not> k_timeout t0)"
    and t: "t = (if ok then t0\<lparr>k_packet := k_rcv t0\<rparr> else t0)"
    by (simp only: loop) (auto split: sum.splits prod.splits)
  from sdp_io_run_trying [OF u(1,2) run] u obtain used where
    r: "es = used @ es'" "trying t0" "wire_ok cmd (k_wire s) t0" "k_pend t0 = []"
      "k_packet t0 = k_packet s" "k_cmd_id t0 = k_cmd_id s" "k_req t0 = k_req s" "k_resp t0 = k_resp s"
      "k_was_read t0 \<longrightarrow> answered_by used t0" by auto
  then show "\<exists>used ws. es = used @ es' \<and> sdp_idle t \<and> k_cmd_id t = k_cmd_id s \<and> k_req t = k_req s \<and> k_resp t = k_resp s \<and>
        k_wire t = k_wire s @ ws \<and> length ws \<le> 1 \<and> (\<forall>w \<in> set ws. \<exists>n. w = take n cmd) \<and>
        (if ok then k_packet t = k_rcv t \<and> answered_by used t else k_packet t = k_packet s)"
    unfolding wire_ok_def
    by (intro exI [of _ used] exI [of _ "drop (length (k_wire s)) (k_wire t)"])
      (auto simp: t ok sdp_idle_def trying_def answered_by_def)
qed

section \<open>The tries of one Send\<close>

declare send_try.simps [simp del] sdp_Send.simps [simp del]

text \<open>The states of the tries of one command: the packet is the command, what was written are
  beginnings of it.\<close>

definition tries_from :: "Sdp \<times> SdpEv list \<Rightarrow> Sdp \<times> SdpEv list \<Rightarrow> bool" where
  "tries_from p q \<longleftrightarrow>
     (case (p, q) of ((s, es), (t, es')) \<Rightarrow>
        \<exists>used ws. es = used @ es' \<and> sdp_idle t \<and> k_cmd_id t = k_cmd_id s \<and> k_req t = k_req s \<and> k_resp t = k_resp s \<and>
          k_packet t = k_packet s \<and> k_wire t = k_wire s @ ws \<and>
          (\<forall>w \<in> set ws. \<exists>n. w = take n (take (k_req s) (k_packet s))))"

lemma tries_from_refl: "sdp_idle s \<Longrightarrow> tries_from (s, es) (s, es)"
  by (simp add: tries_from_def)

lemma tries_from_step:
  assumes "tries_from p q" "send_try q = Some (Inr (False, r))"
  shows "tries_from p r"
proof -
  obtain s es t es' u es'' where p: "p = (s, es)" "q = (t, es')" "r = (u, es'')"
    by (cases p; cases q; cases r)
  from assms(1) obtain used ws where f: "es = used @ es'" "sdp_idle t" "k_cmd_id t = k_cmd_id s" "k_req t = k_req s"
      "k_resp t = k_resp s" "k_packet t = k_packet s" "k_wire t = k_wire s @ ws"
      "\<forall>w \<in> set ws. \<exists>n. w = take n (take (k_req s) (k_packet s))"
    by (auto simp: tries_from_def p)
  from send_try_result(2) [OF f(2) refl assms(2) [unfolded p]] obtain used' ws' where
    g: "es' = used' @ es''" "sdp_idle u" "k_cmd_id u = k_cmd_id t" "k_req u = k_req t" "k_resp u = k_resp t"
      "k_wire u = k_wire t @ ws'" "\<forall>w \<in> set ws'. \<exists>n. w = take n (take (k_req t) (k_packet t))"
      "k_packet u = k_packet t"
    by auto
  with f show ?thesis
    unfolding tries_from_def p
    by (auto intro!: exI [of _ "used @ used'"] exI [of _ "ws @ ws'"])
qed

lemma sdp_cost:
  assumes "tries_from p q" "send_try q = Some (Inr (ok, r))"
  shows "length (k_wire (fst r)) \<le> length (k_wire (fst q)) + 1"
proof -
  obtain s es t es' u es'' where p: "p = (s, es)" "q = (t, es')" "r = (u, es'')"
    by (cases p; cases q; cases r)
  from assms(1) have "sdp_idle t" by (auto simp: tries_from_def p)
  from send_try_result(2) [OF this refl assms(2) [unfolded p]] show ?thesis
    by (auto simp: p)
qed

text \<open>All tries together.\<close>

lemma send_loop_result:
  assumes "sdp_idle s"
  shows "send_loop n (s, es) \<noteq> None"
    and "send_loop n (s, es) = Some (Inr (ok, t, es')) \<Longrightarrow>
      \<exists>used ws. es = used @ es' \<and> k_cmd_id t = k_cmd_id s \<and> k_req t = k_req s \<and> k_resp t = k_resp s \<and>
        length (k_rcv t) = kPktSize \<and> k_pend t = [] \<and> k_wire t = k_wire s @ ws \<and> length ws \<le> n \<and>
        (\<forall>w \<in> set ws. \<exists>m. w = take m (take (k_req s) (k_packet s))) \<and>
        (ok \<longrightarrow> k_packet t = k_rcv t \<and> answered_by used t)"
proof -
  note start = tries_from_refl [OF assms, of es]
  show "send_loop n (s, es) \<noteq> None"
  proof (rule tries.loop_total [where P = "tries_from (s, es)"])
    fix q assume "tries_from (s, es) q"
    then show "send_try q \<noteq> None"
      using send_try_result(1) [OF _ refl] by (cases q) (auto simp: tries_from_def simp del: send_try.simps)
  qed (use start tries_from_step in auto)
  assume loop: "send_loop n (s, es) = Some (Inr (ok, t, es'))"
  have "length (k_wire t) \<le> length (k_wire s) + n * 1"
    using tries.loop_cost [where P = "tries_from (s, es)" and c = 1
        and cost = "\<lambda>q. length (k_wire (fst q))", OF tries_from_step sdp_cost loop start] by simp
  then show "\<exists>used ws. es = used @ es' \<and> k_cmd_id t = k_cmd_id s \<and> k_req t = k_req s \<and> k_resp t = k_resp s \<and>
        length (k_rcv t) = kPktSize \<and> k_pend t = [] \<and> k_wire t = k_wire s @ ws \<and> length ws \<le> n \<and>
        (\<forall>w \<in> set ws. \<exists>m. w = take m (take (k_req s) (k_packet s))) \<and>
        (ok \<longrightarrow> k_packet t = k_rcv t \<and> answered_by used t)"
  proof (cases ok)
    case False
    with loop have "tries_from (s, es) (t, es')"
      using tries.loop_False_inv [where P = "tries_from (s, es)", OF tries_from_step _ start] by auto
    with \<open>length (k_wire t) \<le> _\<close> False show ?thesis
      by (auto simp: tries_from_def sdp_idle_def)
  next
    case True
    have "\<exists>q. tries_from (s, es) q \<and> send_try q = Some (Inr (True, t, es'))"
      by (rule tries.loop_True_last [where P = "tries_from (s, es)"])
        (use loop True start in \<open>auto intro: tries_from_step\<close>)
    then obtain q where q: "tries_from (s, es) q" "send_try q = Some (Inr (True, t, es'))" by blast
    obtain u es1 where qq: "q = (u, es1)" by (cases q)
    with q(1) obtain used ws where f: "es = used @ es1" "sdp_idle u" "k_cmd_id u = k_cmd_id s" "k_req u = k_req s"
        "k_resp u = k_resp s" "k_packet u = k_packet s" "k_wire u = k_wire s @ ws"
        "\<forall>w \<in> set ws. \<exists>n. w = take n (take (k_req s) (k_packet s))"
      by (auto simp: tries_from_def)
    from send_try_result(2) [OF f(2) refl q(2) [unfolded qq]] obtain used' ws' where
      g: "es1 = used' @ es'" "sdp_idle t" "k_cmd_id t = k_cmd_id u" "k_req t = k_req u" "k_resp t = k_resp u"
        "k_wire t = k_wire u @ ws'" "\<forall>w \<in> set ws'. \<exists>n. w = take n (take (k_req u) (k_packet u))"
        "k_packet t = k_rcv t" "answered_by used' t"
      by auto
    then have "answered_by (used @ used') t" by (auto simp: answered_by_def)
    with f g \<open>length (k_wire t) \<le> _\<close> show ?thesis
      by (intro exI [of _ "used @ used'"] exI [of _ "ws @ ws'"]) (auto simp: sdp_idle_def)
  qed
qed

section \<open>What Send does\<close>

lemma sdp_ready_idle:
  assumes "sdp_made k s" "k_pend s = []" "length rcv = kPktSize" "sdp_ready k s = (True, t)"
  shows "sdp_idle (t\<lparr>k_session := True, k_rcv := rcv\<rparr>)" "take (k_req t) (k_packet t) = sdp_wire k"
    "k_resp t = sdp_resp k" "k_req t = sdp_req k" "k_wire t = k_wire s" "length (k_packet t) = kPktSize"
    "k_open t = k_open s" "k_pend t = []" "k_cmd_id t = k_cmd_id s"
proof -
  from sdp_ready_frame [OF assms(1,4)] obtain p where t: "t = s\<lparr>k_packet := p\<rparr>" "length p = kPktSize"
    by blast
  show "sdp_idle (t\<lparr>k_session := True, k_rcv := rcv\<rparr>)"
    using assms sdp_resp_le [of k] sdp_made_parts [OF assms(1)]
    by (simp add: sdp_idle_def t kPktSize_def)
  show "take (k_req t) (k_packet t) = sdp_wire k" by (rule sdp_ready_wire [OF assms(1,4)])
  show "k_resp t = sdp_resp k" "k_req t = sdp_req k" "k_wire t = k_wire s"
    "length (k_packet t) = kPktSize" "k_open t = k_open s" "k_pend t = []" "k_cmd_id t = k_cmd_id s"
    using sdp_made_parts [OF assms(1)] assms(2) by (simp_all add: t)
qed

text \<open>The answer that a packet takes for a success.\<close>

fun sdp_ack :: "SdpKind \<Rightarrow> byte list \<Rightarrow> bool" where
  "sdp_ack PktStatus d \<longleftrightarrow> d = [0xF0, 0xF0, 0xF0, 0xF0]"
| "sdp_ack PktComplete d \<longleftrightarrow> d = [0x88, 0x88, 0x88, 0x88]"
| "sdp_ack (PktWriteMem _ _) d \<longleftrightarrow> d = [0x56, 0x78, 0x78, 0x56, 0x12, 0x8A, 0x8A, 0x12]"
| "sdp_ack (PktReadMem _ sz _) d \<longleftrightarrow>
     length d = 4 + GetSizeFor sz \<and> take 4 d = [0x56, 0x78, 0x78, 0x56]"
| "sdp_ack (PktWriteF _) d \<longleftrightarrow> d = [0x56, 0x78, 0x78, 0x56]"

lemma ack_words:
  "le32 0xF0F0F0F0 = [0xF0, 0xF0, 0xF0, 0xF0]" "le32 0x88888888 = [0x88, 0x88, 0x88, 0x88]"
  "le32 kOtherwise = [0x56, 0x78, 0x78, 0x56]" "le32 0x128A8A12 = [0x12, 0x8A, 0x8A, 0x12]"
  by (simp_all add: le32_def kOtherwise_def drop_bit_eq_div)

lemma of_le32_iff:
  assumes "length bs = 4"
  shows "of_le32 bs = w \<longleftrightarrow> bs = le32 w"
proof -
  from assms obtain a b c d where "bs = [a, b, c, d]"
    by (auto simp: numeral_eq_Suc length_Suc_conv)
  then show ?thesis by (metis of_le32_cons le32_mk32 of_le32_le32)
qed

text \<open>\<open>Read\<close> accepts exactly these answers; the rest of the array does not matter.\<close>

lemma sdp_Read_ack:
  assumes "k_packet s = k_rcv s" "length (k_rcv s) = kPktSize" "k_req s = sdp_req k"
  shows "fst (sdp_Read junk s k) \<noteq> kError \<longleftrightarrow> sdp_ack k (take (sdp_resp k) (k_rcv s))"
    and "fst (sdp_Read junk s k) = kContinue \<longrightarrow> (\<exists>f. k = PktWriteF f)"
    and "\<not> (\<exists>a z v. k = PktReadMem a z v) \<longrightarrow> snd (sdp_Read junk s k) = k"
proof -
  have fits: "sdp_fits 0 s" "sdp_fits 4 s \<longleftrightarrow> 8 \<le> sdp_req k"
    using assms by (cases k; simp add: sdp_fits_def kPktSize_def)+
  have len: "4 \<le> length (k_rcv s)" "8 \<le> length (k_rcv s)" using assms(2) by (simp_all add: kPktSize_def)
  have g0: "GetVal 0 junk s = w \<longleftrightarrow> take 4 (k_rcv s) = le32 w" for w
    using GetVal_spec [OF fits(1), of junk] len assms(1) by (simp add: of_le32_iff)
  have g4: "8 \<le> sdp_req k \<Longrightarrow> GetVal 4 junk s = w \<longleftrightarrow> take 4 (drop 4 (k_rcv s)) = le32 w" for w
    using GetVal_spec [of 4 s junk] len fits(2) assms(1) by (simp add: of_le32_iff)
  have t8: "take 8 (k_rcv s) = le32 v @ le32 w \<longleftrightarrow>
      take 4 (k_rcv s) = le32 v \<and> take 4 (drop 4 (k_rcv s)) = le32 w" for v w
    using take_add [of 4 4 "k_rcv s"] len by (simp add: append_eq_append_conv)
  have mem: "length (take (4 + n) (k_rcv s)) = 4 + n" if "n \<le> 4" for n
    using len that by simp
  show "fst (sdp_Read junk s k) \<noteq> kError \<longleftrightarrow> sdp_ack k (take (sdp_resp k) (k_rcv s))"
  proof (cases k)
    case (PktWriteMem a d)
    have "[0x56, 0x78, 0x78, 0x56, 0x12, 0x8A, 0x8A, 0x12] = le32 kOtherwise @ le32 0x128A8A12"
      by (simp add: ack_words)
    with PktWriteMem g4 show ?thesis by (simp add: g0 t8)
  next
    case (PktReadMem a sz v)
    have "GetSizeFor sz \<le> 4" by (cases sz) simp_all
    with mem PktReadMem len show ?thesis by (simp add: g0 ack_words min_def)
  qed (simp_all add: g0 ack_words)
  show "fst (sdp_Read junk s k) = kContinue \<longrightarrow> (\<exists>f. k = PktWriteF f)"
    by (cases k) auto
  show "\<not> (\<exists>a z v. k = PktReadMem a z v) \<longrightarrow> snd (sdp_Read junk s k) = k"
    by (cases k) auto
qed

text \<open>The answer came with one of the events, and a value that was read is in it.\<close>

definition sdp_answered :: "SdpKind \<Rightarrow> SdpKind \<Rightarrow> byte list \<Rightarrow> SdpEv list \<Rightarrow> bool" where
  "sdp_answered k k' rcv used \<longleftrightarrow>
     (\<exists>i n d. SdpEv i (SDone n d) \<in> set used \<and> sdp_ack k d \<and>
        (\<forall>a sz v. k = PktReadMem a sz v \<longrightarrow>
           k' = PktReadMem a sz (of_le32 (rev (take 4 (drop 4 rcv)))) \<and> d = take (sdp_resp k) rcv))"

lemma sdp_answeredI:
  assumes "SdpEv i (SDone n (take (sdp_resp k) rcv)) \<in> set used" "sdp_ack k (take (sdp_resp k) rcv)"
    and "\<And>a sz v. k = PktReadMem a sz v \<Longrightarrow> k' = PktReadMem a sz (of_le32 (rev (take 4 (drop 4 rcv))))"
  shows "sdp_answered k k' rcv used"
  using assms unfolding sdp_answered_def by blast

text \<open>Everything a call of \<open>Send\<close> does, from a packet that is not being sent.\<close>

definition sdp_fresh :: "SdpKind \<Rightarrow> Sdp \<Rightarrow> bool" where
  "sdp_fresh k s \<longleftrightarrow> sdp_made k s \<and> k_pend s = []"

definition sdp_same :: "SdpKind \<Rightarrow> SdpKind \<Rightarrow> bool" where
  "sdp_same k k' \<longleftrightarrow> k' = k \<or> (\<exists>a z v v'. k = PktReadMem a z v \<and> k' = PktReadMem a z v')"

lemma sdp_same_refl [simp]: "sdp_same k k"
  by (simp add: sdp_same_def)

lemma sdp_same_trans: "sdp_same a b \<Longrightarrow> sdp_same b c \<Longrightarrow> sdp_same a c"
  by (auto simp: sdp_same_def)

lemma sdp_same_ack: "sdp_same a b \<Longrightarrow> sdp_ack a d = sdp_ack b d"
  by (auto simp: sdp_same_def)

lemma sdp_fresh_new: "sdp_fresh k (new_Pkt pkt open_port k)"
  by (simp add: sdp_fresh_def sdp_made_new) (simp add: new_Pkt_def new_SdpPacket_def)

lemma sdp_fresh_same:
  assumes "sdp_fresh k s" "k_cmd_id t = k_cmd_id s" "k_req t = sdp_req k" "k_resp t = sdp_resp k"
    and "k_pend t = []"
    and "sdp_same k k'"
  shows "sdp_fresh k' t"
  using assms by (auto simp: sdp_fresh_def sdp_made_def sdp_same_def)

lemma sdp_Read_class:
  "sdp_same k (snd (sdp_Read junk s k))"
  by (cases k) (auto simp: sdp_same_def)

text \<open>The data of an image, which the device asks for.\<close>

lemma sdp_Write_data:
  assumes W: "sdp_Write_port (PktWriteF f) w es1 = Some (Inr (ok, k', t, es'))"
    and ans: "sdp_answered (PktWriteF f) (PktWriteF f) (k_rcv w) used"
    and same: "\<And>x. sdp_fresh (PktWriteF f) (w\<lparr>k_wire := x\<rparr>)" "sdp_fresh (PktWriteF f) w"
  shows "\<exists>more body. es1 = more @ es' \<and> k_wire t = k_wire w @ body \<and>
    (body = [] \<or> (\<exists>g. f = Some g \<and> body = [fm_data g] \<and> ok)) \<and>
    (ok \<longrightarrow> sdp_answered (PktWriteF f) k' (k_rcv t) (used @ more)) \<and> sdp_fresh k' t \<and> k' = PktWriteF f"
proof (cases "\<exists>g. f = Some g \<and> fm_loaded g")
  case False
  with W have "\<not> ok" "t = w" "es' = es1" "k' = PktWriteF f"
    by (auto split: option.splits if_splits)
  with same(2) show ?thesis by (intro exI [of _ "[]"]) simp
next
  case True
  then obtain g where g: "f = Some g" "fm_loaded g" by blast
  with W have R: "es1 = SdpWrote True # es'" "k' = PktWriteF f" "ok"
      "t = w\<lparr>k_wire := k_wire w @ [fm_data g]\<rparr>"
    by (auto split: list.splits SdpEv.splits bool.splits)
  have "sdp_answered (PktWriteF f) k' (k_rcv t) (used @ [SdpWrote True])"
    using ans R(2,4) by (auto simp: sdp_answered_def)
  with R g same show ?thesis
    by (intro exI [of _ "[SdpWrote True]"] exI [of _ "[fm_data g]"]) simp
qed

lemma sdp_Send_answered:
  assumes fresh: "sdp_fresh k s" and pend: "k_pend w = []" and got: "k_packet w = k_rcv w" "answered_by used w"
    and w: "k_cmd_id w = k_cmd_id s" "k_req w = sdp_req k" "k_resp w = sdp_resp k" "length (k_rcv w) = kPktSize"
    and fin: "(let (act, k1) = sdp_Read junk w k in if act = kContinue then sdp_Write_port k1 w es1
      else Some (Inr (act = kStop, k1, w, es1))) = Some (Inr (ok, k', t, es'))"
  shows "\<exists>more body. es1 = more @ es' \<and> k_wire t = k_wire w @ body \<and>
    (body = [] \<or> (\<exists>f. k = PktWriteF (Some f) \<and> body = [fm_data f] \<and> ok)) \<and>
    (ok \<longrightarrow> sdp_answered k k' (k_rcv t) (used @ more)) \<and> sdp_fresh k' t \<and> sdp_same k k'"
proof -
  have same: "sdp_fresh k1 (w\<lparr>k_wire := x\<rparr>)" "sdp_fresh k1 w" if "sdp_same k k1" for k1 x
    by (rule sdp_fresh_same [OF fresh]; use w pend that in auto)+
  obtain act k1 where rd: "sdp_Read junk w k = (act, k1)" by (cases "sdp_Read junk w k")
  have ack: "act \<noteq> kError \<longleftrightarrow> sdp_ack k (take (sdp_resp k) (k_rcv w))"
      "act = kContinue \<longrightarrow> (\<exists>f. k = PktWriteF f)" "\<not> (\<exists>a z v. k = PktReadMem a z v) \<longrightarrow> k1 = k"
    using sdp_Read_ack [of w k junk] w got rd by simp_all
  have k1: "sdp_same k k1" using sdp_Read_class [of k junk w] rd by simp
  from got w obtain i n where ev: "SdpEv i (SDone n (take (sdp_resp k) (k_rcv w))) \<in> set used"
    by (auto simp: answered_by_def)
  have mem: "k1 = PktReadMem a sz (of_le32 (rev (take 4 (drop 4 (k_rcv w)))))"
    if "k = PktReadMem a sz v" for a sz v
  proof -
    have "sdp_fits 4 w" using w that by (simp add: sdp_fits_def kPktSize_def got)
    from GetMsbVal_spec [OF this, of junk] rd got that show ?thesis by simp
  qed
  show ?thesis
  proof (cases "act = kContinue")
    case False
    with fin rd have "ok = (act = kStop)" "k' = k1" "t = w" "es' = es1" by auto
    moreover have "sdp_answered k k' (k_rcv t) used" if ok
      by (rule sdp_answeredI) (use that ack(1) ev mem calculation in auto)
    ultimately show ?thesis using same(2) [OF k1] k1
      by (intro exI [of _ "[]"]) simp
  next
    case True
    with ack obtain f where k: "k = PktWriteF f" "k1 = k" by auto
    have ans: "sdp_answered k k (k_rcv w) used"
      by (rule sdp_answeredI [OF ev]) (use ack(1) True k in auto)
    have "sdp_Write_port (PktWriteF f) w es1 = Some (Inr (ok, k', t, es'))"
      using fin rd True k by simp
    from sdp_Write_data [OF this, of used] ans same [of k] k obtain more body where
      "es1 = more @ es'" "k_wire t = k_wire w @ body" "body = [] \<or> (\<exists>g. f = Some g \<and> body = [fm_data g] \<and> ok)"
      "ok \<longrightarrow> sdp_answered k k' (k_rcv t) (used @ more)" "sdp_fresh k' t" "k' = k" by auto
    with k(1) show ?thesis by (intro exI [of _ more] exI [of _ body]) auto
  qed
qed

text \<open>\<open>Send\<close> after the packet was made.\<close>

definition sdp_after :: "u32 \<Rightarrow> SdpKind \<Rightarrow> bool \<Rightarrow> Sdp \<Rightarrow> SdpEv list \<Rightarrow> (SdpKind \<times> Sdp \<times> SdpEv list) attempt" where
  "sdp_after junk k got s es =
     (if \<not> got then Some (Inr (False, k, s, es))
      else (let (act, k) = sdp_Read junk s k in
            if act = kContinue then sdp_Write_port k s es
            else Some (Inr (act = kStop, k, s, es))))"

lemma sdp_Send_eq:
  assumes "sdp_ready k s = (r, u)"
  shows "sdp_Send rcv junk (k, s, es) =
    (if \<not> k_open s then Some (Inr (False, k, s, es))
     else if \<not> r then Some (Inr (False, k, u, es))
     else (case send_loop kMaxAmountOfTries (u\<lparr>k_session := True, k_rcv := rcv\<rparr>, es) of
             None \<Rightarrow> None
           | Some (Inl x) \<Rightarrow> Some (Inl x)
           | Some (Inr (got, s, es)) \<Rightarrow> sdp_after junk k got (s\<lparr>k_session := False\<rparr>) es))"
  by (simp add: assms sdp_Send.simps) (simp add: sdp_after_def Let_def split: option.split sum.split)

lemma sdp_Send_total:
  assumes "sdp_fresh k s" "length rcv = kPktSize"
  shows "sdp_Send rcv junk (k, s, es) \<noteq> None"
proof -
  obtain r u where ready: "sdp_ready k s = (r, u)" by (cases "sdp_ready k s")
  have "sdp_Write_port k' s' es1 \<noteq> None" for k' s' es1
    by (cases k') (auto split: option.splits list.splits SdpEv.splits bool.splits)
  then have after: "sdp_after junk k got s' es1 \<noteq> None" for got s' es1
    by (simp add: sdp_after_def split: prod.split)
  have "send_loop kMaxAmountOfTries (u\<lparr>k_session := True, k_rcv := rcv\<rparr>, es) \<noteq> None" if "r"
    using sdp_ready_idle(1) [OF _ _ assms(2)] assms(1) ready that
    by (intro send_loop_result(1)) (auto simp: sdp_fresh_def)
  then show ?thesis
    using after by (auto simp: sdp_Send_eq [OF ready] split: option.splits sum.splits)
qed

text \<open>What \<open>Send\<close> has done when it ends: the events it used up, the commands and data it wrote.\<close>

definition sdp_done ::
  "SdpKind \<Rightarrow> Sdp \<Rightarrow> SdpEv list \<Rightarrow> bool \<Rightarrow> SdpKind \<Rightarrow> Sdp \<Rightarrow> SdpEv list \<Rightarrow> bool" where
  "sdp_done k s es ok k' t es' \<longleftrightarrow>
     (\<exists>used ws body. es = used @ es' \<and> k_wire t = k_wire s @ ws @ body \<and>
        length ws \<le> kMaxAmountOfTries \<and> (\<forall>w \<in> set ws. \<exists>n. w = take n (sdp_wire k)) \<and>
        (body = [] \<or> (\<exists>f. k = PktWriteF (Some f) \<and> body = [fm_data f] \<and> ok)) \<and>
        (ok \<longrightarrow> sdp_answered k k' (k_rcv t) used) \<and> sdp_fresh k' t \<and> sdp_same k k')"

lemma sdp_after_done:
  assumes fresh: "sdp_fresh k s" and fin: "sdp_after junk k got (w\<lparr>k_session := False\<rparr>) es1 = Some (Inr (ok, k', t, es'))"
    and w: "k_cmd_id w = k_cmd_id s" "k_pend w = []" "k_req w = sdp_req k" "k_resp w = sdp_resp k" "length (k_rcv w) = kPktSize"
    and ws: "k_wire w = k_wire s @ ws" "length ws \<le> kMaxAmountOfTries" "\<forall>x \<in> set ws. \<exists>n. x = take n (sdp_wire k)"
    and got: "got \<longrightarrow> k_packet w = k_rcv w \<and> answered_by used w"
  shows "sdp_done k s (used @ es1) ok k' t es'"
proof (cases got)
  case False
  with fin have "t = w\<lparr>k_session := False\<rparr>" "\<not> ok" "es' = es1" "k' = k" by (auto simp: sdp_after_def)
  moreover have "sdp_fresh k (w\<lparr>k_session := False\<rparr>)"
    by (rule sdp_fresh_same [OF fresh]) (use w in auto)
  ultimately show ?thesis
    using ws unfolding sdp_done_def by (intro exI [of _ used] exI [of _ ws] exI [of _ "[]"]) simp
next
  case True
  let ?w = "w\<lparr>k_session := False\<rparr>"
  have answer: "(let (act, k1) = sdp_Read junk ?w k in if act = kContinue then sdp_Write_port k1 ?w es1
    else Some (Inr (act = kStop, k1, ?w, es1))) = Some (Inr (ok, k', t, es'))"
    using fin True by (simp add: sdp_after_def)
  have "k_pend ?w = []" "k_packet ?w = k_rcv ?w" "answered_by used ?w" "k_cmd_id ?w = k_cmd_id s"
    "k_req ?w = sdp_req k" "k_resp ?w = sdp_resp k" "length (k_rcv ?w) = kPktSize"
    using w got True by (simp_all add: answered_by_def)
  from sdp_Send_answered [OF fresh this answer] obtain more body where
    "es1 = more @ es'" "k_wire t = k_wire ?w @ body"
    "body = [] \<or> (\<exists>f. k = PktWriteF (Some f) \<and> body = [fm_data f] \<and> ok)"
    "ok \<longrightarrow> sdp_answered k k' (k_rcv t) (used @ more)" "sdp_fresh k' t" "sdp_same k k'"
    by blast
  with ws show ?thesis
    unfolding sdp_done_def by (intro exI [of _ "used @ more"] exI [of _ ws] exI [of _ body]) simp
qed

lemma sdp_Send_done:
  assumes "sdp_fresh k s" "length rcv = kPktSize"
    and send: "sdp_Send rcv junk (k, s, es) = Some (Inr (ok, k', t, es'))"
  shows "sdp_done k s es ok k' t es'"
proof -
  have s: "sdp_made k s" "k_pend s = []" using assms(1) by (auto simp: sdp_fresh_def)
  obtain r u where ready: "sdp_ready k s = (r, u)" by (cases "sdp_ready k s")
  let ?v = "u\<lparr>k_session := True, k_rcv := rcv\<rparr>"
  note send = send [unfolded sdp_Send_eq [OF ready]]
  show ?thesis
  proof (cases "k_open s \<and> r")
    case False
    then have "t = s \<or> t = u" "\<not> ok" "es' = es" "k' = k" using send by (auto split: if_splits)
    moreover have "sdp_fresh k u" "k_wire u = k_wire s"
      using sdp_ready_frame [OF s(1) ready] assms(1) by (auto simp: sdp_fresh_def sdp_made_def)
    ultimately show ?thesis
      using assms(1) unfolding sdp_done_def by (intro exI [of _ "[]"]) auto
  next
    case True
    with sdp_ready_idle [OF s assms(2), of u] ready
    have v: "sdp_idle ?v" "take (k_req ?v) (k_packet ?v) = sdp_wire k"
        "k_resp ?v = sdp_resp k" "k_req ?v = sdp_req k" "k_wire ?v = k_wire s" "k_cmd_id ?v = k_cmd_id s"
      by simp_all
    from True send obtain got w es1 where loop: "send_loop kMaxAmountOfTries (?v, es) = Some (Inr (got, w, es1))"
      and fin: "sdp_after junk k got (w\<lparr>k_session := False\<rparr>) es1 = Some (Inr (ok, k', t, es'))"
      by (auto split: option.splits sum.splits)
    from send_loop_result(2) [OF v(1) loop, unfolded v(2), unfolded v(3-6)] obtain used ws where
      L: "es = used @ es1" "k_cmd_id w = k_cmd_id s" "k_pend w = []" "k_req w = sdp_req k" "k_resp w = sdp_resp k"
        "length (k_rcv w) = kPktSize" "k_wire w = k_wire s @ ws" "length ws \<le> kMaxAmountOfTries"
        "\<forall>x \<in> set ws. \<exists>n. x = take n (sdp_wire k)"
        "got \<longrightarrow> k_packet w = k_rcv w \<and> answered_by used w" by blast
    show ?thesis unfolding L(1) by (rule sdp_after_done [OF assms(1) fin L(2-10)])
  qed
qed

lemmas sdp_Send_result = sdp_Send_total sdp_Send_done [unfolded sdp_done_def]

text \<open>Repetitions of \<open>Send\<close> work on the same command.\<close>

definition sends_from :: "SdpKind \<Rightarrow> SdpEv list \<Rightarrow> SdpKind \<times> Sdp \<times> SdpEv list \<Rightarrow> bool" where
  "sends_from k es q \<longleftrightarrow>
     (case q of (k', t, es') \<Rightarrow> sdp_fresh k' t \<and> (\<exists>pre. es = pre @ es') \<and>
        sdp_same k k')"

lemma sends_from_step:
  assumes "length rcv = kPktSize" "sends_from k es q" "sdp_Send rcv junk q = Some (Inr (ok, r))"
  shows "sends_from k es r"
    and "length (k_wire (fst (snd r))) \<le> length (k_wire (fst (snd q))) + 5"
    and "ok \<Longrightarrow> \<exists>i n d. SdpEv i (SDone n d) \<in> set es \<and> sdp_ack k d"
proof -
  obtain k1 s es1 k2 t es2 where p: "q = (k1, s, es1)" "r = (k2, t, es2)"
    by (cases q; cases r)
  from assms(2) obtain pre where f: "sdp_fresh k1 s" "es = pre @ es1"
    "sdp_same k k1"
    by (auto simp: sends_from_def p)
  obtain used ws body where
    g: "es1 = used @ es2" "k_wire t = k_wire s @ ws @ body" "length ws \<le> kMaxAmountOfTries"
      "body = [] \<or> (\<exists>f. k1 = PktWriteF (Some f) \<and> body = [fm_data f] \<and> ok)"
      "ok \<longrightarrow> sdp_answered k1 k2 (k_rcv t) used" "sdp_fresh k2 t" "sdp_same k1 k2"
    using sdp_Send_result(2) [OF f(1) assms(1) assms(3) [unfolded p]]
    by (elim exE conjE) (rule that)
  from f(2) g(1,6) sdp_same_trans [OF f(3) g(7)] show "sends_from k es r"
    unfolding sends_from_def p by auto
  show "length (k_wire (fst (snd r))) \<le> length (k_wire (fst (snd q))) + 5"
    using g by (auto simp: p kMaxAmountOfTries_def)
  show "\<exists>i n d. SdpEv i (SDone n d) \<in> set es \<and> sdp_ack k d" if ok
    using that g(1,5) f(2) sdp_same_ack [OF f(3)] by (auto simp: sdp_answered_def)
qed

text \<open>C4: sending a packet, with any number of repetitions, comes to an end whatever the port and
  the clock do: the loop of \<open>TransferData\<close> never waits for a flag that nothing sets.  Each
  repetition writes at most five times, four tries of the command and the image.\<close>

theorem Send_ends_bounded:
  assumes "sdp_fresh k s" "length rcv = kPktSize"
  shows "Send_tries rcv junk tries (k, s, es) \<noteq> None \<and>
    (\<forall>ok k' t es'. Send_tries rcv junk tries (k, s, es) = Some (Inr (ok, k', t, es')) \<longrightarrow>
       length (k_wire t) \<le> length (k_wire s) + tries * 5)"
proof -
  have start: "sends_from k es (k, s, es)" using assms(1) by (simp add: sends_from_def)
  note step = sends_from_step [OF assms(2)]
  have "Send_tries rcv junk tries (k, s, es) \<noteq> None"
  proof (rule sends.loop_total [where P = "sends_from k es"])
    fix q assume "sends_from k es q"
    then show "sdp_Send rcv junk q \<noteq> None"
      using sdp_Send_result(1) [OF _ assms(2)] by (cases q) (auto simp: sends_from_def)
  qed (use step start in auto)
  moreover have "length (k_wire t) \<le> length (k_wire s) + tries * 5"
    if "Send_tries rcv junk tries (k, s, es) = Some (Inr (ok, k', t, es'))" for ok k' t es'
    using sends.loop_cost [where P = "sends_from k es" and c = 5
        and cost = "\<lambda>q. length (k_wire (fst (snd q)))", OF step(1) step(2) that start]
    by simp
  ultimately show ?thesis by blast
qed

theorem Send_ends_bounded_witness:
  "Send_tries (replicate 16 0) 0 3 (PktStatus, new_Pkt (replicate 16 9) True PktStatus, []) \<noteq> None"
  using Send_ends_bounded [OF sdp_fresh_new, of "replicate 16 0" 0 3 PktStatus "replicate 16 9" True "[]"]
  by (simp add: kPktSize_def)

text \<open>C3: sending reports success only if the device delivered, in one of the reads, exactly the
  answer the packet asks for: the status or completion word, the acknowledgement of a write, the
  acknowledgement before a value, the permission to load.\<close>

theorem Send_success_was_acknowledged:
  assumes "sdp_fresh k s" "length rcv = kPktSize"
    and "Send_tries rcv junk tries (k, s, es) = Some (Inr (True, r))"
  shows "\<exists>i n d. SdpEv i (SDone n d) \<in> set es \<and> sdp_ack k d"
proof -
  have start: "sends_from k es (k, s, es)" using assms(1) by (simp add: sends_from_def)
  note step = sends_from_step [OF assms(2)]
  have "\<exists>q. sends_from k es q \<and> sdp_Send rcv junk q = Some (Inr (True, r))"
    by (rule sends.loop_True_last [where P = "sends_from k es"]) (use step start assms(3) in auto)
  then show ?thesis using step(3) by blast
qed

section \<open>Silence and answers\<close>

text \<open>
  The events of a try whose command went out and was not answered: the timer of the write is
  cancelled, the one of the read fires, the read is cancelled.  And those of a try in which
  \<open>m\<close> bytes went out and \<open>d\<close> came back.
\<close>

definition silent_evs :: "nat \<Rightarrow> SdpEv list" where
  "silent_evs m = [SdpEv 0 (SDone m []), SdpEv 0 (SFailed []), SdpEv 1 (SFired True), SdpEv 0 (SFailed [])]"

definition answer_evs :: "nat \<Rightarrow> byte list \<Rightarrow> SdpEv list" where
  "answer_evs m d = [SdpEv 0 (SDone m []), SdpEv 0 (SFailed []), SdpEv 0 (SDone (length d) d), SdpEv 0 (SFailed [])]"

lemma sdp_run_op:
  assumes "i < length (k_pend s)" "k_pend s ! i = (op, c)"
    and "sdp_op_exec op c out (sdp_drop_pend i s) = Inr t"
  shows "sdp_io_run (SdpEv i out # es) s = sdp_io_run es t"
  using assms by (cases "k_pend s") (auto simp: sdp_io_exec_def)

lemma sdp_run_end: "k_pend s = [] \<Longrightarrow> sdp_io_run es s = Inr (s, es)"
  by (cases "(es, s)" rule: sdp_io_run.cases) auto

declare sdp_io_run.simps [simp del]

lemmas sdp_steps = sdp_HandlerWrite_def sdp_HandlerRead_def sdp_HandlerTimeout_def
  sdp_ReadArray_def sdp_CreateTimer_def sdp_cancel_timer_def sdp_cancel_port_def sdp_drop_pend_def
  Let_def

text \<open>The start of every try, up to the read that waits for an answer.\<close>

lemma try_started:
  assumes "sdp_idle s" "m \<le> length (take (k_req s) (k_packet s))"
  defines "u \<equiv> (sdp_CreateTimer (s\<lparr>k_pend := k_pend s @
      [(SWrite (take (k_req s) (k_packet s)), False)]\<rparr>))\<lparr>k_was_read := False, k_timeout := False\<rparr>"
  shows "sdp_io_run (SdpEv 0 (SDone m []) # SdpEv 0 (SFailed []) # es) u = sdp_io_run es
    (s\<lparr>k_was_read := False, k_timeout := False, k_wire := k_wire s @ [take m (take (k_req s) (k_packet s))],
       k_rcv := overwrite (k_rcv s) 0 (replicate (k_resp s) 0),
       k_pend := [(SRead (k_resp s), False), (STimer, False)]\<rparr>)"
proof -
  let ?w = "take (k_req s) (k_packet s)"
  define t where "t = s\<lparr>k_was_read := False, k_timeout := False,
    k_wire := k_wire s @ [take m ?w], k_rcv := overwrite (k_rcv s) 0 (replicate (k_resp s) 0),
    k_pend := [(STimer, True), (SRead (k_resp s), False), (STimer, False)]\<rparr>"
  have u: "k_pend u = [(SWrite ?w, False), (STimer, False)]"
    using assms(1) by (simp add: u_def sdp_steps sdp_idle_def)
  have "sdp_op_exec (SWrite ?w) False (SDone m []) (sdp_drop_pend 0 u) = Inr t"
    using assms(1,2) by (simp add: u sdp_steps t_def) (simp add: u_def sdp_steps sdp_idle_def)
  then have "sdp_io_run (SdpEv 0 (SDone m []) # SdpEv 0 (SFailed []) # es) u
      = sdp_io_run (SdpEv 0 (SFailed []) # es) t"
    by (intro sdp_run_op [where op = "SWrite ?w" and c = False]) (simp_all add: u)
  also have "\<dots> = sdp_io_run es (sdp_drop_pend 0 t)"
    by (rule sdp_run_op [where op = STimer and c = True]) (simp_all add: t_def sdp_steps)
  finally show ?thesis by (simp add: t_def sdp_drop_pend_def)
qed

lemma send_try_run:
  assumes "sdp_idle s"
    and "sdp_io_run es ((sdp_CreateTimer (s\<lparr>k_pend := k_pend s @
      [(SWrite (take (k_req s) (k_packet s)), False)]\<rparr>))\<lparr>k_was_read := False, k_timeout := False\<rparr>)
      = Inr (t, es')"
    and "k_was_read t \<or> k_timeout t"
  shows "send_try (s, es) = (if k_was_read t \<and> \<not> k_timeout t
    then Some (Inr (True, t\<lparr>k_packet := k_rcv t\<rparr>, es')) else Some (Inr (False, t, es')))"
  using assms(2,3)
  by (cases "k_was_read t"; cases "k_timeout t")
    (simp_all add: send_try.simps TransferData_def transfer_loop.simps [of es] Let_def)

lemma silent_try:
  assumes "sdp_idle s" "m \<le> length (take (k_req s) (k_packet s))"
  shows "\<exists>t. send_try (s, silent_evs m @ es) = Some (Inr (False, t, es)) \<and> sdp_idle t \<and>
    k_wire t = k_wire s @ [take m (take (k_req s) (k_packet s))] \<and> k_packet t = k_packet s \<and>
    k_req t = k_req s \<and> k_resp t = k_resp s"
proof -
  define v where "v = s\<lparr>k_was_read := False, k_timeout := False,
     k_wire := k_wire s @ [take m (take (k_req s) (k_packet s))],
     k_rcv := overwrite (k_rcv s) 0 (replicate (k_resp s) 0),
     k_pend := [(SRead (k_resp s), False), (STimer, False)]\<rparr>"
  define t where "t = v\<lparr>k_timeout := True, k_pend := []\<rparr>"
  have k: "k_session s" "0 < k_resp s" using assms(1) by (simp_all add: sdp_idle_def)
  note try_started [OF assms, of "SdpEv 1 (SFired True) # SdpEv 0 (SFailed []) # es", folded v_def]
  also have "sdp_io_run (SdpEv 1 (SFired True) # SdpEv 0 (SFailed []) # es) v
      = sdp_io_run (SdpEv 0 (SFailed []) # es)
          (v\<lparr>k_timeout := True, k_pend := [(SRead (k_resp s), True)]\<rparr>)"
    using k by (intro sdp_run_op [where op = STimer and c = False]) (simp_all add: v_def sdp_steps)
  also have "\<dots> = sdp_io_run es t"
    using k by (intro sdp_run_op [where op = "SRead (k_resp s)" and c = True])
      (simp_all add: v_def t_def sdp_steps)
  also have "\<dots> = Inr (t, es)" by (rule sdp_run_end) (simp add: t_def)
  finally have "send_try (s, silent_evs m @ es) = Some (Inr (False, t, es))"
    using send_try_run [OF assms(1), of "silent_evs m @ es" t es]
    by (simp add: silent_evs_def t_def)
  then show ?thesis
    using assms(1) by (intro exI [of _ t]) (simp add: t_def v_def sdp_idle_def)
qed

lemma answered_try:
  assumes "sdp_idle s" "m \<le> length (take (k_req s) (k_packet s))" "length d = k_resp s"
  shows "\<exists>t. send_try (s, answer_evs m d @ es) = Some (Inr (True, t, es)) \<and>
    k_wire t = k_wire s @ [take m (take (k_req s) (k_packet s))] \<and>
    k_packet t = k_rcv t \<and> k_rcv t = overwrite (k_rcv s) 0 d \<and> length (k_rcv t) = kPktSize \<and>
    k_req t = k_req s \<and> k_resp t = k_resp s"
proof -
  define v where "v = s\<lparr>k_was_read := False, k_timeout := False,
     k_wire := k_wire s @ [take m (take (k_req s) (k_packet s))],
     k_rcv := overwrite (k_rcv s) 0 (replicate (k_resp s) 0),
     k_pend := [(SRead (k_resp s), False), (STimer, False)]\<rparr>"
  define t where "t = v\<lparr>k_was_read := True, k_rcv := overwrite (k_rcv s) 0 d, k_pend := []\<rparr>"
  have k: "k_session s" "0 < k_resp s" "k_resp s \<le> length (k_rcv s)" "length (k_rcv s) = kPktSize"
    using assms(1) by (simp_all add: sdp_idle_def)
  have twice: "overwrite (overwrite (k_rcv s) 0 (replicate (k_resp s) 0)) 0 d = overwrite (k_rcv s) 0 d"
    using k assms(3) by (simp add: overwrite_def)
  note try_started [OF assms(1,2), of "SdpEv 0 (SDone (length d) d) # SdpEv 0 (SFailed []) # es", folded v_def]
  also have "sdp_io_run (SdpEv 0 (SDone (length d) d) # SdpEv 0 (SFailed []) # es) v
      = sdp_io_run (SdpEv 0 (SFailed []) # es)
          (v\<lparr>k_was_read := True, k_rcv := overwrite (k_rcv s) 0 d, k_pend := [(STimer, True)]\<rparr>)"
    using k assms(3) twice
    by (intro sdp_run_op [where op = "SRead (k_resp s)" and c = False]) (simp_all add: v_def sdp_steps)
  also have "\<dots> = sdp_io_run es t"
    by (rule sdp_run_op [where op = STimer and c = True]) (simp_all add: v_def t_def sdp_steps)
  also have "\<dots> = Inr (t, es)" by (rule sdp_run_end) (simp add: t_def)
  finally have "send_try (s, answer_evs m d @ es) = Some (Inr (True, t\<lparr>k_packet := k_rcv t\<rparr>, es))"
    using send_try_run [OF assms(1), of "answer_evs m d @ es" t es]
    by (simp add: answer_evs_def t_def v_def)
  then show ?thesis
    using assms(3) k by (intro exI [of _ "t\<lparr>k_packet := k_rcv t\<rparr>"]) (simp add: t_def v_def)
qed

text \<open>Some silent tries, then an answer; or none at all.\<close>

lemma silent_tries:
  assumes "sdp_idle s" "cmd = take (k_req s) (k_packet s)"
  shows "\<exists>t. send_loop (j + n) (s, concat (replicate j (silent_evs (length cmd))) @ es) = send_loop n (t, es) \<and>
    sdp_idle t \<and> k_wire t = k_wire s @ replicate j cmd \<and> k_packet t = k_packet s \<and>
    k_req t = k_req s \<and> k_resp t = k_resp s"
  using assms
proof (induction j arbitrary: s)
  case 0
  then show ?case by (intro exI [of _ s]) simp
next
  case (Suc j)
  obtain t where t: "send_try (s, silent_evs (length cmd) @ concat (replicate j (silent_evs (length cmd))) @ es)
      = Some (Inr (False, t, concat (replicate j (silent_evs (length cmd))) @ es))"
    "sdp_idle t" "k_wire t = k_wire s @ [cmd]" "k_packet t = k_packet s" "k_req t = k_req s"
    "k_resp t = k_resp s"
    using silent_try [OF Suc.prems(1), unfolded Suc.prems(2) [symmetric], OF order_refl,
        of "concat (replicate j (silent_evs (length cmd))) @ es"] by auto
  then have "send_loop (Suc j + n) (s, concat (replicate (Suc j) (silent_evs (length cmd))) @ es)
      = send_loop (j + n) (t, concat (replicate j (silent_evs (length cmd))) @ es)"
    by (simp add: retry_step_def)
  with Suc.IH [of t] t Suc.prems(2) show ?case by auto
qed

text \<open>C8: a device that stays silent \<open>j\<close> times, fewer than four, and then acknowledges, makes
  \<open>Send\<close> succeed; the command went out \<open>j + 1\<close> times, and of the last one \<open>m\<close> bytes went out
  before the answer.  \<open>m\<close> is arbitrary: the number of bytes that \<open>async_write_some\<close> wrote is not
  looked at, and a command of which only the beginning was sent counts as sent.\<close>

theorem Send_retries_until_answer:
  assumes "sdp_fresh k s" "length rcv = kPktSize" "k_open s" "j < 4"
    and "fst (sdp_ready k s)" "\<forall>f. k \<noteq> PktWriteF f"
    and "m \<le> sdp_req k" "length d = sdp_resp k" "sdp_ack k d"
  shows "\<exists>k' t. sdp_Send rcv junk
      (k, s, concat (replicate j (silent_evs (sdp_req k))) @ answer_evs m d @ es)
      = Some (Inr (True, k', t, es)) \<and>
    k_wire t = k_wire s @ replicate j (sdp_wire k) @ [take m (sdp_wire k)]"
proof -
  have s: "sdp_made k s" "k_pend s = []" using assms(1) by (auto simp: sdp_fresh_def)
  obtain u where ready: "sdp_ready k s = (True, u)" using assms(5) by (cases "sdp_ready k s") auto
  note R = sdp_ready_idle [OF s assms(2) ready]
  define v where "v = u\<lparr>k_session := True, k_rcv := rcv\<rparr>"
  have v: "sdp_idle v" "sdp_wire k = take (k_req v) (k_packet v)" "k_resp v = sdp_resp k"
      "k_req v = sdp_req k" "k_wire v = k_wire s"
    using R by (simp_all add: v_def)
  have lw: "length (sdp_wire k) = sdp_req k"
    using R(2,4,6) assms(6) by (cases k) (simp_all add: kPktSize_def)
  define n where "n = 3 - j"
  have n: "kMaxAmountOfTries = j + Suc n" using assms(4) by (simp add: kMaxAmountOfTries_def n_def)
  from silent_tries [OF v(1,2), of j "Suc n" "answer_evs m d @ es"] obtain t where
    t: "send_loop kMaxAmountOfTries (v, concat (replicate j (silent_evs (sdp_req k))) @ answer_evs m d @ es)
        = send_loop (Suc n) (t, answer_evs m d @ es)"
      "sdp_idle t" "k_wire t = k_wire s @ replicate j (sdp_wire k)" "k_packet t = k_packet v"
      "k_req t = k_req v" "k_resp t = k_resp v"
    by (auto simp: lw n v(5))
  have wire: "take (k_req t) (k_packet t) = sdp_wire k" using t(4,5) v(2) by simp
  from answered_try [OF t(2), unfolded wire, of m d es] assms(7,8) lw t(6) v(3) obtain w where
    w: "send_try (t, answer_evs m d @ es) = Some (Inr (True, w, es))"
      "k_wire w = k_wire t @ [take m (sdp_wire k)]" "k_packet w = k_rcv w"
      "k_rcv w = overwrite (k_rcv t) 0 d" "length (k_rcv w) = kPktSize" "k_req w = sdp_req k"
    using t(5) v(4) by auto
  have loop: "send_loop kMaxAmountOfTries
      (v, concat (replicate j (silent_evs (sdp_req k))) @ answer_evs m d @ es) = Some (Inr (True, w, es))"
    by (simp add: t(1) retry_step_def w(1))
  have "take (sdp_resp k) (k_rcv w) = d"
    using w(4,5) assms(8) by (simp add: overwrite_def)
  then have "fst (sdp_Read junk (w\<lparr>k_session := False\<rparr>) k) = kStop"
    using sdp_Read_ack [of "w\<lparr>k_session := False\<rparr>" k junk] w assms(6,9)
    by (cases "fst (sdp_Read junk (w\<lparr>k_session := False\<rparr>) k)") auto
  with loop ready assms(3) t(3) w(2) show ?thesis
    by (cases "sdp_Read junk (w\<lparr>k_session := False\<rparr>) k")
      (simp add: sdp_Send.simps v_def Let_def)
qed

text \<open>The same for the first command: one lost answer, then the acknowledgement of a write.\<close>

theorem Send_retries_until_answer_witness:
  "\<exists>k' t. sdp_Send (replicate 16 0) 0 (PktWriteMem 0x53FA8000 1,
      new_Pkt (replicate 16 9) True (PktWriteMem 0x53FA8000 1),
      concat (replicate 1 (silent_evs (sdp_req (PktWriteMem 0x53FA8000 1)))) @
        answer_evs 0 [0x56, 0x78, 0x78, 0x56, 0x12, 0x8A, 0x8A, 0x12] @ [])
      = Some (Inr (True, k', t, [])) \<and>
    k_wire t = k_wire (new_Pkt (replicate 16 9) True (PktWriteMem 0x53FA8000 1)) @
      replicate 1 (sdp_wire (PktWriteMem 0x53FA8000 1)) @ [take 0 (sdp_wire (PktWriteMem 0x53FA8000 1))]"
  by (rule Send_retries_until_answer)
    (simp_all only: sdp_fresh_new sdp_ready_ok, simp_all add: kPktSize_def new_Pkt_def new_SdpPacket_def)

theorem Send_success_was_acknowledged_witness:
  "\<exists>i n d. SdpEv i (SDone n d) \<in> set (answer_evs 11 [0xF0, 0xF0, 0xF0, 0xF0]) \<and> sdp_ack PktStatus d"
proof -
  define s where "s = new_Pkt (replicate 16 9) True PktStatus"
  have s: "sdp_fresh PktStatus s" "k_open s" "k_resp s = 4" "k_req s = 11"
    using sdp_fresh_new by (simp_all add: s_def) (simp_all add: new_Pkt_def new_SdpPacket_def kPktSize_def)
  obtain u where ready: "sdp_ready PktStatus s = (True, u)"
    using sdp_ready_ok [of PktStatus s] by (cases "sdp_ready PktStatus s") auto
  have len: "length (replicate 16 (0::byte)) = kPktSize" by (simp add: kPktSize_def)
  define v where "v = u\<lparr>k_session := True, k_rcv := replicate 16 0\<rparr>"
  have R: "sdp_idle v" "length (take (k_req v) (k_packet v)) = 11" "k_resp v = 4" "k_req v = 11"
    using sdp_ready_idle [OF _ _ len ready] s(1)
    by (simp_all add: v_def sdp_fresh_def kPktSize_def)
  obtain w where w: "send_try (v, answer_evs 11 [0xF0, 0xF0, 0xF0, 0xF0] @ []) = Some (Inr (True, w, []))"
    "k_packet w = k_rcv w" "k_rcv w = overwrite (k_rcv v) 0 [0xF0, 0xF0, 0xF0, 0xF0]" "k_req w = k_req v"
    "length (k_rcv w) = kPktSize"
    using answered_try [OF R(1) eq_refl [OF R(2) [symmetric]], of "[0xF0, 0xF0, 0xF0, 0xF0]" "[]"] R(3)
    by auto
  have "sdp_ack PktStatus (take (sdp_resp PktStatus) (k_rcv w))"
    using w(3) by (simp add: overwrite_def)
  then have "fst (sdp_Read 0 (w\<lparr>k_session := False\<rparr>) PktStatus) = kStop"
    using sdp_Read_ack [of "w\<lparr>k_session := False\<rparr>" PktStatus 0] w R(4)
    by (cases "fst (sdp_Read 0 (w\<lparr>k_session := False\<rparr>) PktStatus)") auto
  then have "\<exists>r. Send_tries (replicate 16 0) 0 (Suc 0)
      (PktStatus, s, answer_evs 11 [0xF0, 0xF0, 0xF0, 0xF0]) = Some (Inr (True, r))"
    using w(1) ready s(2)
    by (simp add: sdp_Send.simps v_def Let_def retry_step_def kMaxAmountOfTries_def numeral_eq_Suc)
  then show ?thesis using Send_success_was_acknowledged [OF s(1) len] by blast
qed

end
