(* ===== verification/Imx_Firmware.thy ===== *)
theory Imx_Firmware
  imports Regi_Stream
begin

text \<open>
  \<open>ImxFirmware\<close> (regiloader/sdp.hpp, sdp.cpp): finding the image vector table of an i.MX53
  image and the list of register writes in its device configuration data (DCD).

  The image is the byte list \<open>m\<close>; a pointer into it is an offset, and \<open>None\<close> is a read outside
  of it.  The structures are read through pointers with the layout the compiler gives them:
  \<open>DCD\<close> and \<open>DCDCmd\<close> are not packed, so that their 16-bit \<open>length\<close> lies at offset 2 and the
  byte after it at offset 4.
\<close>

section \<open>Structures in memory\<close>

definition mem8 :: "byte list \<Rightarrow> nat \<Rightarrow> byte option" where
  "mem8 m p = (if p < length m then Some (m ! p) else None)"

definition mem16 :: "byte list \<Rightarrow> nat \<Rightarrow> u16 option" where
  "mem16 m p = map_option of_le16 (mem_read m p 2)"

definition mem32 :: "byte list \<Rightarrow> nat \<Rightarrow> u32 option" where
  "mem32 m p = map_option of_le32 (mem_read m p 4)"

type_synonym DCDPair = "u32 \<times> u32"

record DCDCmd =
  c_tag :: byte
  c_length :: u16
  c_parameter :: byte
  c_pairs :: "DCDPair list"

record Imx53IVT =
  i_barker :: u32
  i_start_addr :: u32
  i_dcd_ptr :: u32
  i_boot_data_ptr :: u32
  i_self_ptr :: u32

record ImxFirmware =
  im_fsize :: nat
  im_exec :: "byte list option"
  im_header :: "nat option"
  im_boot :: "nat option"
  im_tag :: byte
  im_length :: u16
  im_version :: byte
  im_cmds :: "DCDCmd list"

definition kImx53Barker :: u32 where
  "kImx53Barker = 0x402000D1"

definition kTag_Cmd :: byte where
  "kTag_Cmd = 0xCC"

definition kTag_DCD :: byte where
  "kTag_DCD = 0xD2"

text \<open>\<open>_fsize\<close> is not initialised: it is \<open>junk\<close>.\<close>

definition new_ImxFirmware :: "nat \<Rightarrow> ImxFirmware" where
  "new_ImxFirmware junk =
     \<lparr>im_fsize = junk, im_exec = None, im_header = None, im_boot = None,
      im_tag = 0, im_length = 0, im_version = 0, im_cmds = []\<rparr>"

definition ivt_at :: "byte list \<Rightarrow> nat \<Rightarrow> Imx53IVT option" where
  "ivt_at m p =
     (case (mem32 m p, mem32 m (p + 4), mem32 m (p + 12), mem32 m (p + 16), mem32 m (p + 20)) of
        (Some b, Some s, Some d, Some bd, Some sf) \<Rightarrow>
          Some \<lparr>i_barker = b, i_start_addr = s, i_dcd_ptr = d, i_boot_data_ptr = bd, i_self_ptr = sf\<rparr>
      | _ \<Rightarrow> None)"

section \<open>The lists of the DCD\<close>

fun InitDCDListOfCommandsPairs ::
  "byte list \<Rightarrow> nat \<Rightarrow> nat \<Rightarrow> (DCDPair list \<times> nat) option" where
  "InitDCDListOfCommandsPairs m pair 0 = Some ([], pair)"
| "InitDCDListOfCommandsPairs m pair (Suc amount) =
     (case (mem32 m pair, mem32 m (pair + 4)) of
        (Some addr, Some val_mask) \<Rightarrow>
          (if addr = 0 \<and> val_mask = 0 then Some ([], pair)
           else (case InitDCDListOfCommandsPairs m (pair + 8) amount of
                   None \<Rightarrow> None
                 | Some (ps, q) \<Rightarrow> Some ((addr, val_mask) # ps, q)))
      | _ \<Rightarrow> None)"

lemma pairs_forward: "InitDCDListOfCommandsPairs m p n = Some (ps, q) \<Longrightarrow> q = p + 8 * length ps"
  by (induction m p n arbitrary: ps q rule: InitDCDListOfCommandsPairs.induct)
    (auto split: option.splits if_splits)

lemma pairs_at_most: "InitDCDListOfCommandsPairs m p n = Some (ps, q) \<Longrightarrow> length ps \<le> n"
  by (induction m p n arbitrary: ps q rule: InitDCDListOfCommandsPairs.induct)
    (auto split: option.splits if_splits)

text \<open>The number of pairs that the length of a command stands for.\<close>

definition kAmount :: "u16 \<Rightarrow> nat" where
  "kAmount len = (unat len - 4) div 8"

function dcd_cmds :: "byte list \<Rightarrow> nat \<Rightarrow> nat \<Rightarrow> DCDCmd list option" where
  "dcd_cmds m list_ptr kListEnd =
     (if list_ptr < kListEnd
      then (case (mem8 m list_ptr, mem16 m (list_ptr + 2), mem8 m (list_ptr + 4)) of
              (Some tg, Some len, Some par) \<Rightarrow>
                (if tg \<noteq> kTag_Cmd then Some []
                 else (case InitDCDListOfCommandsPairs m (list_ptr + 4) (kAmount len) of
                         None \<Rightarrow> None
                       | Some (ps, q) \<Rightarrow>
                           map_option (Cons \<lparr>c_tag = tg, c_length = len, c_parameter = par, c_pairs = ps\<rparr>)
                             (dcd_cmds m q kListEnd)))
            | _ \<Rightarrow> None)
      else Some [])"
  by pat_completeness auto
termination
  by (relation "measure (\<lambda>(m, p, e). e - p)") (auto dest!: pairs_forward)

declare dcd_cmds.simps [simp del]

text \<open>\<open>InitDCDListOfCommands\<close> returns nothing that could be used, but for the empty list.\<close>

definition InitDCDListOfCommands :: "byte list \<Rightarrow> nat \<Rightarrow> ImxFirmware \<Rightarrow> ImxFirmware option" where
  "InitDCDListOfCommands m list_ptr f =
     (if im_length f = 4 then Some f
      else map_option (\<lambda>cmds. f\<lparr>im_cmds := im_cmds f @ cmds\<rparr>)
             (dcd_cmds m list_ptr (list_ptr + unat (im_length f) - 4)))"

section \<open>The header\<close>

text \<open>One turn of the loop of \<open>InitHeader\<close>.\<close>

definition init_header_at :: "byte list \<Rightarrow> nat \<Rightarrow> ImxFirmware \<Rightarrow> ImxFirmware option" where
  "init_header_at m hd_offs f =
     (case mem32 m hd_offs of
        None \<Rightarrow> None
      | Some barker \<Rightarrow>
          (if barker \<noteq> kImx53Barker then Some f
           else (case ivt_at m hd_offs of
                   None \<Rightarrow> None
                 | Some t_hd \<Rightarrow>
                     (let f = f\<lparr>im_boot := Some (unat (i_boot_data_ptr t_hd - i_self_ptr t_hd))\<rparr> in
                      if i_dcd_ptr t_hd = 0 then Some f
                      else (let dcd_ptr = unat (i_dcd_ptr t_hd - i_self_ptr t_hd) in
                            case (mem8 m dcd_ptr, mem16 m (dcd_ptr + 2), mem8 m (dcd_ptr + 4)) of
                              (Some tg, Some len, Some ver) \<Rightarrow>
                                (let f = f\<lparr>im_tag := tg, im_length := len, im_version := ver\<rparr> in
                                 if tg \<noteq> kTag_DCD then Some f
                                 else map_option (\<lambda>f. f\<lparr>im_header := Some hd_offs\<rparr>)
                                        (InitDCDListOfCommands m (dcd_ptr + 4) f))
                            | _ \<Rightarrow> None)))))"

definition InitHeader :: "ImxFirmware \<Rightarrow> ImxFirmware option" where
  "InitHeader f =
     (case im_exec f of
        None \<Rightarrow> Some f
      | Some m \<Rightarrow>
          (case init_header_at m 0 f of
             None \<Rightarrow> None
           | Some f \<Rightarrow>
               (case init_header_at m 0x400 f of
                  None \<Rightarrow> None
                | Some f \<Rightarrow> init_header_at m 0x800 f)))"

text \<open>
  \<open>LoadFromFile\<close>; its result is false where the file does not open, and has no value where it
  does, as \<open>InitHeader\<close> ends without \<open>return\<close>.
\<close>

definition LoadFromFile :: "files \<Rightarrow> string \<Rightarrow> ImxFirmware \<Rightarrow> ImxFirmware option" where
  "LoadFromFile files path f =
     (case files path of
        None \<Rightarrow> Some f
      | Some bs \<Rightarrow> InitHeader (f\<lparr>im_fsize := length bs, im_exec := Some bs\<rparr>))"

definition GetDCDCommands :: "ImxFirmware \<Rightarrow> DCDCmd list" where
  "GetDCDCommands f = im_cmds f"

text \<open>\<open>GetIvtData()->self_ptr\<close>; \<open>None\<close> where the pointer is null.\<close>

definition ivt_self_ptr :: "ImxFirmware \<Rightarrow> u32 option" where
  "ivt_self_ptr f =
     (case (im_exec f, im_header f) of
        (Some m, Some p) \<Rightarrow> mem32 m (p + 20)
      | _ \<Rightarrow> None)"

lemma init_header_beside:
  "init_header_at m p f = Some g \<Longrightarrow> im_exec g = im_exec f \<and> im_fsize g = im_fsize f"
  by (auto simp: init_header_at_def InitDCDListOfCommands_def Let_def split: option.splits if_splits)

section \<open>Reading\<close>

lemma mem32_at: "m = pre @ le32 v @ post \<Longrightarrow> mem32 m (length pre) = Some v"
  by (simp add: mem32_def mem_read_def)

lemma mem32_None: "length m < p + 4 \<Longrightarrow> mem32 m p = None"
  by (simp add: mem32_def mem_read_def)

text \<open>An image of fewer than 2052 bytes is read beyond its end, whatever it holds: the third
  place at which a header is looked for is always looked at.\<close>

theorem small_image_overread:
  assumes "im_exec f = Some m" "length m < 0x804"
  shows "InitHeader f = None"
proof -
  have "mem32 m 0x800 = None" using assms(2) by (intro mem32_None) simp
  then have "init_header_at m 0x800 g = None" for g by (simp add: init_header_at_def)
  then show ?thesis using assms(1) by (simp add: InitHeader_def split: option.split)
qed

theorem small_image_overread_witness:
  "InitHeader ((new_ImxFirmware 0)\<lparr>im_exec := Some (le32 kImx53Barker @ replicate 100 0)\<rparr>) = None"
  by (rule small_image_overread) (simp, simp add: numeral_eq_Suc)

text \<open>Pairs as they lie in the image.\<close>

definition pair_bytes :: "DCDPair \<Rightarrow> byte list" where
  "pair_bytes p = le32 (fst p) @ le32 (snd p)"

lemma length_pair_bytes [simp]: "length (pair_bytes p) = 8"
  by (simp add: pair_bytes_def)

lemma mem32_pair:
  "m = pre @ pair_bytes p @ post \<Longrightarrow>
   mem32 m (length pre) = Some (fst p) \<and> mem32 m (length pre + 4) = Some (snd p)"
  using mem32_at [of m pre "fst p" "le32 (snd p) @ post"]
    mem32_at [of m "pre @ le32 (fst p)" "snd p" post]
  by (simp add: pair_bytes_def)

text \<open>All pairs up to the first that is zero, or as many as the command may have.\<close>

lemma pairs_until_zero:
  assumes "m = pre @ concat (map pair_bytes ps) @ pair_bytes (0, 0) @ post"
    and "(0, 0) \<notin> set ps" "length ps < n"
  shows "InitDCDListOfCommandsPairs m (length pre) n = Some (ps, length pre + 8 * length ps)"
  using assms
proof (induction ps arbitrary: pre n)
  case Nil
  then show ?case using mem32_pair [of m pre "(0, 0)" post] by (cases n) auto
next
  case (Cons p ps)
  then obtain k where k: "n = Suc k" by (cases n) auto
  have m: "m = (pre @ pair_bytes p) @ concat (map pair_bytes ps) @ pair_bytes (0, 0) @ post"
    using Cons.prems(1) by simp
  from mem32_pair [of m pre p "concat (map pair_bytes ps) @ pair_bytes (0, 0) @ post"] Cons.prems(1)
  have r: "mem32 m (length pre) = Some (fst p)" "mem32 m (length pre + 4) = Some (snd p)" by simp_all
  have "\<not> (fst p = 0 \<and> snd p = 0)" using Cons.prems(2) by (cases p) auto
  with Cons.IH [OF m, of k] Cons.prems(2,3) r k show ?case by (simp add: prod_eq_iff)
qed

lemma pairs_all:
  assumes "m = pre @ concat (map pair_bytes ps) @ post" and "(0, 0) \<notin> set ps"
  shows "InitDCDListOfCommandsPairs m (length pre) (length ps) = Some (ps, length pre + 8 * length ps)"
  using assms
proof (induction ps arbitrary: pre)
  case (Cons p ps)
  have m: "m = (pre @ pair_bytes p) @ concat (map pair_bytes ps) @ post"
    using Cons.prems(1) by simp
  from mem32_pair [of m pre p "concat (map pair_bytes ps) @ post"] Cons.prems(1)
  have r: "mem32 m (length pre) = Some (fst p)" "mem32 m (length pre + 4) = Some (snd p)" by simp_all
  have "\<not> (fst p = 0 \<and> snd p = 0)" using Cons.prems(2) by (cases p) auto
  with Cons.IH [OF m] Cons.prems(2) r show ?case by (simp add: prod_eq_iff)
qed simp

section \<open>What is found\<close>

text \<open>The header of a DCD with a list of register writes, as the i.MX53 manual lays it out: tag,
  length with the high byte first, version \<open>0x40\<close>; tag, length, parameter.\<close>

definition dcd_head :: "byte \<Rightarrow> byte \<Rightarrow> byte list" where
  "dcd_head hi lo = [kTag_DCD, hi, lo, 0x40]"

definition cmd_head :: "byte \<Rightarrow> byte \<Rightarrow> byte list" where
  "cmd_head hi lo = [kTag_Cmd, hi, lo, 0x04]"

lemma length_heads [simp]: "length (dcd_head hi lo) = 4" "length (cmd_head hi lo) = 4"
  by (simp_all add: dcd_head_def cmd_head_def)

lemma kAmount_many: "127 \<le> kAmount (mk16 lo 0x04)"
  by (simp add: kAmount_def unat_mk16)

lemma mem8_at: "m = pre @ b # post \<Longrightarrow> mem8 m (length pre) = Some b"
  by (simp add: mem8_def)

lemma mem16_at: "m = pre @ a # b # post \<Longrightarrow> mem16 m (length pre) = Some (mk16 a b)"
  by (simp add: mem16_def mem_read_def)

lemma head_fields:
  assumes "m = pre @ [t, a, b, c] @ d # post"
  shows "mem8 m (length pre) = Some t" "mem16 m (length pre + 2) = Some (mk16 b c)"
    "mem8 m (length pre + 4) = Some d"
  using assms by (simp_all add: mem8_def mem16_def mem_read_def nth_append)

text \<open>A list of writes up to the first zero pair, with what follows its first command.\<close>

lemma cmds_until_zero:
  assumes "m = pre @ cmd_head hi lo @ concat (map pair_bytes ps) @ pair_bytes (0, 0) @ post"
    and "(0, 0) \<notin> set ps" "length ps < 127" "length pre < e"
  shows "\<exists>len par. dcd_cmds m (length pre) e
    = Some [\<lparr>c_tag = kTag_Cmd, c_length = len, c_parameter = par, c_pairs = ps\<rparr>]"
proof -
  obtain d rest where d: "concat (map pair_bytes ps) @ pair_bytes (0, 0) @ post = d # rest"
    by (cases "concat (map pair_bytes ps) @ pair_bytes (0, 0) @ post")
      (auto simp: pair_bytes_def le32_def)
  have "m = pre @ [kTag_Cmd, hi, lo, 0x04] @ d # rest"
    using assms(1) d by (simp add: cmd_head_def)
  note h = head_fields [OF this]
  have "m = (pre @ cmd_head hi lo) @ concat (map pair_bytes ps) @ pair_bytes (0, 0) @ post"
    using assms(1) by simp
  from pairs_until_zero [OF this assms(2), of "kAmount (mk16 lo 0x04)"] kAmount_many [of lo] assms(3)
  have p: "InitDCDListOfCommandsPairs m (length pre + 4) (kAmount (mk16 lo 0x04))
      = Some (ps, length pre + 4 + 8 * length ps)"
    by simp
  define q where "q = length pre + 4 + 8 * length ps"
  have "m = (pre @ cmd_head hi lo @ concat (map pair_bytes ps)) @ [0, 0, 0, 0] @ 0 # [0, 0, 0] @ post"
    using assms(1) by (simp add: pair_bytes_def le32_def)
  moreover have "length (pre @ cmd_head hi lo @ concat (map pair_bytes ps)) = q"
    by (simp add: q_def length_concat comp_def sum_list_triv)
  ultimately have z: "mem8 m q = Some 0" "mem16 m (q + 2) = Some (mk16 0 0)" "mem8 m (q + 4) = Some 0"
    using head_fields by metis+
  have "dcd_cmds m q e = Some []"
    using z dcd_cmds.simps [of m q e] by (simp add: kTag_Cmd_def)
  with h p [folded q_def] assms(4) show ?thesis
    by (subst dcd_cmds.simps) simp
qed

lemma header_found:
  assumes "ivt_at m p = Some ivt" "i_barker ivt = kImx53Barker" "i_dcd_ptr ivt \<noteq> 0"
    and "m = pre @ dcd_head hi lo @ cmd_head ch cl @ concat (map pair_bytes ps) @ pair_bytes (0, 0) @ post"
    and "length pre = unat (i_dcd_ptr ivt - i_self_ptr ivt)"
    and "(0, 0) \<notin> set ps" "length ps < 127"
  shows "\<exists>g len par. init_header_at m p f = Some g \<and> im_header g = Some p \<and>
    im_boot g = Some (unat (i_boot_data_ptr ivt - i_self_ptr ivt)) \<and>
    im_cmds g = im_cmds f @ [\<lparr>c_tag = kTag_Cmd, c_length = len, c_parameter = par, c_pairs = ps\<rparr>]"
proof -
  let ?d = "unat (i_dcd_ptr ivt - i_self_ptr ivt)"
  have "m = pre @ [kTag_DCD, hi, lo, 0x40] @ kTag_Cmd # [ch, cl, 0x04] @
      concat (map pair_bytes ps) @ pair_bytes (0, 0) @ post"
    using assms(4) by (simp add: dcd_head_def cmd_head_def)
  note h = head_fields [OF this, unfolded assms(5)]
  let ?g = "f\<lparr>im_boot := Some (unat (i_boot_data_ptr ivt - i_self_ptr ivt)), im_tag := kTag_DCD,
    im_length := mk16 lo 0x40, im_version := kTag_Cmd\<rparr>"
  have len: "unat (mk16 lo 0x40) = 16384 + unat lo" by (simp add: unat_mk16)
  have ne: "mk16 lo 0x40 \<noteq> 4"
  proof
    assume "mk16 lo 0x40 = 4"
    with len show False by simp
  qed
  have "m = (pre @ dcd_head hi lo) @ cmd_head ch cl @ concat (map pair_bytes ps) @ pair_bytes (0, 0) @ post"
    using assms(4) by simp
  from cmds_until_zero [OF this assms(6,7), of "?d + 4 + unat (mk16 lo 0x40) - 4"] assms(5) len
  obtain l r where c: "dcd_cmds m (?d + 4) (?d + 4 + unat (mk16 lo 0x40) - 4)
      = Some [\<lparr>c_tag = kTag_Cmd, c_length = l, c_parameter = r, c_pairs = ps\<rparr>]"
    by auto
  have "mem32 m p = Some kImx53Barker"
    using assms(1,2) by (auto simp: ivt_at_def split: option.splits)
  with assms(1-3) h c ne show ?thesis
    by (auto simp: init_header_at_def InitDCDListOfCommands_def Let_def)
qed

text \<open>A place without the word that marks a header changes nothing; there are three places.\<close>

lemma no_header_at: "mem32 m q = Some b \<Longrightarrow> b \<noteq> kImx53Barker \<Longrightarrow> init_header_at m q f = Some f"
  by (simp add: init_header_at_def)

definition header_places :: "nat set" where
  "header_places = {0, 0x400, 0x800}"

text \<open>The file has a header at one of the places only, and is long enough to be looked at at all of them.\<close>

definition only_header_at :: "byte list \<Rightarrow> nat \<Rightarrow> bool" where
  "only_header_at m p \<longleftrightarrow> p \<in> header_places \<and> 0x804 \<le> length m \<and>
     (\<forall>q \<in> header_places - {p}. mem32 m q \<noteq> Some kImx53Barker)"

lemma InitHeader_one:
  assumes "only_header_at m p" "im_exec f = Some m"
  shows "InitHeader f = init_header_at m p f"
proof -
  have some: "\<exists>b. mem32 m q = Some b" if "q \<in> header_places" for q
    using that assms(1) by (auto simp: only_header_at_def header_places_def mem32_def mem_read_def)
  have "init_header_at m q g = Some g" if "q \<in> header_places - {p}" for q g
    using some [of q] that assms(1) no_header_at by (fastforce simp: only_header_at_def)
  then show ?thesis
    using assms by (auto simp: InitHeader_def only_header_at_def header_places_def split: option.split)
qed


definition some_ivt :: "byte list" where
  "some_ivt = le32 kImx53Barker @ le32 0x70001000 @ replicate 4 0 @
     le32 0x70000020 @ le32 0x70000800 @ le32 0x70000000 @ replicate 8 0"

lemma some_ivt: "length some_ivt = 32"
  "ivt_at (some_ivt @ post) 0 = Some \<lparr>i_barker = kImx53Barker,
    i_start_addr = 0x70001000, i_dcd_ptr = 0x70000020, i_boot_data_ptr = 0x70000800,
    i_self_ptr = 0x70000000\<rparr>"
  by (simp_all add: some_ivt_def ivt_at_def mem32_def mem_read_def)

text \<open>An image with its header at the beginning and one write.\<close>

definition one_write :: "byte list" where
  "one_write = some_ivt @ dcd_head 0 16 @ cmd_head 0 12 @ concat (map pair_bytes [(5, 6)]) @
     pair_bytes (0, 0) @ replicate 0x800 0"

lemma one_write_zero:
  assumes "0x38 \<le> q" "q + 4 \<le> 0x838"
  shows "mem32 one_write q = Some 0"
proof -
  define k where "k = q - 56"
  have w: "one_write = (some_ivt @ dcd_head 0 16 @ cmd_head 0 12 @ pair_bytes (5, 6) @
      pair_bytes (0, 0)) @ replicate k 0 @ [0, 0, 0, 0] @ replicate (2044 - k) 0"
  proof -
    have "replicate 4 (0::byte) = [0, 0, 0, 0]" by (simp add: numeral_eq_Suc)
    then have "replicate k 0 @ [0, 0, 0, 0] @ replicate (2044 - k) 0 = replicate (k + (4 + (2044 - k))) (0::byte)"
      by (metis replicate_add)
    also have "k + (4 + (2044 - k)) = 0x800" using assms by (simp add: k_def)
    finally show ?thesis by (simp add: one_write_def)
  qed
  have "q = length ((some_ivt @ dcd_head 0 16 @ cmd_head 0 12 @ pair_bytes (5, 6) @
      pair_bytes (0, 0)) @ replicate k 0)"
    using assms(1) by (simp add: some_ivt(1) k_def)
  then show ?thesis unfolding w by (simp add: mem32_def mem_read_def mk32_def)
qed


text \<open>A second list of writes is not recognised: its header and its first address are taken
  for a pair of the first list, and its values for the address of another.\<close>

theorem second_list_swallowed:
  assumes "ivt_at m p = Some ivt" "i_barker ivt = kImx53Barker" "i_dcd_ptr ivt \<noteq> 0"
    and "m = pre @ dcd_head hi lo @ cmd_head h1 l1 @ pair_bytes (a1, v1) @
             cmd_head h2 l2 @ pair_bytes (a2, v2) @ replicate 12 0 @ post"
    and "length pre = unat (i_dcd_ptr ivt - i_self_ptr ivt)"
    and "(a1, v1) \<noteq> (0, 0)" "v2 \<noteq> 0"
  shows "\<exists>g. init_header_at m p f = Some g \<and>
    map c_pairs (im_cmds g) = map c_pairs (im_cmds f) @
      [[(a1, v1), (of_le32 (cmd_head h2 l2), a2), (v2, 0)]]"
proof -
  let ?ps = "[(a1, v1), (of_le32 (cmd_head h2 l2), a2), (v2, 0)]"
  have "le32 (of_le32 (cmd_head h2 l2)) = cmd_head h2 l2" by (simp add: cmd_head_def)
  moreover have "replicate 12 (0::byte) = [0,0,0,0,0,0,0,0,0,0,0,0]" by (simp add: numeral_eq_Suc)
  ultimately have m: "m = pre @ dcd_head hi lo @ cmd_head h1 l1 @ concat (map pair_bytes ?ps) @
      pair_bytes (0, 0) @ post"
    using assms(4) by (simp add: pair_bytes_def) (simp add: le32_def)
  have "of_le32 (cmd_head h2 l2) \<noteq> 0"
  proof
    assume "of_le32 (cmd_head h2 l2) = 0"
    then have "cmd_head h2 l2 = le32 0" by (metis of_le32_cons cmd_head_def le32_mk32)
    then show False by (simp add: cmd_head_def le32_def kTag_Cmd_def)
  qed
  with assms(6,7) have nz: "(0, 0) \<notin> set ?ps" by auto
  obtain d rest where "concat (map pair_bytes ?ps) @ pair_bytes (0, 0) @ post = d # rest"
    by (auto simp: pair_bytes_def le32_def)
  from header_found [OF assms(1-3) m assms(5) nz, of f] show ?thesis by auto
qed

theorem second_list_swallowed_witness:
  "\<exists>g. init_header_at (some_ivt @ dcd_head 0 28 @ cmd_head 0 12 @ pair_bytes (5, 6) @
      cmd_head 0 12 @ pair_bytes (7, 8) @ replicate 12 0 @ []) 0 (new_ImxFirmware 0) = Some g \<and>
    map c_pairs (im_cmds g) = map c_pairs (im_cmds (new_ImxFirmware 0)) @
      [[(5, 6), (of_le32 (cmd_head 0 12), 7), (8, 0)]]"
  using second_list_swallowed [OF some_ivt(2), where pre = some_ivt and hi = 0 and lo = 28 and
      ?h1.0 = 0 and ?l1.0 = 12 and ?h2.0 = 0 and ?l2.0 = 12 and ?a1.0 = 5 and ?v1.0 = 6 and
      ?a2.0 = 7 and ?v2.0 = 8 and post = "[]" and f = "new_ImxFirmware 0"]
  by (simp add: some_ivt(1))

end
