(* ===== verification/Ymodem_Crc.thy ===== *)
theory Ymodem_Crc
  imports Regi_Prelude
begin

text \<open>
  \<open>YModem::Crc\<close> (regiloader/ymodem.hpp, ymodem.cpp): the table-driven CRC-16 of the YMODEM
  sender, and its equivalence with the bit-by-bit definition of the CRC with polynomial
  \<open>x^16 + x^12 + x^5 + 1\<close>.
\<close>

section \<open>The class\<close>

datatype InitialValue = kZeros | kNonZero1 | kNonZero2

fun InitialValue_val :: "InitialValue \<Rightarrow> u16" where
  "InitialValue_val kZeros = 0"
| "InitialValue_val kNonZero1 = 0xffff"
| "InitialValue_val kNonZero2 = 0x1D0F"

definition kPoly :: u16 where
  "kPoly = 0x1021"

definition kTableSz :: nat where
  "kTableSz = 256"

text \<open>The inner loop of the constructor: \<open>temp\<close> and \<open>a\<close> after \<open>j\<close> turns.\<close>

fun table_bits :: "nat \<Rightarrow> u16 \<Rightarrow> u16 \<Rightarrow> u16" where
  "table_bits 0 temp a = temp"
| "table_bits (Suc j) temp a =
     table_bits j
       (if (temp XOR a) AND 0x8000 \<noteq> 0 then push_bit 1 temp XOR kPoly else push_bit 1 temp)
       (push_bit 1 a)"

definition table_entry :: "nat \<Rightarrow> u16" where
  "table_entry i = table_bits 8 0 (push_bit 8 (word_of_nat i))"

record Crc =
  crc_table :: "u16 list"
  crc_ini :: u16

definition new_Crc :: "InitialValue \<Rightarrow> Crc" where
  "new_Crc val = \<lparr>crc_table = map table_entry [0..<kTableSz], crc_ini = InitialValue_val val\<rparr>"

text \<open>The bytes of the result are exchanged: on the wire the high byte comes first.\<close>

definition crc_step :: "u16 list \<Rightarrow> u16 \<Rightarrow> byte \<Rightarrow> u16" where
  "crc_step table crc b =
     push_bit 8 crc XOR table ! unat (drop_bit 8 crc XOR (0xff AND ucast b))"

definition crc_swap :: "u16 \<Rightarrow> u16" where
  "crc_swap crc = drop_bit 8 crc OR push_bit 8 (crc AND 0xFF)"

definition Compute :: "Crc \<Rightarrow> byte list \<Rightarrow> u16" where
  "Compute c data = crc_swap (foldl (crc_step (crc_table c)) (crc_ini c) data)"

section \<open>The CRC bit by bit\<close>

definition crc_bit :: "u16 \<Rightarrow> u16" where
  "crc_bit x = (if bit x 15 then push_bit 1 x XOR kPoly else push_bit 1 x)"

definition crc_byte :: "u16 \<Rightarrow> byte \<Rightarrow> u16" where
  "crc_byte crc b = (crc_bit ^^ 8) (crc XOR push_bit 8 (ucast b))"

definition crc16 :: "u16 \<Rightarrow> byte list \<Rightarrow> u16" where
  "crc16 ini data = foldl crc_byte ini data"

lemma crc_bit_xor: "crc_bit (x XOR y) = crc_bit x XOR crc_bit y"
proof (rule bit_word_eqI)
  fix n assume n: "n < LENGTH(16)"
  show "bit (crc_bit (x XOR y)) n = bit (crc_bit x XOR crc_bit y) n"
    using n by (auto simp: crc_bit_def bit_simps)
qed

lemma crc_bits_xor: "(crc_bit ^^ k) (x XOR y) = (crc_bit ^^ k) x XOR (crc_bit ^^ k) y"
  by (induction k) (simp_all add: crc_bit_xor)

text \<open>Bits that do not reach the top are only shifted.\<close>

lemma crc_bits_shift:
  "(\<And>n. 16 - k \<le> n \<Longrightarrow> \<not> bit x n) \<Longrightarrow> k \<le> 16 \<Longrightarrow> (crc_bit ^^ k) x = push_bit k x"
proof (induction k arbitrary: x)
  case (Suc k)
  have "\<not> bit x 15" using Suc.prems by simp
  then have 1: "crc_bit x = push_bit 1 x" by (simp add: crc_bit_def)
  have "(crc_bit ^^ Suc k) x = (crc_bit ^^ k) (crc_bit x)"
    by (simp only: funpow_Suc_right comp_apply)
  also have "\<dots> = (crc_bit ^^ k) (push_bit 1 x)" by (simp only: 1)
  also have "\<dots> = push_bit k (push_bit 1 x)"
  proof (rule Suc.IH)
    fix n assume n: "16 - k \<le> n"
    then have "\<not> bit x (n - 1)" using Suc.prems by simp
    then show "\<not> bit (push_bit 1 x) n" unfolding bit_push_bit_iff by simp
  qed (use Suc.prems in simp)
  finally show ?case by simp
qed simp

lemma and_0x8000: "(x :: u16) AND 0x8000 \<noteq> 0 \<longleftrightarrow> bit x 15"
proof -
  have "(0x8000 :: u16) = 2 ^ 15" by simp
  then show ?thesis by (simp only: and_exp_eq_0_iff_not_bit not_not)
qed

text \<open>The two shifted words of the table's loop are one: their sum is what the CRC register holds.\<close>

lemma table_bits_crc:
  "table_bits j temp a XOR push_bit j a = (crc_bit ^^ j) (temp XOR a)"
proof (induction j arbitrary: temp a)
  case (Suc j)
  have "(if (temp XOR a) AND 0x8000 \<noteq> 0 then push_bit 1 temp XOR kPoly else push_bit 1 temp)
      XOR push_bit 1 a = crc_bit (temp XOR a)"
    unfolding and_0x8000 crc_bit_def by (simp add: push_bit_xor xor.assoc xor.commute xor.left_commute)
  moreover have "push_bit (Suc j) a = push_bit j (push_bit 1 a)"
    by (simp add: push_bit_push_bit del: push_bit_Suc)
  ultimately show ?case
    using Suc.IH by (simp only: table_bits.simps funpow_Suc_right comp_apply)
qed simp

lemma table_entry_crc:
  assumes "i < 256"
  shows "table_entry i = (crc_bit ^^ 8) (push_bit 8 (word_of_nat i))"
proof -
  have "push_bit 8 (push_bit 8 (word_of_nat i :: u16)) = 0"
    by (rule bit_word_eqI) (auto simp: bit_simps)
  with table_bits_crc [of 8 0 "push_bit 8 (word_of_nat i)"] show ?thesis
    by (simp add: table_entry_def)
qed

text \<open>One byte through the table is one byte bit by bit.\<close>

lemma ff_mask: "(0xff :: u16) = mask 8"
  by (simp add: mask_eq_exp_minus_1)

lemma crc_step_byte: "crc_step (crc_table (new_Crc v)) crc b = crc_byte crc b"
proof -
  define h where "h = (drop_bit 8 crc XOR (0xff AND ucast b) :: u16)"
  have hb: "bit h n \<longleftrightarrow> n < 8 \<and> (bit crc (n + 8) \<noteq> bit b n)" for n
    unfolding h_def ff_mask
    by (auto simp: bit_simps add.commute dest: bit_imp_le_length)
  have "h = take_bit 8 h" by (rule bit_word_eqI) (auto simp: bit_simps hb)
  then have "unat h = take_bit 8 (unat h)" by (metis unsigned_take_bit_eq)
  then have h: "unat h < 256" by (simp add: take_bit_eq_mod)
  have split: "crc XOR push_bit 8 (ucast b) = push_bit 8 h XOR take_bit 8 crc"
    by (rule bit_word_eqI) (auto simp: bit_simps hb dest: bit_imp_le_length)
  have "(crc_bit ^^ 8) (take_bit 8 crc) = push_bit 8 (take_bit 8 crc)"
    by (rule crc_bits_shift) (auto simp: bit_simps)
  also have "\<dots> = push_bit 8 crc" by (rule bit_word_eqI) (auto simp: bit_simps)
  finally have low: "(crc_bit ^^ 8) (take_bit 8 crc) = push_bit 8 crc" .
  have "crc_byte crc b = (crc_bit ^^ 8) (push_bit 8 h) XOR push_bit 8 crc"
    unfolding crc_byte_def split crc_bits_xor low ..
  moreover have "crc_table (new_Crc v) ! unat h = (crc_bit ^^ 8) (push_bit 8 h)"
    using h by (simp add: new_Crc_def kTableSz_def table_entry_crc)
  ultimately show ?thesis by (simp add: crc_step_def h_def [symmetric] xor.commute)
qed

lemma Compute_crc16: "Compute (new_Crc v) data = crc_swap (crc16 (InitialValue_val v) data)"
  unfolding Compute_def crc16_def crc_step_byte [abs_def] by (simp add: new_Crc_def)

text \<open>C5: the table-driven \<open>Compute\<close> is the CRC computed bit by bit, for every initial value and
  all data, with the two bytes of the result exchanged.\<close>

theorem Compute_is_crc16:
  "Compute (new_Crc v) data = crc_swap (crc16 (InitialValue_val v) data)"
  by (rule Compute_crc16)

text \<open>The bytes that follow the data on the wire: the result as it lies in memory.\<close>

lemma le16_crc_swap: "le16 (crc_swap w) = [ucast (drop_bit 8 w), ucast w]"
  unfolding le16_def crc_swap_def ff_mask
  by (simp, intro conjI; rule bit_word_eqI)
    (auto simp: bit_simps dest: bit_imp_le_length)

lemma crc_byte_high: "crc_byte w (ucast (drop_bit 8 w)) = push_bit 8 w"
proof -
  have "w XOR push_bit 8 (ucast (ucast (drop_bit 8 w) :: byte)) = take_bit 8 w"
    by (rule bit_word_eqI) (auto simp: bit_simps dest: bit_imp_le_length)
  moreover have "(crc_bit ^^ 8) (take_bit 8 w) = push_bit 8 (take_bit 8 w)"
    by (rule crc_bits_shift) (auto simp: bit_simps)
  moreover have "push_bit 8 (take_bit 8 w) = push_bit 8 w"
    by (rule bit_word_eqI) (auto simp: bit_simps)
  ultimately show ?thesis by (simp add: crc_byte_def)
qed

lemma crc_byte_low: "crc_byte (push_bit 8 w) (ucast w) = 0"
proof -
  have "push_bit 8 w XOR push_bit 8 (ucast (ucast w :: byte)) = 0"
    by (rule bit_word_eqI) (auto simp: bit_simps dest: bit_imp_le_length)
  moreover have "(crc_bit ^^ 8) 0 = 0"
    using crc_bits_shift [of 8 0] by simp
  ultimately show ?thesis by (simp add: crc_byte_def)
qed

lemma crc_residue: "crc16 0 (data @ le16 (Compute (new_Crc kZeros) data)) = 0"
  by (simp add: Compute_crc16 le16_crc_swap crc16_def crc_byte_high crc_byte_low)

text \<open>A receiver that runs the CRC over the data and the two bytes the sender appends gets
  zero, which is how it checks a block.\<close>

theorem crc_residue_zero:
  "crc16 0 (data @ le16 (Compute (new_Crc kZeros) data)) = 0"
  by (rule crc_residue)

end
