(* ===== verification/Ymodem_Send.thy ===== *)
theory Ymodem_Send
  imports Ymodem_Crc Regi_Stream
begin

text \<open>
  \<open>YModem\<close> (regiloader/ymodem.hpp, ymodem.cpp): the packets, their numbering, and \<open>SendFile\<close>.

  The serial port is the list of bytes written so far and the list of bytes that the board
  will answer; a read that finds none left waits forever (\<open>Starved\<close>).  \<open>boost::asio::write\<close>
  writes everything or throws; a throw ends the program and is not modelled.  The
  reference count of a frame and what is printed are left out.
\<close>

section \<open>Packets\<close>

definition kFrameSize :: nat where
  "kFrameSize = 1024"

datatype Signal = kSTX | kEOT | kACK | kNAK | kRequest

fun Signal_byte :: "Signal \<Rightarrow> byte" where
  "Signal_byte kSTX = 0x02"
| "Signal_byte kEOT = 0x04"
| "Signal_byte kACK = 0x06"
| "Signal_byte kNAK = 0x15"
| "Signal_byte kRequest = 67"

record YPacket =
  y_type :: Signal
  y_data :: "byte list option"

text \<open>The bytes that \<open>Packet::Send\<close> writes.\<close>

definition packet_bytes :: "YPacket \<Rightarrow> byte \<Rightarrow> byte list" where
  "packet_bytes p pkt_num =
     (case y_data p of
        None \<Rightarrow> [Signal_byte (y_type p)]
      | Some data \<Rightarrow>
          (if y_type p \<noteq> kSTX then [Signal_byte (y_type p)]
           else [Signal_byte (y_type p)] @ [pkt_num] @ [255 - pkt_num] @ data @
                le16 (Compute (new_Crc kZeros) data)))"

record YPort =
  y_out :: "byte list"
  y_in :: "byte list"
  y_num :: byte

text \<open>\<open>Sequence::Send\<close>; the sequence has its port.\<close>

definition seq_Send :: "YPacket \<Rightarrow> YPort \<Rightarrow> YPort" where
  "seq_Send p s =
     s\<lparr>y_out := y_out s @ packet_bytes p (y_num s),
       y_num := (if y_num s = 255 then 0 else y_num s + 1)\<rparr>"

definition seq_Reset :: "YPort \<Rightarrow> YPort" where
  "seq_Reset s = s\<lparr>y_num := 0\<rparr>"

section \<open>Responses\<close>

definition IsResponse :: "Signal \<Rightarrow> YPort \<Rightarrow> stop + (bool \<times> YPort)" where
  "IsResponse expect s =
     (case y_in s of
        [] \<Rightarrow> Inl Starved
      | r # rs \<Rightarrow> Inr (Signal_byte expect = r, s\<lparr>y_in := rs\<rparr>))"

fun wait_loop :: "nat \<Rightarrow> Signal \<Rightarrow> YPort \<Rightarrow> stop + (bool \<times> YPort)" where
  "wait_loop 0 expect s = Inr (False, s)"
| "wait_loop (Suc tries) expect s =
     (case IsResponse expect s of
        Inl x \<Rightarrow> Inl x
      | Inr (ok, s) \<Rightarrow> (if ok then Inr (True, s) else wait_loop tries expect s))"

definition WaitForResponse :: "Signal \<Rightarrow> YPort \<Rightarrow> stop + (bool \<times> YPort)" where
  "WaitForResponse expect s = wait_loop 255 expect s"

section \<open>Initial and closing packets\<close>

definition NewFrame :: "byte list" where
  "NewFrame = replicate kFrameSize 0"

text \<open>
  The loop over the messages: each is stored from the start of the frame, and a zero after the
  total of the lengths so far; \<^theory_text>\<open>None\<close> where the frame is too short.
\<close>

fun init_frame :: "string list \<Rightarrow> nat \<Rightarrow> byte list \<Rightarrow> byte list option" where
  "init_frame [] tot frame = Some frame"
| "init_frame (msg # msgs) tot frame =
     (if length msg \<le> length frame \<and> tot + length msg < length frame
      then init_frame msgs (tot + length msg + 1)
             ((overwrite frame 0 (of_string msg))[tot + length msg := 0])
      else None)"

definition SendInitialPkt :: "string list \<Rightarrow> YPort \<Rightarrow> stop + (bool \<times> YPort)" where
  "SendInitialPkt msg s =
     (if msg = [] then Inr (False, s)
      else (case init_frame msg 0 NewFrame of
              None \<Rightarrow> Inl OutOfBounds
            | Some frame \<Rightarrow> IsResponse kACK (seq_Send \<lparr>y_type = kSTX, y_data = Some frame\<rparr> s)))"

definition SendClosingPkt :: "YPort \<Rightarrow> stop + (bool \<times> YPort)" where
  "SendClosingPkt s =
     IsResponse kACK (seq_Send \<lparr>y_type = kSTX, y_data = Some NewFrame\<rparr> (seq_Reset s))"

section \<open>SendFile\<close>

text \<open>
  The loop over the blocks.  Each turn takes one byte of the answers, so that the recursion
  is on those.  The percentage is computed after each acknowledged block.
\<close>

fun send_blocks :: "nat \<Rightarrow> FStream \<Rightarrow> nat \<Rightarrow> byte list \<Rightarrow> YPort \<Rightarrow> stop + YPort" where
  "send_blocks kFileSize f was_send [] s = Inl Starved"
| "send_blocks kFileSize f was_send (r # rs) s =
     (let (d, f) = fs_read kFrameSize f;
          kWasRead = length d;
          frame = d @ replicate (kFrameSize - kWasRead) 0;
          s = (seq_Send \<lparr>y_type = kSTX, y_data = Some frame\<rparr> s)\<lparr>y_in := rs\<rparr>;
          was_send = was_send + kWasRead
      in if r \<noteq> Signal_byte kACK then Inr s
         else if kFileSize = 0 then Inl DivByZero
         else if was_send < kFileSize then send_blocks kFileSize f was_send rs s
         else Inr s)"

definition andthen :: "stop + (bool \<times> YPort) \<Rightarrow> (bool \<Rightarrow> YPort \<Rightarrow> stop + (bool \<times> YPort)) \<Rightarrow>
    stop + (bool \<times> YPort)" where
  "andthen r k = (case r of Inl x \<Rightarrow> Inl x | Inr (ok, s) \<Rightarrow> k ok s)"

definition eot :: YPacket where
  "eot = \<lparr>y_type = kEOT, y_data = None\<rparr>"

text \<open>
  The end of \<open>SendFile\<close>, after the blocks; no answer matters.
\<close>

definition finish_file :: "YPort \<Rightarrow> stop + (bool \<times> YPort)" where
  "finish_file s =
     andthen (IsResponse kACK (seq_Send eot s)) (\<lambda>_ s.
     andthen (IsResponse kACK (seq_Send eot s)) (\<lambda>_ s.
     andthen (IsResponse kRequest s) (\<lambda>_ s.
     andthen (SendClosingPkt s) (\<lambda>_ s. Inr (True, s)))))"

text \<open>\<open>buf\<close> holds the size as a 32-bit number, cut to 23 characters.\<close>

definition size_text :: "nat \<Rightarrow> string" where
  "size_text kFileSize = take 23 (show_dec (kFileSize mod 2 ^ 32))"

definition SendFile :: "files \<Rightarrow> bool \<Rightarrow> string \<Rightarrow> YPort \<Rightarrow> stop + (bool \<times> YPort)" where
  "SendFile files open_port path s =
     (if length path = 0 \<or> \<not> open_port then Inr (False, s)
      else (let f = fs_opened files path in
            if \<not> fs_open f then Inr (False, s)
            else (let kFileSize = length (fs_data f) in
                  andthen (WaitForResponse kRequest s) (\<lambda>_ s.
                  andthen (SendInitialPkt [path, size_text kFileSize] (s\<lparr>y_num := 0\<rparr>)) (\<lambda>_ s.
                  andthen (IsResponse kRequest s) (\<lambda>ok s.
                    if \<not> ok then Inr (False, s)
                    else (case send_blocks kFileSize f 0 (y_in s) s of
                            Inl x \<Rightarrow> Inl x
                          | Inr s \<Rightarrow> finish_file s)))))))"

section \<open>A receiver\<close>

text \<open>A block as a YMODEM receiver takes it: number, complement and CRC must be right.\<close>

definition block_bytes :: "byte \<Rightarrow> byte list \<Rightarrow> byte list" where
  "block_bytes n d = [0x02, n, 255 - n] @ d @ le16 (Compute (new_Crc kZeros) d)"

fun receive_blocks :: "nat \<Rightarrow> byte \<Rightarrow> byte list \<Rightarrow> byte list option" where
  "receive_blocks 0 n w = Some []"
| "receive_blocks (Suc k) n w =
     (let d = take kFrameSize (drop 3 w); crc = take 2 (drop (3 + kFrameSize) w) in
      if length w \<ge> 3 + kFrameSize + 2 \<and> w ! 0 = 0x02 \<and> w ! 1 = n \<and> w ! 2 = 255 - n \<and>
         crc16 0 (d @ crc) = 0
      then map_option ((@) d) (receive_blocks k (n + 1) (drop (3 + kFrameSize + 2) w))
      else None)"

lemma receive_block:
  assumes "length d = kFrameSize"
  shows "receive_blocks (Suc k) n (block_bytes n d @ w)
    = map_option ((@) d) (receive_blocks k (n + 1) w)"
proof -
  let ?w = "block_bytes n d @ w" and ?c = "le16 (Compute (new_Crc kZeros) d)"
  have 3: "drop 3 ?w = d @ ?c @ w" by (simp add: block_bytes_def)
  have "drop (3 + kFrameSize) ?w = drop kFrameSize (drop 3 ?w)"
    by (simp only: drop_drop add.commute)
  also have "\<dots> = ?c @ w" unfolding 3 using assms by simp
  finally have c: "drop (3 + kFrameSize) ?w = ?c @ w" .
  have "drop (3 + kFrameSize + 2) ?w = drop 2 (drop (3 + kFrameSize) ?w)"
    by (simp only: drop_drop add.commute)
  also have "\<dots> = w" unfolding c by simp
  finally have r: "drop (3 + kFrameSize + 2) ?w = w" .
  have h: "?w ! 0 = 0x02" "?w ! 1 = n" "?w ! 2 = 255 - n" "length ?w \<ge> 3 + kFrameSize + 2"
    using assms by (simp_all add: block_bytes_def)
  show ?thesis
    unfolding receive_blocks.simps Let_def r c 3
    using h assms crc_residue [of d] by simp
qed

declare receive_blocks.simps(2) [simp del]

lemma seq_Send_frame [simp]:
  "y_in (seq_Send p s) = y_in s" "y_num (seq_Send p s) = y_num s + 1"
  by (auto simp: seq_Send_def)

lemma seq_Send_block:
  "y_out (seq_Send \<lparr>y_type = kSTX, y_data = Some d\<rparr> s) = y_out s @ block_bytes (y_num s) d"
  by (simp add: seq_Send_def packet_bytes_def block_bytes_def)

text \<open>The blocks of a file, each filled up with zeros.\<close>

fun file_blocks :: "byte \<Rightarrow> byte list list \<Rightarrow> byte list" where
  "file_blocks n [] = []"
| "file_blocks n (d # ds) =
     block_bytes n (d @ replicate (kFrameSize - length d) 0) @ file_blocks (n + 1) ds"

lemma receive_file_blocks:
  "\<forall>d \<in> set ds. length d \<le> kFrameSize \<Longrightarrow>
   receive_blocks (length ds) n (file_blocks n ds @ w)
     = Some (concat (map (\<lambda>d. d @ replicate (kFrameSize - length d) 0) ds))"
  by (induction ds arbitrary: n) (simp_all add: receive_block)

text \<open>All blocks are acknowledged.\<close>

lemma send_blocks_acked:
  assumes "fs_good f" "fs_rest f \<noteq> []" "length (fs_rest f) + was_send = sz"
    and "length acks = length (chunks kFrameSize (fs_rest f))" "set acks \<subseteq> {Signal_byte kACK}"
  shows "\<exists>t. send_blocks sz f was_send (acks @ rs) s = Inr t \<and>
    y_out t = y_out s @ file_blocks (y_num s) (chunks kFrameSize (fs_rest f)) \<and> y_in t = rs"
  using assms
proof (induction acks arbitrary: f was_send s)
  case Nil
  then show ?case by (simp add: chunks_step kFrameSize_def)
next
  case (Cons a acks)
  have pos: "0 < kFrameSize" by (simp add: kFrameSize_def)
  let ?d = "take kFrameSize (fs_rest f)" and ?g = "snd (fs_read kFrameSize f)"
  have d: "fst (fs_read kFrameSize f) = ?d" "fs_rest ?g = drop kFrameSize (fs_rest f)"
    using Cons.prems(1) by (simp_all add: fs_read_fst fs_read_rest)
  have ch: "chunks kFrameSize (fs_rest f) = ?d # chunks kFrameSize (fs_rest ?g)"
    using chunks_step [OF Cons.prems(2) pos] d by simp
  let ?s = "(seq_Send \<lparr>y_type = kSTX, y_data = Some (?d @ replicate (kFrameSize - length ?d) 0)\<rparr> s)
      \<lparr>y_in := acks @ rs\<rparr>"
  have unf: "send_blocks sz f was_send ((a # acks) @ rs) s =
      (if was_send + length ?d < sz then send_blocks sz ?g (was_send + length ?d) (acks @ rs) ?s
       else Inr ?s)"
  proof -
    have "sz \<noteq> 0" "a = Signal_byte kACK" using Cons.prems(2,3,5) by auto
    with d(1) show ?thesis by (simp add: case_prod_unfold Let_def)
  qed
  show ?case
  proof (cases "fs_rest ?g = []")
    case True
    then have "length (fs_rest f) \<le> kFrameSize" using d by simp
    then have "\<not> was_send + length ?d < sz" using Cons.prems(3) by simp
    moreover have "acks = []" using Cons.prems(4) ch True by simp
    ultimately show ?thesis unfolding unf using ch True by (simp add: seq_Send_block)
  next
    case False
    have good: "fs_good ?g" using False Cons.prems(1) d by (simp add: fs_read_good)
    have "length (fs_rest ?g) + (was_send + length ?d) = sz" "was_send + length ?d < sz"
      using False d Cons.prems(3) by auto
    with Cons.IH [OF good False, of "was_send + length ?d" ?s] Cons.prems(4,5) ch show ?thesis
      unfolding unf by (simp add: seq_Send_block)
  qed
qed

lemma take_padded_chunks:
  assumes "0 < n"
  shows "take (length xs) (concat (map (\<lambda>d. d @ replicate (n - length d) z) (chunks n xs))) = xs"
  using assms
proof (induction n xs rule: chunks.induct)
  case (1 n xs)
  show ?case
  proof (cases "xs = []")
    case False
    let ?r = "concat (map (\<lambda>d. d @ replicate (n - length d) z) (chunks n (drop n xs)))"
    have c: "concat (map (\<lambda>d. d @ replicate (n - length d) z) (chunks n xs))
        = take n xs @ replicate (n - length xs) z @ ?r"
      using chunks_step [OF False 1(2)] by simp
    show ?thesis
    proof (cases "length xs \<le> n")
      case True
      then show ?thesis unfolding c by simp
    next
      case shorter: False
      have "take (length xs - n) ?r = drop n xs" using 1(1) False 1(2) by simp
      with shorter show ?thesis unfolding c by simp
    qed
  qed simp
qed

section \<open>What SendFile does\<close>

text \<open>
  The initial block of two messages: the second one lies over the beginning of the first, and
  both zeros are stored where the frame is zero anyway.
\<close>

lemma update_replicate [simp]: "(replicate k z)[i := z] = replicate k z"
proof (rule nth_equalityI)
  fix j assume "j < length ((replicate k z)[i := z])"
  then show "(replicate k z)[i := z] ! j = replicate k z ! j"
    by (cases "i = j") simp_all
qed simp

definition overlaid :: "string \<Rightarrow> string \<Rightarrow> byte list" where
  "overlaid a b =
     of_string (b @ drop (length b) a) @ replicate (kFrameSize - max (length a) (length b)) 0"

lemma length_overlaid: "length a \<le> kFrameSize \<Longrightarrow> length b \<le> kFrameSize \<Longrightarrow> length (overlaid a b) = kFrameSize"
  by (simp add: overlaid_def)

lemma init_frame_two:
  assumes "length a + 1 + length b < kFrameSize"
  shows "init_frame [a, b] 0 NewFrame = Some (overlaid a b)"
proof -
  define k where "k = kFrameSize - length a"
  have k: "length NewFrame = length a + k" "0 < k" "1 + length b < k"
    using assms by (simp_all add: NewFrame_def k_def)
  have f: "NewFrame = replicate (length a) 0 @ replicate k 0"
    using assms by (simp add: NewFrame_def k_def flip: replicate_add)
  have 1: "(overwrite NewFrame 0 (of_string a))[length a := 0] = of_string a @ replicate k 0"
    using k(2) by (simp add: overwrite_def f list_update_append)
  have m: "k - (length b - length a) = kFrameSize - max (length a) (length b)"
    by (auto simp: k_def)
  have ov: "overwrite (of_string a @ replicate k 0) 0 (of_string b) = overlaid a b"
    by (simp add: overwrite_def overlaid_def of_string_def drop_map m)
  have "length (of_string (b @ drop (length b) a)) \<le> length a + 1 + length b" by simp
  then have 2: "(overlaid a b)[length a + 1 + length b := 0] = overlaid a b"
    by (simp only: overlaid_def list_update_append not_less update_replicate if_False)
       (simp only: not_less [symmetric] if_False)
  show ?thesis using 1 2 ov k by (simp add: k_def [symmetric])
qed

lemma SendInitialPkt_two:
  assumes "length a + 1 + length b < kFrameSize"
  shows "SendInitialPkt [a, b] s =
    IsResponse kACK (seq_Send \<lparr>y_type = kSTX, y_data = Some (overlaid a b)\<rparr> s)"
  using init_frame_two [OF assms] by (simp add: SendInitialPkt_def del: init_frame.simps)

text \<open>The initial block should hold the name of the file, a zero and its size.  Both
  messages are stored from the start of the frame, so for a name that is at least as long as
  the size the block holds the digits of the size and then the rest of the name.\<close>

theorem initial_block_overlaid:
  assumes "length b \<le> length a" "length a + 1 + length b < kFrameSize" "y_in s = r # rs"
  shows "\<exists>t. SendInitialPkt [a, b] s = Inr (r = Signal_byte kACK, t) \<and>
    y_out t = y_out s @ block_bytes (y_num s)
      (of_string (b @ drop (length b) a) @ replicate (kFrameSize - length a) 0)"
  using assms by (auto simp: SendInitialPkt_two IsResponse_def seq_Send_block overlaid_def max_absorb1)

theorem initial_block_overlaid_witness:
  "\<exists>t. SendInitialPkt [''u-boot.bin'', ''12345''] \<lparr>y_out = [], y_in = [6], y_num = 0\<rparr>
      = Inr ((6::byte) = Signal_byte kACK, t) \<and>
    y_out t = y_out \<lparr>y_out = [], y_in = [6], y_num = 0\<rparr> @
      block_bytes (y_num \<lparr>y_out = [], y_in = [6], y_num = 0\<rparr>)
        (of_string (''12345'' @ drop (length ''12345'') ''u-boot.bin'') @
         replicate (kFrameSize - length ''u-boot.bin'') 0)"
  by (rule initial_block_overlaid) (simp_all add: kFrameSize_def)

text \<open>A name and a size that together do not leave room for the two zeros are stored beyond the block.\<close>

lemma SendInitialPkt_too_long:
  assumes "kFrameSize \<le> length a + 1 + length b"
  shows "SendInitialPkt [a, b] s = Inl OutOfBounds"
  using assms by (auto simp: SendInitialPkt_def NewFrame_def)

lemma wait_first: "y_in s = r # rs \<Longrightarrow> r = Signal_byte k \<Longrightarrow>
    WaitForResponse k s = Inr (True, s\<lparr>y_in := rs\<rparr>)"
  by (simp add: WaitForResponse_def numeral_eq_Suc IsResponse_def)

lemma size_text_length: "length (size_text n) \<le> 10"
  proof -
  have "n mod 2 ^ 32 < 10 ^ 10" by (rule less_trans [OF mod_less_divisor]) simp_all
  then have "length (show_dec (n mod 2 ^ 32)) \<le> 10" by (rule length_show_dec) simp
  then show ?thesis by (simp add: size_text_def min_le_iff_disj)
qed

text \<open>\<open>SendFile\<close> up to the blocks, for a path that leaves room for the size in the initial block.\<close>

lemma SendFile_starts:
  assumes "files path = Some bs" "path \<noteq> []" "length path + 11 < kFrameSize"
    and "y_in s = [67, a, 67] @ rs"
  defines "frame \<equiv> overlaid path (size_text (length bs))"
  shows "SendFile files True path s =
    (case send_blocks (length bs) (fs_opened files path) 0 rs
        \<lparr>y_out = y_out s @ block_bytes 0 frame, y_in = rs, y_num = 1\<rparr> of
       Inl x \<Rightarrow> Inl x | Inr t \<Rightarrow> finish_file t)"
proof -
  let ?z = "size_text (length bs)"
  have "length path + 1 + length ?z < kFrameSize"
    using size_text_length [of "length bs"] assms(3) by linarith
  note init = SendInitialPkt_two [OF this]
  let ?s1 = "(s\<lparr>y_in := [a, 67] @ rs\<rparr>)\<lparr>y_num := 0\<rparr>"
  let ?s2 = "\<lparr>y_out = y_out s @ block_bytes 0 frame, y_in = [67] @ rs, y_num = 1\<rparr>"
  let ?s3 = "\<lparr>y_out = y_out s @ block_bytes 0 frame, y_in = rs, y_num = 1\<rparr>"
  have w: "WaitForResponse kRequest s = Inr (True, s\<lparr>y_in := [a, 67] @ rs\<rparr>)"
    by (rule wait_first) (simp_all add: assms(4))
  have i: "SendInitialPkt [path, ?z] ?s1 = Inr (6 = a, ?s2)"
    unfolding init
    by (simp add: IsResponse_def seq_Send_def packet_bytes_def block_bytes_def frame_def)
  have q: "IsResponse kRequest ?s2 = Inr (True, ?s3)" by (simp add: IsResponse_def)
  have f: "fs_open (fs_opened files path)" "fs_data (fs_opened files path) = bs"
    using assms(1) by (simp_all add: fs_opened_def)
  show ?thesis
    unfolding SendFile_def Let_def f(2) w andthen_def
    using assms(2) f(1) i q by simp
qed

lemma finish_file_run:
  "y_in s = [b1, b2, b3, b4] @ rs \<Longrightarrow>
   finish_file s = Inr (True, \<lparr>y_out = y_out s @ [0x04, 0x04] @ block_bytes 0 NewFrame,
                              y_in = rs, y_num = 1\<rparr>)"
  by (cases s)
    (simp add: finish_file_def andthen_def IsResponse_def SendClosingPkt_def seq_Reset_def
      seq_Send_def packet_bytes_def eot_def block_bytes_def)

text \<open>C6: a file with contents whose blocks are all acknowledged arrives: \<open>SendFile\<close> succeeds, and
  a receiver that checks numbers, complements and CRCs of the blocks after the initial one gets
  the bytes of the file, followed by zeros up to the end of the last block.  The numbers
  wrap after 255, so there is no bound on the size.  The name may have 1,012 characters, so that
  the initial block has room for it and the size; that block is the overlaid one.\<close>

theorem SendFile_delivers:
  assumes "files path = Some bs" "bs \<noteq> []" "path \<noteq> []" "length path + 11 < kFrameSize"
    and "y_in s = [67, a, 67] @ replicate (length (chunks kFrameSize bs)) (Signal_byte kACK) @
           [b1, b2, b3, b4] @ rs"
  shows "\<exists>t got. SendFile files True path s = Inr (True, t) \<and>
    y_out t = y_out s @ block_bytes 0 (overlaid path (size_text (length bs))) @
      file_blocks 1 (chunks kFrameSize bs) @ [0x04, 0x04] @ block_bytes 0 NewFrame \<and>
    receive_blocks (length (chunks kFrameSize bs)) 1
      (drop (length (y_out s @ block_bytes 0 (overlaid path (size_text (length bs))))) (y_out t)) = Some got \<and>
    take (length bs) got = bs \<and> y_in t = rs"
proof -
  let ?f = "fs_opened files path" and ?acks = "replicate (length (chunks kFrameSize bs)) (Signal_byte kACK)"
  have f: "fs_good ?f" "fs_rest ?f = bs" using assms(1) by (simp_all add: fs_opened_def fs_rest_def)
  define frame where "frame = overlaid path (size_text (length bs))"
  let ?s = "\<lparr>y_out = y_out s @ block_bytes 0 frame, y_in = ?acks @ [b1, b2, b3, b4] @ rs, y_num = 1\<rparr>"
  have sub: "set ?acks \<subseteq> {Signal_byte kACK}" by auto
  from send_blocks_acked [OF f(1), unfolded f(2), OF assms(2), of 0 "length bs" ?acks "[b1, b2, b3, b4] @ rs" ?s]
  obtain t where t: "send_blocks (length bs) ?f 0 (?acks @ [b1, b2, b3, b4] @ rs) ?s = Inr t"
    "y_out t = y_out ?s @ file_blocks (y_num ?s) (chunks kFrameSize bs)" "y_in t = [b1, b2, b3, b4] @ rs"
    using sub by auto
  have run: "SendFile files True path s = Inr (True, \<lparr>y_out = y_out t @ [0x04, 0x04] @ block_bytes 0 NewFrame,
      y_in = rs, y_num = 1\<rparr>)"
    using SendFile_starts [where files = files and path = path, OF assms(1,3,4), of s a] assms(5) t finish_file_run [OF t(3)]
    by (simp add: frame_def)
  have blocks: "\<forall>d \<in> set (chunks kFrameSize bs). length d \<le> kFrameSize"
    using chunks_bounds by blast
  let ?got = "concat (map (\<lambda>d. d @ replicate (kFrameSize - length d) 0) (chunks kFrameSize bs))"
  have "receive_blocks (length (chunks kFrameSize bs)) 1 (file_blocks 1 (chunks kFrameSize bs) @
      [0x04, 0x04] @ block_bytes 0 NewFrame) = Some ?got"
    by (rule receive_file_blocks [OF blocks])
  moreover have "take (length bs) ?got = bs"
    by (rule take_padded_chunks) (simp add: kFrameSize_def)
  ultimately show ?thesis
    using run t(2) unfolding frame_def by (intro exI conjI) (assumption | simp)+
qed

text \<open>The name that the loader gives the kernel if nothing else is said.\<close>

definition some_path :: string where
  "some_path = ''uImage''"

lemma some_path: "some_path \<noteq> []" "length some_path = 6"
  by (simp_all add: some_path_def)

theorem SendFile_delivers_witness:
  "\<exists>t got. SendFile [some_path \<mapsto> [1, 2, 3]] True some_path
      (\<lparr>y_out = [], y_in = [67, 6, 67] @ replicate (length (chunks kFrameSize [1::byte, 2, 3])) (Signal_byte kACK) @
        [6, 6, 67, 6] @ [], y_num = 9\<rparr>) = Inr (True, t) \<and>
    y_out t = block_bytes 0 (overlaid ''uImage'' (size_text 3)) @
      file_blocks 1 (chunks kFrameSize [1, 2, 3]) @ [0x04, 0x04] @ block_bytes 0 NewFrame \<and>
    receive_blocks (length (chunks kFrameSize [1::byte, 2, 3])) 1
      (drop (length (block_bytes 0 (overlaid ''uImage'' (size_text 3)))) (y_out t)) = Some got \<and>
    take 3 got = [1, 2, 3] \<and> y_in t = []"
  using SendFile_delivers [of "[some_path \<mapsto> [1, 2, 3]]" some_path "[1, 2, 3]"
      "\<lparr>y_out = [], y_in = [67, 6, 67] @ replicate (length (chunks kFrameSize [1::byte, 2, 3])) (Signal_byte kACK) @
        [6, 6, 67, 6] @ [], y_num = 9\<rparr>" 6 6 6 67 6 "[]"] some_path
  by (auto simp: kFrameSize_def some_path_def numeral_3_eq_3)

lemma send_blocks_refused:
  assumes "r \<noteq> Signal_byte kACK" "fs_good f" "length (fs_rest f) + was_send = sz"
    "j < length (chunks kFrameSize (fs_rest f))"
  shows "\<exists>t. send_blocks sz f was_send (replicate j (Signal_byte kACK) @ [r] @ rest) s = Inr t \<and>
    y_out t = y_out s @ file_blocks (y_num s) (take (Suc j) (chunks kFrameSize (fs_rest f))) \<and> y_in t = rest"
  using assms(2-)
proof (induction j arbitrary: f was_send s)
  case 0
  then have "fs_rest f \<noteq> []" by auto
  with 0 assms(1) show ?case
    by (simp add: case_prod_unfold Let_def fs_read_fst chunks_step kFrameSize_def seq_Send_block)
next
  case (Suc j)
  have ne: "fs_rest f \<noteq> []" using Suc.prems(3) by auto
  have pos: "0 < kFrameSize" by (simp add: kFrameSize_def)
  define d where "d = take kFrameSize (fs_rest f)"
  define g where "g = snd (fs_read kFrameSize f)"
  have d: "fst (fs_read kFrameSize f) = d" "fs_rest g = drop kFrameSize (fs_rest f)"
    using Suc.prems(1) by (simp_all add: fs_read_fst fs_read_rest d_def g_def)
  have ch: "chunks kFrameSize (fs_rest f) = d # chunks kFrameSize (fs_rest g)"
    using chunks_step [OF ne pos] d by (simp add: d_def)
  then have "fs_rest g \<noteq> []" using Suc.prems(3) by auto
  then have good: "fs_good g" "was_send + length d < sz" "length (fs_rest g) + (was_send + length d) = sz"
    "sz \<noteq> 0"
    using Suc.prems(1,2) d by (auto simp: fs_read_good d_def g_def)
  have "j < length (chunks kFrameSize (fs_rest g))" using Suc.prems(3) ch by simp
  note IH = Suc.IH [OF good(1,3) this]
  let ?s = "(seq_Send \<lparr>y_type = kSTX, y_data = Some (d @ replicate (kFrameSize - length d) 0)\<rparr> s)
      \<lparr>y_in := replicate j (Signal_byte kACK) @ [r] @ rest\<rparr>"
  have "send_blocks sz f was_send (replicate (Suc j) (Signal_byte kACK) @ [r] @ rest) s
      = send_blocks sz g (was_send + length d) (replicate j (Signal_byte kACK) @ [r] @ rest) ?s"
    using good(2,4) d(1) by (simp add: case_prod_unfold Let_def g_def)
  with IH [of ?s] ch show ?case by (simp add: seq_Send_block)
qed

text \<open>C13: a block that the receiver refuses ends the transfer, but not with a failure: \<open>SendFile\<close>
  sends the end of the file and reports success, although only \<open>j\<close> blocks were acknowledged.  As
  in C6, the name may have 1,012 characters.\<close>

theorem SendFile_refused_succeeds:
  assumes "files path = Some bs" "path \<noteq> []" "length path + 11 < kFrameSize"
    and "j < length (chunks kFrameSize bs)" "r \<noteq> Signal_byte kACK"
    and "y_in s = [67, a, 67] @ replicate j (Signal_byte kACK) @ [r] @ [b1, b2, b3, b4] @ rs"
  shows "\<exists>t. SendFile files True path s = Inr (True, t) \<and>
    y_out t = y_out s @ block_bytes 0 (overlaid path (size_text (length bs))) @
      file_blocks 1 (take (Suc j) (chunks kFrameSize bs)) @ [0x04, 0x04] @ block_bytes 0 NewFrame"
proof -
  let ?f = "fs_opened files path"
  have f: "fs_good ?f" "fs_rest ?f = bs" using assms(1) by (simp_all add: fs_opened_def fs_rest_def)
  define frame where "frame = overlaid path (size_text (length bs))"
  let ?rs = "replicate j (Signal_byte kACK) @ [r] @ [b1, b2, b3, b4] @ rs"
  let ?s = "\<lparr>y_out = y_out s @ block_bytes 0 frame, y_in = ?rs, y_num = 1\<rparr>"
  have "length (fs_rest ?f) + 0 = length bs" "j < length (chunks kFrameSize (fs_rest ?f))"
    using f assms(4) by simp_all
  from send_blocks_refused [OF assms(5) f(1) this, of "[b1, b2, b3, b4] @ rs" ?s] f(2) obtain t where
    t: "send_blocks (length bs) ?f 0 ?rs ?s = Inr t"
      "y_out t = y_out ?s @ file_blocks (y_num ?s) (take (Suc j) (chunks kFrameSize bs))"
      "y_in t = [b1, b2, b3, b4] @ rs" by auto
  show ?thesis
    using SendFile_starts [where files = files and path = path, OF assms(1-3), of s a ?rs]
      assms(6) t finish_file_run [OF t(3)]
    by (simp add: frame_def)
qed

theorem SendFile_refused_succeeds_witness:
  "\<exists>t. SendFile [some_path \<mapsto> [1, 2, 3]] True some_path
      \<lparr>y_out = [], y_in = [67, 6, 67] @ replicate 0 (Signal_byte kACK) @ [0x15] @ [6, 6, 67, 6] @ [], y_num = 9\<rparr>
      = Inr (True, t) \<and>
    y_out t = y_out \<lparr>y_out = [], y_in = [67, 6, 67] @ replicate 0 (Signal_byte kACK) @ [0x15] @
        [6, 6, 67, 6] @ [], y_num = 9\<rparr> @ block_bytes 0 (overlaid some_path (size_text (length [1::byte, 2, 3]))) @
      file_blocks 1 (take (Suc 0) (chunks kFrameSize [1, 2, 3])) @ [0x04, 0x04] @ block_bytes 0 NewFrame"
  by (rule SendFile_refused_succeeds) (simp_all add: some_path kFrameSize_def chunks_step)

text \<open>Sending an empty file divides by zero once its (empty) block is acknowledged.\<close>

theorem SendFile_empty_divides:
  assumes "files path = Some []" "path \<noteq> []" "length path + 11 < kFrameSize"
    and "y_in s = [67, a, 67] @ Signal_byte kACK # rs"
  shows "SendFile files True path s = Inl DivByZero"
  using SendFile_starts [where files = files and path = path, OF assms]
  by (simp add: case_prod_unfold Let_def)

theorem SendFile_empty_divides_witness:
  "SendFile [some_path \<mapsto> []] True some_path
     \<lparr>y_out = [], y_in = [67, 6, 67] @ Signal_byte kACK # [6], y_num = 0\<rparr> = Inl DivByZero"
  by (rule SendFile_empty_divides) (simp_all add: some_path kFrameSize_def)

end
