(* ===== verification/Asio_Read.thy ===== *)
theory Asio_Read
  imports Regi_Prelude
begin

text \<open>
  \<open>AsioIface\<close> (regiloader/asio_helper.hpp, asio_helper.cpp): reading from the serial port with a
  time-out and a number of tries.

  As in the other components an operation under way is an entry of \<open>a_pend\<close>, with a flag that
  says whether it was cancelled, and the events say which one ends and how.  A timer ends
  without an error only when its time has come, so its handler then finds it expired; this may
  happen although it was cancelled, when it was on its way already.  \<open>a_notified\<close> records the
  calls of the handler that \<open>Read\<close> is given.
\<close>

section \<open>The interface\<close>

datatype AOp = ARead nat | ATimer

datatype AOut = AGot "byte list" | AFail | AFired

datatype AEv = AEv nat AOut

record AsioIface =
  a_timeout :: nat
  a_tries :: nat
  a_processed :: nat
  a_try_num :: nat
  a_has_port :: bool
  a_buff :: "byte list"
  a_pend :: "(AOp \<times> bool) list"
  a_notified :: "nat list"

text \<open>\<open>buff\<close> is what the buffer of the caller holds; the timer exists where the port does.\<close>

definition new_AsioIface :: "bool \<Rightarrow> nat \<Rightarrow> nat \<Rightarrow> byte list \<Rightarrow> AsioIface" where
  "new_AsioIface port timeout tries buff =
     \<lparr>a_timeout = timeout, a_tries = tries, a_processed = 0, a_try_num = 0, a_has_port = port,
      a_buff = buff, a_pend = [], a_notified = []\<rparr>"

definition ReadingWasFailed :: "AsioIface \<Rightarrow> bool" where
  "ReadingWasFailed s \<longleftrightarrow> a_try_num s \<ge> a_tries s"

definition asio_cancel_timer :: "AsioIface \<Rightarrow> AsioIface" where
  "asio_cancel_timer s =
     s\<lparr>a_pend := map (\<lambda>(op, c). (op, case op of ATimer \<Rightarrow> True | ARead _ \<Rightarrow> c)) (a_pend s)\<rparr>"

definition asio_cancel_port :: "AsioIface \<Rightarrow> AsioIface" where
  "asio_cancel_port s =
     s\<lparr>a_pend := map (\<lambda>(op, c). (op, case op of ATimer \<Rightarrow> c | ARead _ \<Rightarrow> True)) (a_pend s)\<rparr>"

text \<open>\<open>expires_from_now\<close> cancels a wait that is under way.\<close>

definition asio_CreateTimer :: "AsioIface \<Rightarrow> AsioIface" where
  "asio_CreateTimer s =
     (let s = asio_cancel_timer s in s\<lparr>a_pend := a_pend s @ [(ATimer, False)]\<rparr>)"

definition asio_TimerHandler :: "bool \<Rightarrow> bool \<Rightarrow> AsioIface \<Rightarrow> AsioIface" where
  "asio_TimerHandler err expired s =
     (if \<not> err \<and> expired
      then (let s = s\<lparr>a_try_num := a_try_num s + 1\<rparr> in if a_has_port s then asio_cancel_port s else s)
      else s\<lparr>a_try_num := 0\<rparr>)"

definition asio_ReadHandler :: "bool \<Rightarrow> nat \<Rightarrow> AsioIface \<Rightarrow> AsioIface" where
  "asio_ReadHandler err amount s =
     (if \<not> err \<and> amount = 1 then asio_cancel_timer (s\<lparr>a_processed := amount\<rparr>) else s)"

section \<open>The I/O service\<close>

text \<open>A read ends well with at least one byte, and with no more than the buffer holds.\<close>

fun asio_op_exec :: "AOp \<Rightarrow> bool \<Rightarrow> AOut \<Rightarrow> AsioIface \<Rightarrow> stop + AsioIface" where
  "asio_op_exec (ARead n) c (AGot d) s =
     (if 0 < length d \<and> length d \<le> n
      then Inr (asio_ReadHandler False (length d) (s\<lparr>a_buff := overwrite (a_buff s) 0 d\<rparr>))
      else Inl NotPending)"
| "asio_op_exec (ARead n) c AFail s = Inr (asio_ReadHandler True 0 s)"
| "asio_op_exec ATimer c AFired s = Inr (asio_TimerHandler False True s)"
| "asio_op_exec ATimer c AFail s =
     (if c then Inr (asio_TimerHandler True False s) else Inl NotPending)"
| "asio_op_exec _ _ _ _ = Inl NotPending"

definition asio_drop_pend :: "nat \<Rightarrow> AsioIface \<Rightarrow> AsioIface" where
  "asio_drop_pend i s = s\<lparr>a_pend := take i (a_pend s) @ drop (Suc i) (a_pend s)\<rparr>"

definition asio_io_exec :: "nat \<Rightarrow> AOut \<Rightarrow> AsioIface \<Rightarrow> stop + AsioIface" where
  "asio_io_exec i out s =
     (if i < length (a_pend s)
      then (let (op, c) = a_pend s ! i in asio_op_exec op c out (asio_drop_pend i s))
      else Inl NotPending)"

fun asio_io_run :: "AEv list \<Rightarrow> AsioIface \<Rightarrow> stop + (AsioIface \<times> AEv list)" where
  "asio_io_run [] s = (if a_pend s = [] then Inr (s, []) else Inl Starved)"
| "asio_io_run (AEv i out # es) s =
     (if a_pend s = [] then Inr (s, AEv i out # es)
      else (case asio_io_exec i out s of Inl x \<Rightarrow> Inl x | Inr s' \<Rightarrow> asio_io_run es s'))"

lemma asio_io_run_length:
  "asio_io_run es s = Inr (t, es') \<Longrightarrow>
   length es' \<le> length es \<and> (a_pend s \<noteq> [] \<longrightarrow> length es' < length es)"
  by (induction es s rule: asio_io_run.induct) (fastforce split: if_splits sum.splits)+

section \<open>Read\<close>

text \<open>The operations that a turn of the loop of \<open>Read\<close> starts.\<close>

definition asio_start :: "nat \<Rightarrow> AsioIface \<Rightarrow> AsioIface" where
  "asio_start amount s =
     asio_CreateTimer (s\<lparr>a_pend := a_pend s @ [(ARead amount, False)]\<rparr>)"

definition asio_notify :: "AsioIface \<Rightarrow> AsioIface" where
  "asio_notify s =
     (if 0 < a_try_num s then s\<lparr>a_notified := a_notified s @ [a_try_num s]\<rparr> else s)"

lemma asio_start_pend: "a_pend (asio_start amount s) \<noteq> []"
  by (simp add: asio_start_def asio_CreateTimer_def Let_def)

function asio_loop :: "nat \<Rightarrow> AEv list \<Rightarrow> AsioIface \<Rightarrow> stop + (nat \<times> AsioIface \<times> AEv list)" where
  "asio_loop amount es s =
     (case asio_io_run es (asio_start amount s) of
        Inl x \<Rightarrow> Inl x
      | Inr (t, es') \<Rightarrow>
          (let t = asio_notify t in
           if a_try_num t < a_tries t \<and> a_processed t < amount then asio_loop amount es' t
           else Inr (a_processed t, t, es')))"
  by pat_completeness auto
termination
  by (relation "measure (\<lambda>(amount, es, s). length es)")
    (auto dest: asio_io_run_length simp: asio_start_pend)

declare asio_loop.simps [simp del]

definition asio_Read :: "nat \<Rightarrow> AEv list \<Rightarrow> AsioIface \<Rightarrow> stop + (nat \<times> AsioIface \<times> AEv list)" where
  "asio_Read amount es s =
     (let s = s\<lparr>a_try_num := 0, a_processed := 0\<rparr> in
      if \<not> a_has_port s then Inr (0, s, es) else asio_loop amount es s)"

section \<open>Turns\<close>

text \<open>
  What two events can do to a turn that reads one byte: the byte that came, if one did, and
  whether the time ran out.  \<^theory_text>\<open>None\<close> where the service does not report these events.
\<close>

fun turn :: "AEv \<Rightarrow> AEv \<Rightarrow> (byte option \<times> bool) option" where
  "turn (AEv i a) (AEv j b) =
     (if j \<noteq> 0 then None
      else if i = 0 then (case (a, b) of
         (AGot [d], AFail) \<Rightarrow> Some (Some d, False)
       | (AGot [d], AFired) \<Rightarrow> Some (Some d, True)
       | (AFail, AFired) \<Rightarrow> Some (None, True)
       | _ \<Rightarrow> None)
      else if i = 1 \<and> a = AFired then (case b of
         AGot [d] \<Rightarrow> Some (Some d, True)
       | AFail \<Rightarrow> Some (None, True)
       | _ \<Rightarrow> None)
      else None)"

definition turn_effect :: "byte option \<times> bool \<Rightarrow> AsioIface \<Rightarrow> AsioIface" where
  "turn_effect r s =
     s\<lparr>a_try_num := (if snd r then a_try_num s + 1 else 0),
       a_processed := (case fst r of None \<Rightarrow> a_processed s | Some _ \<Rightarrow> 1),
       a_buff := (case fst r of None \<Rightarrow> a_buff s | Some d \<Rightarrow> overwrite (a_buff s) 0 [d])\<rparr>"

lemmas asio_defs = asio_start_def asio_CreateTimer_def asio_cancel_timer_def asio_cancel_port_def
  asio_io_exec_def asio_drop_pend_def asio_ReadHandler_def asio_TimerHandler_def Let_def

lemma asio_start_one:
  "a_pend s = [] \<Longrightarrow> asio_start 1 s = s\<lparr>a_pend := [(ARead 1, False), (ATimer, False)]\<rparr>"
  by (simp add: asio_defs)

lemma asio_turn:
  assumes "a_pend s = []" "a_has_port s" "turn e1 e2 = Some r"
  shows "asio_io_run (e1 # e2 # es) (asio_start 1 s) = Inr (turn_effect r s, es)"
proof -
  have fin: "asio_io_run es u = Inr (u, es)" if "a_pend u = []" for u
    using that by (cases es; cases "hd es") auto
  obtain i a j b where e: "e1 = AEv i a" "e2 = AEv j b" by (cases e1, cases e2) auto
  from assms show ?thesis
    unfolding asio_start_one [OF assms(1)] e
    by (cases a; cases b) 
      (auto simp: asio_defs turn_effect_def fin nth_Cons' split: if_splits list.splits)
qed

lemma asio_turn_only:
  assumes "a_pend s = []" "a_has_port s" "asio_io_run es (asio_start 1 s) = Inr (t, es')"
  shows "\<exists>e1 e2 r. es = e1 # e2 # es' \<and> turn e1 e2 = Some r"
proof -
  obtain i a rest where 1: "es = AEv i a # rest"
    using assms(1,3) unfolding asio_start_one [OF assms(1)]
    by (cases es; cases "hd es") auto
  then obtain u where u: "asio_io_exec i a (s\<lparr>a_pend := [(ARead 1, False), (ATimer, False)]\<rparr>) = Inr u"
    and r: "asio_io_run rest u = Inr (t, es')"
    using assms(3) unfolding asio_start_one [OF assms(1)] by (auto split: sum.splits)
  have one: "d \<noteq> [] \<and> length d \<le> Suc 0 \<longleftrightarrow> (\<exists>y. d = [y])" for d :: "byte list"
    by (cases d) auto
  have up: "a_pend u = [(ARead 1, True)] \<and> i = 1 \<and> a = AFired \<or>
      (a_pend u = [(ATimer, a \<noteq> AFail)] \<and> i = 0 \<and> (a = AFail \<or> (\<exists>d. a = AGot [d])))"
    using u assms(2) by (cases a) (auto simp: asio_defs less_Suc_eq length_Suc_conv one split: if_splits)
  then have ne: "a_pend u \<noteq> []" by auto
  then obtain j b rest' where 2: "rest = AEv j b # rest'"
    using r by (cases rest; cases "hd rest") auto
  with r ne obtain v where v: "asio_io_exec j b u = Inr v" and q: "asio_io_run rest' v = Inr (t, es')"
    by (auto split: sum.splits)
  have "a_pend v = [] \<and> turn (AEv i a) (AEv j b) \<noteq> None"
    using up v by (cases b) (auto simp: asio_defs length_Suc_conv le_Suc_eq ex_bool_eq split: if_splits)
  moreover from this have "rest' = es'" using q by (cases rest'; cases "hd rest'") auto
  ultimately show ?thesis using 1 2 by auto
qed

text \<open>
  A byte is read in turns: silent ones are counted, and end the reading when there were \<open>k\<close> of
  them; the turn with the byte ends it too.  The result is the byte, whether the reading counts
  as failed, and the events that are left.
\<close>

fun turns_read :: "nat \<Rightarrow> AEv list \<Rightarrow> (byte option \<times> bool \<times> AEv list) option" where
  "turns_read k (e1 # e2 # es) =
     (case turn e1 e2 of
        None \<Rightarrow> None
      | Some (Some d, late) \<Rightarrow> Some (Some d, late \<and> k \<le> 1, es)
      | Some (None, _) \<Rightarrow> (if k \<le> 1 then Some (None, True, es) else turns_read (k - 1) es))"
| "turns_read k es = None"

definition read_view :: "stop + (nat \<times> AsioIface \<times> AEv list) \<Rightarrow> (byte option \<times> bool \<times> AEv list) option" where
  "read_view r =
     (case r of
        Inl _ \<Rightarrow> None
      | Inr (n, t, es) \<Rightarrow> Some (if n = 0 then None else Some (a_buff t ! 0), ReadingWasFailed t, es))"

lemma turn_None_fired: "turn e1 e2 = Some (None, f) \<Longrightarrow> f"
  by (cases e1; cases e2) (auto split: if_splits AOut.splits list.splits)

lemma asio_notify_simps [simp]:
  "a_pend (asio_notify s) = a_pend s" "a_try_num (asio_notify s) = a_try_num s"
  "a_tries (asio_notify s) = a_tries s" "a_processed (asio_notify s) = a_processed s"
  "a_has_port (asio_notify s) = a_has_port s" "a_buff (asio_notify s) = a_buff s"
  by (simp_all add: asio_notify_def)

lemma turn_effect_simps [simp]:
  "a_pend (turn_effect r s) = a_pend s" "a_tries (turn_effect r s) = a_tries s"
  "a_has_port (turn_effect r s) = a_has_port s"
  by (simp_all add: turn_effect_def)

text \<open>A turn that cannot be gone on with, and one that can.\<close>

lemma asio_loop_stuck:
  assumes "a_pend s = []" "a_has_port s" "turn e1 e2 = None"
  shows "read_view (asio_loop 1 (e1 # e2 # es) s) = None"
proof -
  have "\<nexists>t es'. asio_io_run (e1 # e2 # es) (asio_start 1 s) = Inr (t, es')"
    using asio_turn_only [OF assms(1,2)] assms(3) by fastforce
  then show ?thesis
    by (subst asio_loop.simps) (auto simp: read_view_def split: sum.splits)
qed

lemma asio_loop_turn:
  assumes "a_pend s = []" "a_has_port s" "turn e1 e2 = Some r" "t = asio_notify (turn_effect r s)"
  shows "asio_loop 1 (e1 # e2 # es) s =
    (if a_try_num t < a_tries t \<and> a_processed t < 1 then asio_loop 1 es t else Inr (a_processed t, t, es))"
  using asio_turn [OF assms(1-3), of es] by (subst asio_loop.simps) (simp add: Let_def assms(4))

lemma asio_loop_turns:
  assumes "a_pend s = []" "a_has_port s" "a_processed s = 0" "a_try_num s < a_tries s"
    "0 < length (a_buff s)"
  shows "read_view (asio_loop 1 es s) = turns_read (a_tries s - a_try_num s) es"
  using assms
proof (induction "a_tries s - a_try_num s" es arbitrary: s rule: turns_read.induct)
  case (1 e1 e2 es)
  show ?case
  proof (cases "turn e1 e2")
    case None
    with asio_loop_stuck [OF "1.prems"(1,2)] show ?thesis by simp
  next
    case (Some r)
    obtain d f where r: "r = (d, f)" by (cases r)
    let ?t = "asio_notify (turn_effect r s)"
    note l = asio_loop_turn [OF "1.prems"(1,2) Some refl, of es]
    show ?thesis
    proof (cases d)
      case None
      with Some r turn_None_fired have f: f by blast
      moreover have "read_view (asio_loop 1 es ?t) = turns_read (a_tries ?t - a_try_num ?t) es"
        if "\<not> a_tries s - a_try_num s \<le> 1"
        using that r None f "1.prems" Some by (intro "1.hyps") (auto simp: turn_effect_def)
      ultimately show ?thesis using l Some r None "1.prems"
        by (cases "a_tries s - a_try_num s \<le> 1")
          (auto simp: turn_effect_def read_view_def ReadingWasFailed_def)
    next
      case (Some b)
      then show ?thesis using l \<open>turn e1 e2 = Some r\<close> r "1.prems"
        by (auto simp: turn_effect_def read_view_def ReadingWasFailed_def overwrite_def)
    qed
  qed
next
  case "2_1"
  then show ?case
    by (subst asio_loop.simps) (simp add: asio_start_pend read_view_def)
next
  case unfinished: "2_2"
  note turn_only = asio_turn_only [OF unfinished(1,2)]
  from turn_only have "\<nexists>t es'. asio_io_run [v] (asio_start 1 s) = Inr (t, es')" for v by fastforce
  then show ?case
    by (subst asio_loop.simps) (auto simp: read_view_def split: sum.splits)
qed

text \<open>An interface between two calls of \<open>Read\<close>.\<close>

definition asio_idle :: "AsioIface \<Rightarrow> bool" where
  "asio_idle s \<longleftrightarrow> a_has_port s \<and> a_pend s = [] \<and> 0 < a_tries s \<and> a_buff s \<noteq> []"

lemma new_AsioIface_idle: "0 < tries \<Longrightarrow> asio_idle (new_AsioIface True timeout tries [b])"
  by (simp add: asio_idle_def new_AsioIface_def)

lemma asio_Read_view:
  "asio_idle s \<Longrightarrow> read_view (asio_Read 1 es s) = turns_read (a_tries s) es"
  using asio_loop_turns [of "s\<lparr>a_try_num := 0, a_processed := 0\<rparr>" es]
  by (simp add: asio_Read_def asio_idle_def)

lemma asio_loop_idle:
  "asio_loop 1 es s = Inr (n, t, es') \<Longrightarrow> asio_idle s \<Longrightarrow>
   asio_idle t \<and> a_tries t = a_tries s \<and> length es' < length es"
proof (induction "1::nat" es s arbitrary: n t es' rule: asio_loop.induct)
  case (1 es s)
  then have ps: "a_pend s = []" "a_has_port s" by (simp_all add: asio_idle_def)
  obtain u es1 where u: "asio_io_run es (asio_start 1 s) = Inr (u, es1)"
    using "1.prems"(1) by (subst (asm) asio_loop.simps) (auto split: sum.splits)
  from asio_turn_only [OF ps u] obtain e1 e2 r where
    e: "es = e1 # e2 # es1" "turn e1 e2 = Some r" by blast
  let ?v = "asio_notify (turn_effect r s)"
  have v: "asio_notify u = ?v" using asio_turn [OF ps e(2), of es1] u e(1) by simp
  have idle: "asio_idle ?v" "a_tries ?v = a_tries s"
    using "1.prems"(2) by (auto simp: asio_idle_def turn_effect_def overwrite_def split: option.splits)
  show ?case
  proof (cases "a_try_num ?v < a_tries ?v \<and> a_processed ?v < 1")
    case True
    then have "asio_loop 1 es1 ?v = Inr (n, t, es')"
      using "1.prems"(1) u
      by (subst (asm) asio_loop.simps) (simp add: Let_def v del: One_nat_def asio_notify_simps)
    from "1.hyps" [OF u refl v [symmetric] True this idle(1)] idle(2) e(1) show ?thesis by simp
  next
    case False
    then have "t = ?v" "es' = es1"
      using "1.prems"(1) u v 
      by (subst (asm) asio_loop.simps,
          simp add: Let_def del: One_nat_def asio_notify_simps split: if_splits)+
    then show ?thesis using idle e(1) by simp
  qed
qed

lemma asio_Read_idle:
  assumes "asio_Read 1 es s = Inr (n, t, es')" "asio_idle s"
  shows "asio_idle t \<and> a_tries t = a_tries s \<and> length es' < length es"
  using asio_loop_idle [of es "s\<lparr>a_try_num := 0, a_processed := 0\<rparr>"] assms
  by (simp add: asio_Read_def asio_idle_def)

lemma turns_read_length: "turns_read k es = Some (d, f, es') \<Longrightarrow> length es' < length es"
  by (induction k es arbitrary: d f es' rule: turns_read.induct)
    (fastforce split: option.splits if_splits)+

text \<open>Silent turns.\<close>

definition silent :: "AEv \<times> AEv \<Rightarrow> bool" where
  "silent p \<longleftrightarrow> turn (fst p) (snd p) = Some (None, True)"

definition evs_of :: "(AEv \<times> AEv) list \<Rightarrow> AEv list" where
  "evs_of ps = concat (map (\<lambda>(a, b). [a, b]) ps)"

lemma turns_read_silent:
  "list_all silent ps \<Longrightarrow> length ps < k \<Longrightarrow>
   turns_read k (evs_of ps @ es) = turns_read (k - length ps) es"
proof (induction ps arbitrary: k)
  case (Cons p ps)
  obtain a b where p: "p = (a, b)" by (cases p)
  from Cons.prems obtain j where "k = Suc j" "0 < j" by (cases k) auto
  with Cons p show ?case by (auto simp: evs_of_def silent_def)
qed (simp add: evs_of_def)

lemma turns_read_all_silent:
  "list_all silent ps \<Longrightarrow> 0 < length ps \<Longrightarrow>
   turns_read (length ps) (evs_of ps @ es) = Some (None, True, es)"
proof (induction ps)
  case (Cons p ps)
  obtain a b where p: "p = (a, b)" by (cases p)
  from Cons p show ?case by (cases "ps = []") (auto simp: evs_of_def silent_def Suc_le_eq)
qed simp

lemma turns_read_byte:
  assumes "list_all silent ps" "length ps < k" "turn e1 e2 = Some (Some d, late)"
  shows "turns_read k (evs_of ps @ e1 # e2 # es) = Some (Some d, late \<and> Suc (length ps) = k, es)"
  using turns_read_silent [OF assms(1,2)] assms(2,3) by (auto simp: le_Suc_eq)

lemma read_view_Some:
  "read_view r = Some (d, f, es) \<Longrightarrow>
   \<exists>n t. r = Inr (n, t, es) \<and> ReadingWasFailed t = f \<and> (d = None \<longleftrightarrow> n = 0) \<and>
     (case d of None \<Rightarrow> True | Some b \<Rightarrow> a_buff t ! 0 = b)"
  by (auto simp: read_view_def split: sum.splits if_splits)

text \<open>Reading one byte: the byte that comes before the time has run out \<open>kAmountOfTries\<close>
  times is delivered, and the reading counts as failed exactly if the byte came together with
  the last time-out.\<close>

theorem Read_delivers_byte:
  assumes "asio_idle s" "list_all silent ps" "length ps < a_tries s"
    and "turn e1 e2 = Some (Some d, late)"
  shows "\<exists>n t. asio_Read 1 (evs_of ps @ e1 # e2 # es) s = Inr (n, t, es) \<and> n \<noteq> 0 \<and>
    a_buff t ! 0 = d \<and> (ReadingWasFailed t \<longleftrightarrow> late \<and> Suc (length ps) = a_tries s)"
  using read_view_Some [OF trans [OF asio_Read_view [OF assms(1)] turns_read_byte [OF assms(2-4)]]]
  by simp blast

theorem Read_delivers_byte_witness:
  "\<exists>n t. asio_Read 1 (evs_of [(AEv 1 AFired, AEv 0 AFail)] @
      AEv 1 AFired # AEv 0 (AGot [65]) # []) (new_AsioIface True 2 2 [0]) = Inr (n, t, []) \<and> n \<noteq> 0 \<and>
    a_buff t ! 0 = 65 \<and> ReadingWasFailed t"
  using Read_delivers_byte [of "new_AsioIface True 2 2 [0]" "[(AEv 1 AFired, AEv 0 AFail)]"
      "AEv 1 AFired" "AEv 0 (AGot [65])" 65 True "[]"]
  by (simp add: new_AsioIface_idle silent_def) (simp add: new_AsioIface_def)

text \<open>Without a byte, reading fails after exactly \<open>kAmountOfTries\<close> time-outs.\<close>

theorem Read_gives_up:
  assumes "asio_idle s" "list_all silent ps" "length ps = a_tries s"
  shows "\<exists>t. asio_Read 1 (evs_of ps @ es) s = Inr (0, t, es) \<and> ReadingWasFailed t"
proof -
  have "0 < length ps" using assms(1,3) by (simp add: asio_idle_def)
  from turns_read_all_silent [OF assms(2) this] assms(3)
  have "read_view (asio_Read 1 (evs_of ps @ es) s) = Some (None, True, es)"
    by (simp add: asio_Read_view [OF assms(1)] del: One_nat_def)
  from read_view_Some [OF this] show ?thesis by auto
qed

theorem Read_gives_up_witness:
  "\<exists>t. asio_Read 1 (evs_of (replicate 10 (AEv 1 AFired, AEv 0 AFail)) @ []) (new_AsioIface True 2 10 [0])
      = Inr (0, t, []) \<and> ReadingWasFailed t"
  by (rule Read_gives_up)
    (simp_all add: new_AsioIface_idle silent_def list_all_length, simp add: new_AsioIface_def)

end
