(* ===== verification/Loader_Data.thy ===== *)
theory Loader_Data
  imports Regi_Prelude "HOL-Library.Char_ord"
begin

text \<open>
  The data of regiloader/regiloader.cpp: names and prompts, what is known of the board under
  work (\<open>SysInfo\<close>), the numbering of the boards (\<open>SysState\<close>) with the MAC address it gives, the
  list of partitions, the check of the hardware, the licence, and the names of the actions.
  What is only printed is left out.
\<close>

type_synonym u64 = "64 word"

section \<open>Names\<close>

definition kConfName :: string where "kConfName = ''regiloader.json''"
definition kTtyDev :: string where "kTtyDev = ''ttyUSB0''"
definition kUBootImg :: string where "kUBootImg = ''u-boot''"
definition kKernelImg :: string where "kKernelImg = ''uImage''"
definition kKernelMods :: string where "kKernelMods = ''linux-kernel-modules.tar.gz''"
definition kRootFsImg :: string where "kRootFsImg = ''rootfs.tar.gz''"
definition kMtdUtils :: string where "kMtdUtils = ''mtd-utils.tar.gz''"
definition kIpkPath :: string where "kIpkPath = ''output/packets''"
definition kRegigrafIpk :: string where "kRegigrafIpk = ''regigraf.ipk''"
definition kRegigrafLicense :: string where "kRegigrafLicense = ''license.xml''"
definition kRbfName :: string where
  "kRbfName = ''cortex_a8.regigraf.1772.53.UNIVERSAL-last.rbf''"
definition kRootFsTar :: string where "kRootFsTar = ''/tmp/rootfs.tar.gz''"

text \<open>
  String literals have no backslash here: \<open>re\<close> writes it for \<open>%\<close>, which occurs in no expression
  of the sources.
\<close>

definition re :: "string \<Rightarrow> string" where
  "re s = map (\<lambda>c. if c = CHR ''%'' then CHR 0x5C else c) s"

definition kUBootPswdPrompt :: string where "kUBootPswdPrompt = ''Enter password:''"
definition kUBootPrompt :: string where "kUBootPrompt = ''Regiboard U-Boot >''"
definition kRamFsPrompt :: string where "kRamFsPrompt = re ''(.*)regiboard %(initramfs%)''"
definition kRegigrafLogin :: string where "kRegigrafLogin = ''regigraf login:''"
definition kRegigrafPrompt :: string where "kRegigrafPrompt = re ''(.*)%@regigraf''"

section \<open>What is known of a board\<close>

record Area =
  ar_from :: u64
  ar_to :: u64

definition area_Length :: "Area \<Rightarrow> u64" where
  "area_Length a = ar_to a - ar_from a"

record PacketInfo =
  pi_name :: string
  pi_version :: string

text \<open>The constructor leaves \<open>mtd_id\<close> as it is: \<open>junk\<close>.\<close>

record Partition =
  p_name :: string
  p_mtd_id :: byte
  p_area :: Area

definition new_Partition :: "byte \<Rightarrow> string \<Rightarrow> Area \<Rightarrow> Partition" where
  "new_Partition junk name area = \<lparr>p_name = name, p_mtd_id = junk, p_area = area\<rparr>"

record PeripheralsInfo =
  kn_spi :: "string list"
  kn_uarts :: "string list"
  kn_partitions :: "Partition list"
  kn_usb_uart :: "string list"
  kn_i2c :: string
  kn_mmc :: string
  kn_rtc :: string
  kn_ts :: string
  kn_lcd :: string

record SysInfo =
  si_board :: string
  si_u_boot_build :: string
  si_kernel_build :: string
  si_gcc_ver :: string
  si_ct_ng_ver :: string
  si_cpu :: string
  si_ddr :: string
  si_dram_size :: string
  si_nor :: string
  si_nor_size :: string
  si_nand :: string
  si_nand_size :: string
  si_sd_mmc :: string
  si_eth :: string
  si_board_ip :: string
  si_board_hw_addr :: string
  si_loadaddr :: string
  si_kernel :: PeripheralsInfo
  si_packets :: "PacketInfo list"
  si_wait_for_reboot :: bool
  si_upload_fail :: bool
  si_boot_from_nand :: bool
  si_mk_part_fail :: bool

definition new_PeripheralsInfo :: PeripheralsInfo where
  "new_PeripheralsInfo =
     \<lparr>kn_spi = [], kn_uarts = [], kn_partitions = [], kn_usb_uart = [], kn_i2c = '''',
      kn_mmc = '''', kn_rtc = '''', kn_ts = '''', kn_lcd = ''''\<rparr>"

text \<open>The constructor does not set \<open>mk_part_fail\<close>.\<close>

definition new_SysInfo :: "bool \<Rightarrow> SysInfo" where
  "new_SysInfo junk =
     \<lparr>si_board = '''', si_u_boot_build = '''', si_kernel_build = '''', si_gcc_ver = '''',
      si_ct_ng_ver = '''', si_cpu = '''', si_ddr = '''', si_dram_size = '''', si_nor = '''',
      si_nor_size = '''', si_nand = '''', si_nand_size = '''', si_sd_mmc = '''', si_eth = '''',
      si_board_ip = '''', si_board_hw_addr = '''', si_loadaddr = '''',
      si_kernel = new_PeripheralsInfo, si_packets = [], si_wait_for_reboot = False,
      si_upload_fail = False, si_boot_from_nand = False, si_mk_part_fail = junk\<rparr>"

text \<open>The first partition of that name; \<open>None\<close> is the null pointer.\<close>

fun FindPartition :: "string \<Rightarrow> Partition list \<Rightarrow> Partition option" where
  "FindPartition name [] = None"
| "FindPartition name (p # ps) = (if p_name p = name then Some p else FindPartition name ps)"

text \<open>A change through the pointer that \<open>FindPartition\<close> returns.\<close>

fun set_mtd_id :: "string \<Rightarrow> byte \<Rightarrow> Partition list \<Rightarrow> Partition list" where
  "set_mtd_id name i [] = []"
| "set_mtd_id name i (p # ps) =
     (if p_name p = name then p\<lparr>p_mtd_id := i\<rparr> # ps else p # set_mtd_id name i ps)"

lemma FindPartition_set_mtd_id:
  "FindPartition n (set_mtd_id name i ps) =
     (if n = name then map_option (\<lambda>p. p\<lparr>p_mtd_id := i\<rparr>) (FindPartition n ps) else FindPartition n ps)"
  by (induction ps) auto

section \<open>The numbering of the boards\<close>

record SysState =
  ss_stand :: u32
  ss_batch :: u32
  ss_device :: u32
  ss_lcd_model :: string
  ss_ts_model :: string
  ss_verbose :: bool
  ss_file_path :: string

definition new_SysState :: SysState where
  "new_SysState =
     \<lparr>ss_stand = 1, ss_batch = 3, ss_device = 1, ss_lcd_model = ''G150XGE-L04'',
      ss_ts_model = ''ADS7843E'', ss_verbose = False, ss_file_path = ''''\<rparr>"

definition CheckBatchCapacity :: "SysState \<Rightarrow> SysState" where
  "CheckBatchCapacity s =
     (if ss_device s < 256 then s else s\<lparr>ss_batch := ss_batch s + 1, ss_device := 1\<rparr>)"

text \<open>A property tree: what was put, in order.\<close>

type_synonym ptree = "(string \<times> string) list"

text \<open>\<open>Save\<close>: the file and the tree that \<open>write_json\<close> is given, if it is called.\<close>

definition Save :: "SysState \<Rightarrow> (string \<times> ptree) option" where
  "Save s =
     (if length (ss_file_path s) = 0 then None
      else Some (ss_file_path s,
        [(''stand_id'', show_dec (unat (ss_stand s))),
         (''batch_id'', show_dec (unat (ss_batch s))),
         (''device_id'', show_dec (unat (ss_device s))),
         (''lcd_model'', ss_lcd_model s),
         (''ts_model'', ss_ts_model s)]))"

text \<open>
  \<open>LoadFrom\<close>, with the reader of the property tree library as parameters: \<open>read_json path\<close> is
  the tree, or \<open>None\<close> where it throws; \<open>get_str\<close> and \<open>get_num\<close> read a value, or throw.
\<close>

definition LoadFrom ::
  "(string \<Rightarrow> 't option) \<Rightarrow> ('t \<Rightarrow> string \<Rightarrow> u32 option) \<Rightarrow> ('t \<Rightarrow> string \<Rightarrow> string option) \<Rightarrow>
   string \<Rightarrow> SysState \<Rightarrow> stop + (bool \<times> SysState)" where
  "LoadFrom read_json get_num get_str path s =
     (let s = s\<lparr>ss_file_path := path\<rparr> in
      case read_json path of
        None \<Rightarrow> Inr (False, s)
      | Some pt \<Rightarrow>
          (case (get_num pt ''stand_id'', get_num pt ''batch_id'', get_num pt ''device_id'',
                 get_str pt ''lcd_model'', get_str pt ''ts_model'') of
             (Some st, Some ba, Some dv, Some lcd, Some ts) \<Rightarrow>
               Inr (True, s\<lparr>ss_stand := st, ss_batch := ba, ss_device := dv,
                            ss_lcd_model := lcd, ss_ts_model := ts\<rparr>)
           | _ \<Rightarrow> Inl Thrown))"

definition GetDeviceId :: "SysState \<Rightarrow> string" where
  "GetDeviceId s =
     show_dec (unat (ss_stand s)) @ ''.'' @ show_dec (unat (ss_batch s)) @ ''.'' @
     show_dec (unat (ss_device s)) @ '' ''"

definition GetHwAddr :: "SysState \<Rightarrow> string" where
  "GetHwAddr s =
     ''00:60:2F:'' @ setw2 (show_hex (unat (ss_stand s))) @ '':'' @
     setw2 (show_hex (unat (ss_batch s))) @ '':'' @ setw2 (show_hex (unat (ss_device s)))"

text \<open>What \<open>RegisterBoard\<close> does to the numbering, saving apart.\<close>

definition next_board :: "SysState \<Rightarrow> SysState" where
  "next_board s = CheckBatchCapacity (s\<lparr>ss_device := ss_device s + 1\<rparr>)"

text \<open>The place of a board in the order of all boards of a stand, 255 to a batch.\<close>

definition serial :: "SysState \<Rightarrow> nat" where
  "serial s = 255 * unat (ss_batch s) + (unat (ss_device s) - 1)"

definition numbered :: "SysState \<Rightarrow> bool" where
  "numbered s \<longleftrightarrow> 1 \<le> ss_device s \<and> ss_device s < 256"

lemma numbered_unat: "numbered s \<longleftrightarrow> 1 \<le> unat (ss_device s) \<and> unat (ss_device s) < 256"
  by (simp add: numbered_def word_le_nat_alt word_less_nat_alt)

lemma next_board_serial:
  assumes "numbered s" "serial s + 1 < 255 * 2 ^ 32"
  shows "numbered (next_board s)" "serial (next_board s) = serial s + 1"
    "ss_stand (next_board s) = ss_stand s"
proof -
  have d: "unat (ss_device s + 1) = unat (ss_device s) + 1"
    using assms(1) by (simp add: numbered_unat unat_add_lem [THEN iffD1])
  have "ss_device s + 1 < 256 \<longleftrightarrow> unat (ss_device s) < 255"
    unfolding word_less_nat_alt d by simp
  moreover have "unat (ss_batch s + 1) = unat (ss_batch s) + 1" if "\<not> unat (ss_device s) < 255"
  proof -
    have "unat (ss_batch s) + 1 < 2 ^ 32" using assms that by (simp add: numbered_unat serial_def)
    then show ?thesis by (simp add: unat_add_lem [THEN iffD1])
  qed
  ultimately show "numbered (next_board s)" "serial (next_board s) = serial s + 1"
    "ss_stand (next_board s) = ss_stand s"
    using assms(1) d
    by (auto simp: next_board_def CheckBatchCapacity_def numbered_unat serial_def)
qed

lemma next_boards:
  assumes "numbered s" "serial s + n < 255 * 2 ^ 32"
  shows "numbered ((next_board ^^ n) s) \<and> serial ((next_board ^^ n) s) = serial s + n \<and>
    ss_stand ((next_board ^^ n) s) = ss_stand s"
  using assms(2)
proof (induction n)
  case (Suc n)
  then show ?case using next_board_serial [of "(next_board ^^ n) s"] by simp
qed (use assms(1) in simp)

lemma serial_parts:
  assumes "numbered s"
  shows "unat (ss_batch s) = serial s div 255 \<and> unat (ss_device s) = serial s mod 255 + 1"
proof -
  from assms obtain k where "unat (ss_device s) = Suc k" "k < 255"
    by (cases "unat (ss_device s)") (auto simp: numbered_unat)
  then show ?thesis by (simp add: serial_def)
qed

text \<open>Two digits, or three.\<close>

lemma char_of_48: "char_of (48::nat) = CHR ''0''"
  by (simp add: char_of_def bit_Suc_0_iff)

lemma hex_two: "n < 256 \<Longrightarrow> setw2 (show_hex n) = [hex_digit (n div 16), hex_digit (n mod 16)]"
  by (simp add: setw2_def show_hex.simps [of n] show_hex.simps [of "n div 16"] numeral_2_eq_2
      hex_digit_def char_of_48)

lemma hex_three:
  "256 \<le> n \<Longrightarrow> n < 4096 \<Longrightarrow> length (setw2 (show_hex n)) = 3"
proof -
  assume n: "256 \<le> n" "n < 4096"
  then have "16 \<le> n div 16" "n div 16 div 16 < 16" by linarith+
  with n have "length (show_hex n) = 3"
    by (simp add: show_hex.simps [of n] show_hex.simps [of "n div 16"]
        show_hex.simps [of "n div 16 div 16"] del: div_mult2_eq div_less)
  then show ?thesis by (simp add: setw2_def)
qed

lemma hex_digit_inj: "a < 16 \<Longrightarrow> b < 16 \<Longrightarrow> hex_digit a = hex_digit b \<Longrightarrow> a = b"
proof -
  assume *: "a < 16" "b < 16" "hex_digit a = hex_digit b"
  have "of_char (hex_digit n) = (if n < 10 then 48 + n else 55 + n)" if "n < 16" for n :: nat
    using that by (simp add: hex_digit_def)
  from this [OF *(1)] this [OF *(2)] *(3)
  have "(if a < 10 then 48 + a else 55 + a) = (if b < 10 then 48 + b else 55 + b)" by simp
  then show "a = b" by (simp split: if_splits)
qed

lemma hex_two_inj:
  assumes "m < 256" "n < 256" "setw2 (show_hex m) = setw2 (show_hex n)"
  shows "m = n"
proof -
  have "hex_digit (m div 16) = hex_digit (n div 16)" "hex_digit (m mod 16) = hex_digit (n mod 16)"
    using assms by (simp_all add: hex_two)
  moreover have "m div 16 < 16" "n div 16 < 16" using assms by linarith+
  ultimately have "m div 16 = n div 16" "m mod 16 = n mod 16" by (auto intro: hex_digit_inj)
  then show ?thesis by (metis div_mult_mod_eq)
qed

lemma length_hex_two: "n < 256 \<Longrightarrow> length (setw2 (show_hex n)) = 2"
  by (simp add: hex_two)

lemma GetHwAddr_inj:
  assumes "GetHwAddr s = GetHwAddr t"
    and "unat (ss_stand s) < 256" "unat (ss_batch s) < 256" "unat (ss_device s) < 256"
    and "unat (ss_stand t) < 256" "unat (ss_batch t) < 256" "unat (ss_device t) < 256"
  shows "ss_stand s = ss_stand t \<and> ss_batch s = ss_batch t \<and> ss_device s = ss_device t"
proof -
  define h where "h n = setw2 (show_hex n)" for n
  have l: "length (h n) = 2" if "n < 256" for n using that by (simp add: h_def length_hex_two)
  have "h (unat (ss_stand s)) @ '':'' @ h (unat (ss_batch s)) @ '':'' @ h (unat (ss_device s)) =
      h (unat (ss_stand t)) @ '':'' @ h (unat (ss_batch t)) @ '':'' @ h (unat (ss_device t))"
    using assms(1) unfolding GetHwAddr_def h_def by (simp only: append_same_eq same_append_eq)
  then have "h (unat (ss_stand s)) = h (unat (ss_stand t)) \<and> h (unat (ss_batch s)) = h (unat (ss_batch t)) \<and>
      h (unat (ss_device s)) = h (unat (ss_device t))"
    by (simp add: append_eq_append_conv l assms(2-7))
  with assms(2-7) show ?thesis unfolding h_def by (metis hex_two_inj word_unat_eq_iff)
qed

lemma GetHwAddr_length:
  assumes "unat (ss_stand s) < 256" "unat (ss_batch s) < 4096" "unat (ss_device s) < 256"
  shows "length (GetHwAddr s) = (if unat (ss_batch s) < 256 then 17 else 18)"
  using assms by (auto simp: GetHwAddr_def length_hex_two hex_three)

text \<open>C17: boards that are registered one after the other on one stand get different MAC
  addresses of 17 characters, up to the last device of batch 255.\<close>

theorem boards_get_distinct_addresses:
  assumes "numbered s" "unat (ss_stand s) < 256" "i < j" "serial s + j < 255 * 256"
  shows "GetHwAddr ((next_board ^^ i) s) \<noteq> GetHwAddr ((next_board ^^ j) s) \<and>
    length (GetHwAddr ((next_board ^^ i) s)) = 17 \<and> length (GetHwAddr ((next_board ^^ j) s)) = 17"
proof -
  let ?s = "(next_board ^^ i) s" and ?t = "(next_board ^^ j) s"
  from assms next_boards [of s i] next_boards [of s j] have st:
    "numbered ?s" "serial ?s = serial s + i" "ss_stand ?s = ss_stand s"
    "numbered ?t" "serial ?t = serial s + j" "ss_stand ?t = ss_stand s" by simp_all
  with assms have lt: "unat (ss_batch ?s) < 256" "unat (ss_device ?s) < 256"
    "unat (ss_batch ?t) < 256" "unat (ss_device ?t) < 256"
    by (auto simp: serial_parts)
  have "GetHwAddr ?s \<noteq> GetHwAddr ?t"
  proof
    assume "GetHwAddr ?s = GetHwAddr ?t"
    from GetHwAddr_inj [OF this] lt st assms(2)
    have "ss_batch ?s = ss_batch ?t \<and> ss_device ?s = ss_device ?t" by simp
    then have "serial ?s = serial ?t" by (simp add: serial_def)
    with st assms(3) show False by simp
  qed
  with lt st assms(2) show ?thesis by (simp add: GetHwAddr_length)
qed

theorem boards_get_distinct_addresses_witness:
  "GetHwAddr ((next_board ^^ 0) new_SysState) \<noteq> GetHwAddr ((next_board ^^ 300) new_SysState) \<and>
    length (GetHwAddr ((next_board ^^ 0) new_SysState)) = 17 \<and>
    length (GetHwAddr ((next_board ^^ 300) new_SysState)) = 17"
  by (rule boards_get_distinct_addresses) (simp_all add: new_SysState_def numbered_def serial_def)

text \<open>Nothing stops the numbering after batch 255: the board after it, and all up to batch
  4095, get an address with a third digit in its fifth group.\<close>

theorem addresses_run_over:
  assumes "numbered s" "unat (ss_stand s) < 256" "255 * 256 \<le> serial s + n" "serial s + n < 255 * 4096"
  shows "length (GetHwAddr ((next_board ^^ n) s)) = 18"
proof -
  let ?s = "(next_board ^^ n) s"
  from assms next_boards [of s n] have st:
    "numbered ?s" "serial ?s = serial s + n" "ss_stand ?s = ss_stand s" by simp_all
  then have "unat (ss_batch ?s) = (serial s + n) div 255" "unat (ss_device ?s) < 256"
    by (auto simp: serial_parts)
  moreover have "256 \<le> (serial s + n) div 255" "(serial s + n) div 255 < 4096"
    using assms(3,4) by linarith+
  ultimately show ?thesis using assms(2) st by (simp add: GetHwAddr_length)
qed

theorem addresses_run_over_witness:
  "length (GetHwAddr ((next_board ^^ 64515) new_SysState)) = 18"
  by (rule addresses_run_over) (simp_all add: new_SysState_def numbered_def serial_def)

section \<open>Time, and the file of a board\<close>

text \<open>The fields of a \<open>struct tm\<close> that are used.\<close>

record Tm =
  tm_year :: nat
  tm_mon :: nat
  tm_mday :: nat
  tm_hour :: nat
  tm_min :: nat
  tm_sec :: nat

definition GetTime :: "Tm \<Rightarrow> string" where
  "GetTime ltm =
     show_dec (tm_year ltm + 1900) @ ''-'' @ show_dec (tm_mon ltm + 1) @ ''-'' @
     show_dec (tm_mday ltm) @ '' '' @ show_dec (tm_hour ltm) @ '':'' @
     show_dec (tm_min ltm) @ '':'' @ show_dec (tm_sec ltm)"

definition WasManufacturedBy :: "string option \<Rightarrow> Tm \<Rightarrow> string \<Rightarrow> ptree" where
  "WasManufacturedBy host now node =
     (case host of None \<Rightarrow> [] | Some h \<Rightarrow> [(node @ ''.host'', h)]) @
     [(node @ ''.time'', GetTime now)]"

text \<open>The file that is written and what is put in the tree, in order; a length is cut to 32 bits.\<close>

definition board_file :: "string \<Rightarrow> SysState \<Rightarrow> string" where
  "board_file path s =
     path @ ''/board-'' @ show_dec (unat (ss_stand s)) @ ''.'' @ show_dec (unat (ss_batch s)) @
     ''.'' @ show_dec (unat (ss_device s)) @ ''.json''"

definition SaveSysInfoToJson ::
  "string option \<Rightarrow> Tm \<Rightarrow> string \<Rightarrow> SysState \<Rightarrow> SysInfo \<Rightarrow> string \<times> ptree" where
  "SaveSysInfoToJson host now path s si =
     (board_file path s,
      WasManufacturedBy host now ''manufacture'' @
      [(''board'', si_board si), (''cpu'', si_cpu si), (''uboot'', si_u_boot_build si),
       (''kernel'', si_kernel_build si), (''gcc'', si_gcc_ver si),
       (''crosstool'', si_ct_ng_ver si), (''dram.size'', si_dram_size si),
       (''dram.freq'', si_ddr si), (''nor.size'', si_nor_size si), (''nor.model'', si_nor si),
       (''nand.size'', si_nand_size si), (''nand.model'', si_nand si),
       (''mac_addr'', si_board_hw_addr si), (''rtc'', kn_rtc (si_kernel si)),
       (''ts'', kn_ts (si_kernel si)), (''lcd'', kn_lcd (si_kernel si)),
       (''spi'', show_dec (length (kn_spi (si_kernel si)))),
       (''uart'', show_dec (length (kn_uarts (si_kernel si)))),
       (''usb-uart'', show_dec (length (kn_usb_uart (si_kernel si))))] @
      map (\<lambda>p. (''partitions.'' @ p_name p,
                 show_dec (unat (ucast (area_Length (p_area p)) :: u32))))
        (kn_partitions (si_kernel si)) @
      map (\<lambda>p. (''packets.'' @ pi_name p, pi_version p)) (si_packets si))"

section \<open>The check of the hardware\<close>

definition CompareValues :: "'a \<Rightarrow> 'a \<Rightarrow> bool" where
  "CompareValues standart value \<longleftrightarrow> standart = value"

definition ValidateHardware :: "SysInfo \<Rightarrow> bool" where
  "ValidateHardware si =
     (let check_res = CompareValues ''Freescale i.MX53 family 2.1V at 800 MHz'' (si_cpu si);
          check_res = (check_res \<and> CompareValues ''1 GB'' (si_dram_size si));
          check_res = (check_res \<and> CompareValues ''332800000Hz'' (si_ddr si));
          check_res = (check_res \<and> CompareValues ''1000 KBytes'' (si_nor_size si));
          check_res = (check_res \<and> CompareValues ''at45db321d'' (si_nor si));
          check_res = (check_res \<and> CompareValues ''1 GiB'' (si_nand_size si));
          check_res = (check_res \<and> CompareValues ''MT29F8G08ABABA'' (si_nand si));
          check_res = (check_res \<and> CompareValues ''FEC0'' (si_eth si));
          check_res = (check_res \<and> CompareValues ''ADS7843'' (kn_ts (si_kernel si)));
          check_res = (check_res \<and> CompareValues ''ds3231'' (kn_rtc (si_kernel si)));
          check_res = (check_res \<and> CompareValues 3 (length (kn_spi (si_kernel si))));
          check_res = (check_res \<and> CompareValues 5 (length (kn_uarts (si_kernel si))));
          check_res = (check_res \<and> CompareValues 12 (length (kn_usb_uart (si_kernel si))));
          check_res = (check_res \<and> CompareValues 5 (length (kn_partitions (si_kernel si))))
      in check_res)"

section \<open>The licence\<close>

record License =
  li_math_chans :: u16
  li_math_tables :: u16
  li_math_tables_sz :: u16
  li_analog_out :: u16
  li_analog_in :: u16
  li_discrete_in :: u16
  li_interface_in :: u16
  li_relays :: u16
  li_events :: u16
  li_setpoints :: u16
  li_groups :: u16
  li_channels :: u16
  li_ethernet :: bool

definition new_License :: License where
  "new_License =
     \<lparr>li_math_chans = 48, li_math_tables = 12, li_math_tables_sz = 2500, li_analog_out = 48,
      li_analog_in = 48, li_discrete_in = 12, li_interface_in = 48, li_relays = 32,
      li_events = 32, li_setpoints = 8, li_groups = 16, li_channels = 48, li_ethernet = True\<rparr>"

text \<open>One attribute: name, value in quotes, a space.\<close>

definition attr :: "string \<Rightarrow> string \<Rightarrow> string" where
  "attr name val = name @ ''=\"'' @ val @ ''\" ''"

definition attr_num :: "string \<Rightarrow> u16 \<Rightarrow> string" where
  "attr_num name val = attr name (show_dec (unat val))"

definition attr_flag :: "string \<Rightarrow> bool \<Rightarrow> string" where
  "attr_flag name val = attr name (if val then ''TRUE'' else ''FALSE'')"

definition GenXml :: "License \<Rightarrow> string" where
  "GenXml l =
     ''<?xml version=\"1.0\" encoding=\"UTF-8\" ?>'' @ [CHR 0x0A] @
     ''<regigraf board=\"1772\" '' @
     attr_flag ''math_chans'' (li_math_chans l > 0) @
     attr_num ''mchannels_count'' (li_math_chans l) @
     attr_num ''mtables_count'' (li_math_tables l) @
     attr_num ''mtables_max_lines'' (li_math_tables_sz l) @
     attr_num ''analogs_out_count'' (li_analog_out l) @
     attr_num ''analogs_in_count'' (li_analog_in l) @
     attr_num ''discretes_in_count'' (li_discrete_in l) @
     attr_num ''interfaces_in_count'' (li_interface_in l) @
     attr_num ''relays_count'' (li_relays l) @
     attr_num ''events_count'' (li_events l) @
     attr_num ''setpoints_count'' (li_setpoints l) @
     attr_num ''groups_count'' (li_groups l) @
     attr_num ''channels_count'' (li_channels l) @
     attr_flag ''eth'' (li_ethernet l) @
     ''/>''"

end
