(* ===== verification/Loader_Parse.thy ===== *)
theory Loader_Parse
  imports Loader_Data
begin

text \<open>
  Reading a line of the board's console (regiloader/regiloader.cpp: \<open>Parse\<close>, \<open>FillInSysInfo\<close>).

  The regular expressions belong to a library: \<open>rx exp str\<close> is \<open>None\<close> where the whole of \<open>str\<close>
  does not match \<open>exp\<close>, and otherwise the whole match followed by its groups.
\<close>

type_synonym regex = "string \<Rightarrow> string \<Rightarrow> string list option"

section \<open>Parse\<close>

text \<open>A null pointer is \<open>None\<close>; a group that does not exist is empty.\<close>

definition Parse :: "regex \<Rightarrow> string \<Rightarrow> string \<Rightarrow> nat \<Rightarrow> string option \<Rightarrow> bool \<times> string option" where
  "Parse rx str exp i out =
     (if (case out of None \<Rightarrow> False | Some o1 \<Rightarrow> 0 < length o1) then (False, out)
      else (case rx exp str of
              None \<Rightarrow> (False, out)
            | Some res \<Rightarrow>
                (True, map_option (\<lambda>_. if i < length res then res ! i else '''') out)))"

definition Parse_list :: "regex \<Rightarrow> string \<Rightarrow> string \<Rightarrow> string list option \<Rightarrow> bool \<times> string list option" where
  "Parse_list rx str exp out =
     (if (case out of None \<Rightarrow> False | Some o1 \<Rightarrow> 0 < length o1) then (False, out)
      else (case rx exp str of
              None \<Rightarrow> (False, out)
            | Some res \<Rightarrow>
                (case out of None \<Rightarrow> (False, None) | Some o1 \<Rightarrow> (True, Some (o1 @ res)))))"

text \<open>A field that is filled in, and whether it was.\<close>

definition Parse_into :: "regex \<Rightarrow> string \<Rightarrow> string \<Rightarrow> nat \<Rightarrow> string \<Rightarrow> bool \<times> string" where
  "Parse_into rx str exp i old = (let (ok, o1) = Parse rx str exp i (Some old) in (ok, the o1))"

definition parsed :: "regex \<Rightarrow> string \<Rightarrow> string \<Rightarrow> nat \<Rightarrow> string \<Rightarrow> string" where
  "parsed rx str exp i old = snd (Parse_into rx str exp i old)"

text \<open>The first one that is not empty stays.\<close>

lemma parsed_keeps: "old \<noteq> '''' \<Longrightarrow> parsed rx str exp i old = old"
  by (simp add: parsed_def Parse_into_def Parse_def)

section \<open>Numbers\<close>

text \<open>
  \<open>std::stoull\<close> to the base 16 and \<open>std::stoi\<close>, on strings that start with a digit or are
  refused; both throw where the number does not fit.
\<close>

definition digit_val :: "char \<Rightarrow> nat option" where
  "digit_val c =
     (let n = of_char c in
      if 48 \<le> n \<and> n \<le> 57 then Some (n - 48)
      else if 97 \<le> n \<and> n \<le> 102 then Some (n - 87)
      else if 65 \<le> n \<and> n \<le> 70 then Some (n - 55)
      else None)"

fun digits_val :: "nat \<Rightarrow> nat \<Rightarrow> string \<Rightarrow> nat" where
  "digits_val base acc [] = acc"
| "digits_val base acc (c # cs) =
     (case digit_val c of
        Some d \<Rightarrow> (if d < base then digits_val base (base * acc + d) cs else acc)
      | None \<Rightarrow> acc)"

definition starts_with_digit :: "nat \<Rightarrow> string \<Rightarrow> bool" where
  "starts_with_digit base s =
     (case s of [] \<Rightarrow> False | c # _ \<Rightarrow> (case digit_val c of Some d \<Rightarrow> d < base | None \<Rightarrow> False))"

definition stoull16 :: "string \<Rightarrow> stop + u64" where
  "stoull16 s =
     (if \<not> starts_with_digit 16 s then Inl Thrown
      else if digits_val 16 0 s < 2 ^ 64 then Inr (word_of_nat (digits_val 16 0 s)) else Inl Thrown)"

definition stoi :: "string \<Rightarrow> stop + nat" where
  "stoi s =
     (if \<not> starts_with_digit 10 s then Inl Thrown
      else if digits_val 10 0 s < 2 ^ 31 then Inr (digits_val 10 0 s) else Inl Thrown)"

section \<open>FillInSysInfo\<close>

text \<open>The fields of the boot loader's messages, one expression each.\<close>

definition fill_uboot :: "regex \<Rightarrow> string \<Rightarrow> SysInfo \<Rightarrow> SysInfo" where
  "fill_uboot rx str i =
     i\<lparr>si_board := parsed rx str (re ''Board:(%s*)(.+)'') 2 (si_board i),
       si_u_boot_build := parsed rx str (re ''U-Boot(%s*)(.+)'') 2 (si_u_boot_build i),
       si_cpu := parsed rx str (re ''CPU:(%s*)(.+)'') 2 (si_cpu i),
       si_ddr := parsed rx str ''ddr clock([^:]*): (.+)'' 2 (si_ddr i),
       si_dram_size := parsed rx str (re ''DRAM:(%s*)(.+)'') 2 (si_dram_size i),
       si_nand := parsed rx str ''Description([^:]*): (.+)'' 2 (si_nand i),
       si_nand_size := parsed rx str ''Chip Size([^:]*): (.+)'' 2 (si_nand_size i),
       si_sd_mmc := parsed rx str (re ''MMC:(%s*)([^:]+)(.*)'') 2 (si_sd_mmc i),
       si_eth := parsed rx str ''FEC0(.*)'' 0 (si_eth i),
       si_loadaddr := parsed rx str ''loadaddr=(.+)'' 1 (si_loadaddr i)\<rparr>"

text \<open>The line with the version of the kernel.\<close>

definition fill_kernel :: "regex \<Rightarrow> string \<Rightarrow> string \<Rightarrow> SysInfo \<Rightarrow> SysInfo" where
  "fill_kernel rx str kernel_ver i =
     (let kernel_builder = parsed rx str (re ''(.+)%(([a-z@A-Z]+)%) %(gcc(.+)'') 2 '''';
          kernel_build_dt = parsed rx str ''(.+)PREEMPT (.*)'' 2 ''''
      in i\<lparr>si_gcc_ver := parsed rx str (re ''(.+)gcc version (.+) %(prerelease%)(.+)'') 2 (si_gcc_ver i),
           si_ct_ng_ver := parsed rx str (re ''(.+)crosstool-NG ([^%)]+)%)(.+)'') 2 (si_ct_ng_ver i),
           si_kernel_build := kernel_ver @ '' ('' @ kernel_builder @ '': '' @ kernel_build_dt @ '')''\<rparr>)"

definition upd_kernel :: "(PeripheralsInfo \<Rightarrow> PeripheralsInfo) \<Rightarrow> SysInfo \<Rightarrow> SysInfo" where
  "upd_kernel f i = i\<lparr>si_kernel := f (si_kernel i)\<rparr>"

text \<open>The rest of the function, from the partition table of \<open>/proc/mtd\<close> on.\<close>

definition fill_rest :: "regex \<Rightarrow> string \<Rightarrow> SysInfo \<Rightarrow> SysInfo" where
  "fill_rest rx str i =
     (let (ok, t_str) = Parse_into rx str (re ''Lease of ([0-9%.]+)(.*)'') 1 '''' in
      if ok then i\<lparr>si_board_ip := t_str\<rparr>
      else let (ok, t_str) = Parse_into rx str ''Please Power Cycle the board(.*)'' 1 '''' in
      if ok then i\<lparr>si_wait_for_reboot := True\<rparr>
      else let (ok, t_str) = Parse_into rx str ''(.*)ERROR: can't get kernel image(.*)'' 1 '''' in
      if ok then i\<lparr>si_upload_fail := True\<rparr>
      else let (ok, t_list) = Parse_list rx str (re ''(.+) - ([0-9%-%.]+) -(.*)'') (Some []) in
      if ok then i\<lparr>si_packets := si_packets i @ [\<lparr>pi_name = the t_list ! 1, pi_version = the t_list ! 2\<rparr>]\<rparr>
      else let (ok, t_str) = Parse_into rx str ''(.*)UBI error: ubi_create_volume(.*)'' 2 '''' in
      if ok then i\<lparr>si_mk_part_fail := True\<rparr> else i)"

definition fill_mtd :: "regex \<Rightarrow> string \<Rightarrow> SysInfo \<Rightarrow> stop + SysInfo" where
  "fill_mtd rx str i =
     (let (ok, t_list) = Parse_list rx str (re ''mtd([0-9]+): ([0-9a-z]+) ([0-9a-z]+) \"([^\"]+)\"'') (Some []) in
      if \<not> ok then Inr i
      else (case FindPartition (the t_list ! 4) (kn_partitions (si_kernel i)) of
              None \<Rightarrow> Inr i
            | Some _ \<Rightarrow>
                (case stoi (the t_list ! 1) of
                   Inl x \<Rightarrow> Inl x
                 | Inr n \<Rightarrow>
                     Inr (upd_kernel (\<lambda>k. k\<lparr>kn_partitions :=
                            set_mtd_id (the t_list ! 4) (word_of_nat n) (kn_partitions k)\<rparr>) i))))"

text \<open>A partition that the kernel reports.\<close>

definition fill_partition :: "byte \<Rightarrow> string list \<Rightarrow> SysInfo \<Rightarrow> stop + SysInfo" where
  "fill_partition junk t_list i =
     (case (stoull16 (t_list ! 2), stoull16 (t_list ! 3)) of
        (Inl x, _) \<Rightarrow> Inl x
      | (_, Inl x) \<Rightarrow> Inl x
      | (Inr kFrom, Inr kTo) \<Rightarrow>
          Inr (upd_kernel (\<lambda>k. k\<lparr>kn_partitions := kn_partitions k @
                 [new_Partition junk (t_list ! 4) \<lparr>ar_from = kFrom, ar_to = kTo\<rparr>]\<rparr>) i))"

text \<open>The messages of the kernel after the version line.\<close>

definition fill_dmesg :: "regex \<Rightarrow> byte \<Rightarrow> string \<Rightarrow> SysInfo \<Rightarrow> stop + SysInfo" where
  "fill_dmesg rx junk str i =
     (let k = si_kernel i;
          i = i\<lparr>si_kernel := k\<lparr>
                  kn_ts := parsed rx str ''(.+)input: ([^ ]+) Touchscreen as (.+)'' 2 (kn_ts k),
                  kn_lcd := parsed rx str ''(.+)Regiboard LCD setup: (.+)'' 2 (kn_lcd k),
                  kn_rtc := parsed rx str ''(.+)rtc-([^:]+): rtc core: registered ([^ ]+) as rtc0'' 3
                              (kn_rtc k)\<rparr>\<rparr>;
          (ok, t_str) = Parse_into rx str (re ''(.+)CSPI: ([^%x20]+)(.+)'') 2 '''' in
      if ok then Inr (upd_kernel (\<lambda>k. k\<lparr>kn_spi := kn_spi k @ [t_str]\<rparr>) i)
      else let (ok, t_str) = Parse_into rx str (re ''(.+)mxcintuart.(%d+): (%w+)(.+)'') 3 '''' in
      if ok then Inr (upd_kernel (\<lambda>k. k\<lparr>kn_uarts := kn_uarts k @ [t_str]\<rparr>) i)
      else let (ok, t_str) =
             Parse_into rx str (re ''(.+)USB Serial Device converter now attached to (%w+)'') 2 '''' in
      if ok then Inr (upd_kernel (\<lambda>k. k\<lparr>kn_usb_uart := kn_usb_uart k @ [t_str]\<rparr>) i)
      else let (ok, t_list) =
             Parse_list rx str (re ''(.+)0x([0-9a-f]+)-0x([0-9a-f]+) : \"(%w+)\"'') (Some []) in
      if ok then fill_partition junk (the t_list) i
      else (case fill_mtd rx str i of Inl x \<Rightarrow> Inl x | Inr i \<Rightarrow> Inr (fill_rest rx str i)))"

definition FillInSysInfo :: "regex \<Rightarrow> byte \<Rightarrow> string \<Rightarrow> SysInfo \<Rightarrow> stop + SysInfo" where
  "FillInSysInfo rx junk str i =
     (let i = fill_uboot rx str i;
          (ok, kernel_ver) = Parse_into rx str (re ''(.+)Linux version ([0-9a-z%.%-]+)(.+)'') 2 '''' in
      if ok then Inr (fill_kernel rx str kernel_ver i)
      else let (ok, nor) =
             Parse_into rx str (re ''(.+)mxc_dataflash spi([^%:]+): ([a-zA-Z0-9]+)(.+)'') 3 (si_nor i);
           i = i\<lparr>si_nor := nor\<rparr> in
      if ok then Inr (i\<lparr>si_nor_size :=
             parsed rx str (re ''(.+)%(([^%)]+)%) pagesize(.+)'') 2 (si_nor_size i)\<rparr>)
      else fill_dmesg rx junk str i)"

section \<open>What is known stays known\<close>

definition keeps_text :: "string \<Rightarrow> string \<Rightarrow> bool" where
  "keeps_text old new \<longleftrightarrow> old = '''' \<or> new = old"

definition extends :: "'a list \<Rightarrow> 'a list \<Rightarrow> bool" where
  "extends old new \<longleftrightarrow> take (length old) new = old"

lemma keeps_text_refl [simp]: "keeps_text s s"
  by (simp add: keeps_text_def)

lemma keeps_text_trans: "keeps_text a b \<Longrightarrow> keeps_text b c \<Longrightarrow> keeps_text a c"
  by (auto simp: keeps_text_def)

lemma keeps_parsed [simp]: "keeps_text s (parsed rx str exp i s)"
  by (cases "s = ''''") (simp_all add: keeps_text_def parsed_keeps)

lemma extends_refl [simp]: "extends xs xs"
  by (simp add: extends_def)

lemma extends_append [simp]: "extends xs (xs @ ys)"
  by (simp add: extends_def)

lemma extends_iff: "extends xs ys \<longleftrightarrow> (\<exists>zs. ys = xs @ zs)"
  unfolding extends_def by (metis append_eq_conv_conj append_take_drop_id)

lemma extends_trans: "extends a b \<Longrightarrow> extends b c \<Longrightarrow> extends a c"
  by (auto simp: extends_iff)

text \<open>
  The texts that the first line which has them gives, the lists that only grow, the partitions,
  of which the number of the device may change, and the flags that are only set.  The version
  of the kernel and the address of the board are not among them: the last line counts.
\<close>

definition texts :: "SysInfo \<Rightarrow> string list" where
  "texts i =
     [si_board i, si_u_boot_build i, si_gcc_ver i, si_ct_ng_ver i, si_cpu i, si_ddr i,
      si_dram_size i, si_nor i, si_nor_size i, si_nand i, si_nand_size i, si_sd_mmc i, si_eth i,
      si_loadaddr i, kn_ts (si_kernel i), kn_lcd (si_kernel i), kn_rtc (si_kernel i)]"

definition part_areas :: "SysInfo \<Rightarrow> (string \<times> Area) list" where
  "part_areas i = map (\<lambda>p. (p_name p, p_area p)) (kn_partitions (si_kernel i))"

definition keeps :: "SysInfo \<Rightarrow> SysInfo \<Rightarrow> bool" where
  "keeps i j \<longleftrightarrow> list_all2 keeps_text (texts i) (texts j) \<and>
     extends (kn_spi (si_kernel i)) (kn_spi (si_kernel j)) \<and>
     extends (kn_uarts (si_kernel i)) (kn_uarts (si_kernel j)) \<and>
     extends (kn_usb_uart (si_kernel i)) (kn_usb_uart (si_kernel j)) \<and>
     extends (part_areas i) (part_areas j) \<and> extends (si_packets i) (si_packets j) \<and>
     (si_wait_for_reboot i \<le> si_wait_for_reboot j) \<and> (si_upload_fail i \<le> si_upload_fail j) \<and>
     (si_mk_part_fail i \<le> si_mk_part_fail j) \<and> si_boot_from_nand i = si_boot_from_nand j \<and>
     si_board_hw_addr i = si_board_hw_addr j"

text \<open>
  The three that a later line replaces, and the expressions of those lines: the version of the
  kernel, the address of the board and the numbers of the devices of the partitions.
\<close>

abbreviation kernel_line :: string where
  "kernel_line \<equiv> re ''(.+)Linux version ([0-9a-z%.%-]+)(.+)''"

abbreviation lease_line :: string where
  "lease_line \<equiv> re ''Lease of ([0-9%.]+)(.*)''"

abbreviation mtd_line :: string where
  "mtd_line \<equiv> re ''mtd([0-9]+): ([0-9a-z]+) ([0-9a-z]+) \"([^\"]+)\"''"

definition mtd_ids :: "SysInfo \<Rightarrow> byte list" where
  "mtd_ids i = map p_mtd_id (kn_partitions (si_kernel i))"

definition line_keeps :: "regex \<Rightarrow> string \<Rightarrow> SysInfo \<Rightarrow> SysInfo \<Rightarrow> bool" where
  "line_keeps rx str i j \<longleftrightarrow> keeps i j \<and>
     (si_kernel_build j = si_kernel_build i \<or> rx kernel_line str \<noteq> None) \<and>
     (si_board_ip j = si_board_ip i \<or> rx lease_line str \<noteq> None) \<and>
     (extends (mtd_ids i) (mtd_ids j) \<or> rx mtd_line str \<noteq> None)"

lemma keeps_trans: "keeps i j \<Longrightarrow> keeps j k \<Longrightarrow> keeps i k"
  unfolding keeps_def
  by (auto intro: extends_trans list_all2_trans [of keeps_text keeps_text keeps_text, OF keeps_text_trans])

lemma line_keeps_trans: "line_keeps rx str i j \<Longrightarrow> line_keeps rx str j k \<Longrightarrow> line_keeps rx str i k"
  unfolding line_keeps_def by (auto intro: keeps_trans extends_trans)

lemma matched_rx:
  "Parse_into rx str exp n old = (True, v) \<Longrightarrow> rx exp str \<noteq> None"
  "Parse_list rx str exp o1 = (True, o2) \<Longrightarrow> rx exp str \<noteq> None"
  by (auto simp: Parse_into_def Parse_def Parse_list_def Let_def split: prod.splits option.splits if_splits)

lemmas keeps_defs = line_keeps_def keeps_def texts_def part_areas_def mtd_ids_def upd_kernel_def Let_def

lemma keeps_uboot: "line_keeps rx str i (fill_uboot rx str i)"
  by (simp add: fill_uboot_def keeps_defs)

lemma keeps_kernel: "rx kernel_line str \<noteq> None \<Longrightarrow> line_keeps rx str i (fill_kernel rx str v i)"
  by (simp add: fill_kernel_def keeps_defs)

lemma keeps_rest: "line_keeps rx str i (fill_rest rx str i)"
proof (cases "Parse_into rx str lease_line 1 ''''")
  case (Pair ok t)
  then show ?thesis
    using matched_rx(1) [of rx str lease_line 1 "''''" t]
    by (cases ok) (simp_all add: fill_rest_def keeps_defs split: prod.splits)
qed

lemma set_mtd_id_areas:
  "map (\<lambda>p. (p_name p, p_area p)) (set_mtd_id n i ps) = map (\<lambda>p. (p_name p, p_area p)) ps"
  by (induction ps) auto

lemma keeps_mtd: "fill_mtd rx str i = Inr j \<Longrightarrow> line_keeps rx str i j"
  by (auto simp: fill_mtd_def keeps_defs set_mtd_id_areas
      split: prod.splits if_splits option.splits sum.splits dest: matched_rx(2))

lemma keeps_partition: "fill_partition junk l i = Inr j \<Longrightarrow> line_keeps rx str i j"
  by (auto simp: fill_partition_def keeps_defs split: sum.splits)

lemma keeps_dmesg:
  assumes "fill_dmesg rx junk str i = Inr j"
  shows "line_keeps rx str i j"
proof -
  define k where "k = si_kernel i"
  define i1 where "i1 = i\<lparr>si_kernel := k\<lparr>
      kn_ts := parsed rx str ''(.+)input: ([^ ]+) Touchscreen as (.+)'' 2 (kn_ts k),
      kn_lcd := parsed rx str ''(.+)Regiboard LCD setup: (.+)'' 2 (kn_lcd k),
      kn_rtc := parsed rx str ''(.+)rtc-([^:]+): rtc core: registered ([^ ]+) as rtc0'' 3 (kn_rtc k)\<rparr>\<rparr>"
  have 1: "line_keeps rx str i i1" by (simp add: i1_def k_def keeps_defs)
  have u: "line_keeps rx str i1 (upd_kernel (\<lambda>k. k\<lparr>kn_spi := kn_spi k @ [t]\<rparr>) i1)"
    "line_keeps rx str i1 (upd_kernel (\<lambda>k. k\<lparr>kn_uarts := kn_uarts k @ [t]\<rparr>) i1)"
    "line_keeps rx str i1 (upd_kernel (\<lambda>k. k\<lparr>kn_usb_uart := kn_usb_uart k @ [t]\<rparr>) i1)" for t
    by (simp_all add: keeps_defs)
  have m: "line_keeps rx str i1 (fill_rest rx str a)" if "fill_mtd rx str i1 = Inr a" for a
    using line_keeps_trans [OF keeps_mtd [OF that] keeps_rest] .
  have "line_keeps rx str i1 j"
    using assms u m keeps_partition [of junk _ i1 j]
    unfolding fill_dmesg_def k_def [symmetric] i1_def [symmetric] Let_def
    by (auto split: prod.splits if_splits sum.splits)
  with 1 show ?thesis by (rule line_keeps_trans)
qed

lemma keeps_nor:
  "line_keeps rx str i (i\<lparr>si_nor := snd (Parse_into rx str exp n (si_nor i))\<rparr>)"
  "line_keeps rx str i (i\<lparr>si_nor := snd (Parse_into rx str exp n (si_nor i)),
      si_nor_size := parsed rx str e2 m (si_nor_size i)\<rparr>)"
  by (simp_all add: keeps_defs flip: parsed_def)

lemma FillInSysInfo_keeps_known:
  assumes "FillInSysInfo rx junk str i = Inr j"
  shows "line_keeps rx str i j"
proof -
  let ?u = "fill_uboot rx str i"
  let ?p = "Parse_into rx str (re ''(.+)mxc_dataflash spi([^%:]+): ([a-zA-Z0-9]+)(.+)'') 3 (si_nor ?u)"
  have "line_keeps rx str ?u j"
  proof (cases "Parse_into rx str kernel_line 2 ''''")
    case (Pair ok v)
    show ?thesis
    proof (cases ok)
      case True
      with Pair have "rx kernel_line str \<noteq> None" by (auto dest: matched_rx(1))
      with True Pair assms keeps_kernel [of rx str ?u] show ?thesis by (auto simp: FillInSysInfo_def)
    next
      case False
      show ?thesis
      proof (cases "fst ?p")
        case True
        with Pair False assms keeps_nor(2) [of rx str ?u] show ?thesis
          by (auto simp: FillInSysInfo_def Let_def case_prod_unfold)
      next
        case np: False
        with Pair False assms have "fill_dmesg rx junk str (?u\<lparr>si_nor := snd ?p\<rparr>) = Inr j"
          by (auto simp: FillInSysInfo_def Let_def case_prod_unfold)
        from line_keeps_trans [OF keeps_nor(1) keeps_dmesg [OF this]] show ?thesis .
      qed
    qed
  qed
  with keeps_uboot show ?thesis by (rule line_keeps_trans)
qed

text \<open>C18: what a line of the console may change: the seventeen texts of \<open>texts\<close> stay as the first
  line that has them told, the lists of devices, partitions and packets only grow, and no flag is reset;
  the version of the kernel, the address of the board and the numbers of the devices of the partitions
  known so far stay too, unless the line matches the expression for it: then the new value replaces the
  one that earlier lines told.\<close>

theorem FillInSysInfo_keeps:
  assumes "FillInSysInfo rx junk str i = Inr j"
  shows "keeps i j \<and>
    (si_kernel_build j = si_kernel_build i \<or> rx kernel_line str \<noteq> None) \<and>
    (si_board_ip j = si_board_ip i \<or> rx lease_line str \<noteq> None) \<and>
    (extends (mtd_ids i) (mtd_ids j) \<or> rx mtd_line str \<noteq> None)"
  using FillInSysInfo_keeps_known [OF assms] by (simp add: line_keeps_def)

text \<open>A line with the version of the kernel always replaces it, even by a shorter text.\<close>

lemma kernel_build_is_the_last:
  assumes "rx kernel_line str = Some res"
  shows "\<exists>j builder dt. FillInSysInfo rx junk str i = Inr j \<and>
    si_kernel_build j = (if 2 < length res then res ! 2 else '''') @ '' ('' @ builder @ '': '' @ dt @ '')''"
  using assms
  by (simp add: FillInSysInfo_def Parse_into_def Parse_def fill_kernel_def Let_def) blast

text \<open>Two lines of a boot, with the expressions that match them.\<close>

definition some_rx :: regex where
  "some_rx exp str =
     (if exp = ''FEC0(.*)'' \<and> str = ''FEC0 [PRIME]'' then Some [str, '' [PRIME]'']
      else if exp = re ''Lease of ([0-9%.]+)(.*)'' \<and> str = ''Lease of 10.0.0.9''
      then Some [str, ''10.0.0.9'', '''']
      else None)"

lemma some_rx_lease:
  "FillInSysInfo some_rx 0 ''Lease of 10.0.0.9'' i = Inr (i\<lparr>si_board_ip := ''10.0.0.9''\<rparr>)"
  by (simp add: FillInSysInfo_def fill_uboot_def fill_dmesg_def fill_mtd_def fill_rest_def
      parsed_def Parse_into_def Parse_def Parse_list_def some_rx_def re_def Let_def)

theorem FillInSysInfo_keeps_witness:
  "keeps ((new_SysInfo False)\<lparr>si_eth := ''FEC0'', si_board_ip := ''10.0.0.1''\<rparr>)
     ((new_SysInfo False)\<lparr>si_eth := ''FEC0'', si_board_ip := ''10.0.0.9''\<rparr>) \<and>
   some_rx lease_line ''Lease of 10.0.0.9'' \<noteq> None"
  using FillInSysInfo_keeps [OF some_rx_lease [of "(new_SysInfo False)\<lparr>si_eth := ''FEC0'', si_board_ip := ''10.0.0.1''\<rparr>"]]
  by simp

end
