(* ===== verification/Loader_Console.thy ===== *)
theory Loader_Console
  imports Asio_Read Loader_Parse Regi_Retry
begin

text \<open>
  The console of the board (regiloader/regiloader.cpp): sending a command, and reading lines
  until one matches what is waited for.

  The static variables of the program are fields of \<open>Console\<close>.  \<open>w_reads\<close> are the events of
  the port while \<open>AsioIface\<close> reads from it, \<open>w_sent\<close> what was written to it.  The pointer to a
  \<open>SysInfo\<close> that the functions get is null or points to \<open>g_sys_inf\<close>: it is a truth value.  A
  write throws where it fails, which ends the program and is not modelled.

  What the library and the uninitialised memory contribute is in \<open>Env\<close>.
\<close>

record Env =
  e_rx :: regex
  e_mtd :: byte
  e_resp :: byte

record Console =
  w_eth_is_ready :: bool
  w_already_has_been :: bool
  w_shell_prompt :: string
  w_parts_are_ready :: bool
  w_timeout_fail :: bool
  w_inf :: SysInfo
  w_reads :: "AEv list"
  w_sent :: "byte list list"

section \<open>Sequences of statements\<close>

definition thenA :: "'w attempt \<Rightarrow> (bool \<Rightarrow> 'w \<Rightarrow> 'w attempt) \<Rightarrow> 'w attempt" where
  "thenA r k = (case r of Some (Inr (ok, w)) \<Rightarrow> k ok w | _ \<Rightarrow> r)"

text \<open>Statements one after the other, whatever they return.\<close>

fun doA :: "('w \<Rightarrow> 'w attempt) list \<Rightarrow> 'w \<Rightarrow> 'w attempt" where
  "doA [] w = Some (Inr (True, w))"
| "doA (f # fs) w = thenA (f w) (\<lambda>_. doA fs)"

text \<open>\<open>if (not f) return false;\<close> and then the rest.\<close>

definition orfail :: "('w \<Rightarrow> 'w attempt) \<Rightarrow> ('w \<Rightarrow> 'w attempt) \<Rightarrow> 'w \<Rightarrow> 'w attempt" where
  "orfail f rest w = thenA (f w) (\<lambda>ok w. if ok then rest w else Some (Inr (False, w)))"

definition setA :: "('w \<Rightarrow> 'w) \<Rightarrow> 'w \<Rightarrow> 'w attempt" where
  "setA f w = Some (Inr (True, f w))"

definition retA :: "bool \<Rightarrow> 'w \<Rightarrow> 'w attempt" where
  "retA b w = Some (Inr (b, w))"

lemma thenA_simps [simp]:
  "thenA None k = None" "thenA (Some (Inl x)) k = Some (Inl x)"
  "thenA (Some (Inr (ok, w))) k = k ok w"
  by (simp_all add: thenA_def)

lemma setA_simp [simp]: "setA f w = Some (Inr (True, f w))"
  by (simp add: setA_def)

lemma retA_simp [simp]: "retA b w = Some (Inr (b, w))"
  by (simp add: retA_def)

text \<open>
  A relation between the states before and after that every statement keeps, the sequence keeps.
\<close>

definition keepsA :: "('w \<Rightarrow> 'w \<Rightarrow> bool) \<Rightarrow> ('w \<Rightarrow> 'w attempt) \<Rightarrow> bool" where
  "keepsA R f \<longleftrightarrow> (\<forall>w ok t. f w = Some (Inr (ok, t)) \<longrightarrow> R w t)"

lemma keepsA_D: "keepsA R f \<Longrightarrow> f w = Some (Inr (ok, t)) \<Longrightarrow> R w t"
  by (auto simp: keepsA_def)

lemma keepsA_I: "(\<And>w ok t. f w = Some (Inr (ok, t)) \<Longrightarrow> R w t) \<Longrightarrow> keepsA R f"
  by (auto simp: keepsA_def)

locale transition =
  fixes R :: "'w \<Rightarrow> 'w \<Rightarrow> bool"
  assumes R_refl: "R w w" and R_trans: "R u v \<Longrightarrow> R v w \<Longrightarrow> R u w"
begin

lemma keeps_doA: "list_all (keepsA R) fs \<Longrightarrow> keepsA R (doA fs)"
proof (induction fs)
  case (Cons f fs)
  then show ?case
    by (auto simp: keepsA_def thenA_def split: option.splits sum.splits) (blast intro: R_trans)
qed (simp add: keepsA_def R_refl)

lemma keeps_orfail: "keepsA R f \<Longrightarrow> keepsA R g \<Longrightarrow> keepsA R (orfail f g)"
  by (auto simp: keepsA_def orfail_def thenA_def split: option.splits sum.splits if_splits)
    (blast intro: R_trans)+

lemma keeps_setA: "(\<And>w. R w (f w)) \<Longrightarrow> keepsA R (setA f)"
  by (simp add: keepsA_def)

lemma keeps_retA: "keepsA R (retA b)"
  by (simp add: keepsA_def R_refl)

end

section \<open>Commands\<close>

definition SendCmd :: "string \<Rightarrow> 'a Console_scheme \<Rightarrow> 'a Console_scheme" where
  "SendCmd cmd w = w\<lparr>w_sent := w_sent w @ [of_string (cmd @ [CHR 0x0D])]\<rparr>"

text \<open>Counting carriage returns; a reading that failed leaves the last character where it is.\<close>

partial_function (option) skip_loop ::
  "nat \<Rightarrow> nat \<Rightarrow> AsioIface \<Rightarrow> AEv list \<Rightarrow> (stop + AEv list) option" where
  "skip_loop limit n s es =
     (case asio_Read 1 es s of
        Inl x \<Rightarrow> Some (Inl x)
      | Inr (_, s, es) \<Rightarrow>
          (let n = (if a_buff s ! 0 = 0x0D then n + 1 else n) in
           if n < limit then skip_loop limit n s es else Some (Inr es)))"

definition SkipLines :: "nat \<Rightarrow> 'a Console_scheme \<Rightarrow> 'a Console_scheme attempt" where
  "SkipLines limit w =
     (case skip_loop limit 0 (new_AsioIface True 1 1 [0]) (w_reads w) of
        None \<Rightarrow> None
      | Some (Inl x) \<Rightarrow> Some (Inl x)
      | Some (Inr es) \<Rightarrow> Some (Inr (True, w\<lparr>w_reads := es\<rparr>)))"

text \<open>A line that is complete, or long enough.\<close>

definition fill_in :: "Env \<Rightarrow> bool \<Rightarrow> string \<Rightarrow> SysInfo \<Rightarrow> stop + SysInfo" where
  "fill_in e out str i = (if out then FillInSysInfo (e_rx e) (e_mtd e) str i else Inr i)"

partial_function (option) parse_loop ::
  "Env \<Rightarrow> string \<Rightarrow> bool \<Rightarrow> string \<Rightarrow> nat \<Rightarrow> AsioIface \<Rightarrow> 'a Console_scheme \<Rightarrow> 'a Console_scheme attempt" where
  "parse_loop e wait_for out str total_read s w =
     (case asio_Read 1 (w_reads w) s of
        Inl x \<Rightarrow> Some (Inl x)
      | Inr (_, s, es) \<Rightarrow>
          (let w = w\<lparr>w_reads := es\<rparr>; resp = a_buff s ! 0 in
           if ReadingWasFailed s then Some (Inr (False, w\<lparr>w_timeout_fail := True\<rparr>))
           else if resp = 0x0A \<or> total_read > 256 then
             (case fill_in e out str (w_inf w) of
                Inl x \<Rightarrow> Some (Inl x)
              | Inr i \<Rightarrow> parse_loop e wait_for out '''' 0 s (w\<lparr>w_inf := i\<rparr>))
           else if resp \<noteq> 0x0D then
             (let str = str @ [char_of (unat resp)] in
              if fst (Parse (e_rx e) str (wait_for @ ''(.*)'') 0 None) then Some (Inr (True, w))
              else parse_loop e wait_for out str (total_read + 1) s w)
           else parse_loop e wait_for out str total_read s w))"

definition ParseUntil :: "Env \<Rightarrow> string \<Rightarrow> bool \<Rightarrow> 'a Console_scheme \<Rightarrow> 'a Console_scheme attempt" where
  "ParseUntil e wait_for out w =
     parse_loop e wait_for out '''' 0 (new_AsioIface True 2 10 [e_resp e]) w"

definition SendToUBoot :: "Env \<Rightarrow> string \<Rightarrow> bool \<Rightarrow> 'a Console_scheme \<Rightarrow> 'a Console_scheme attempt" where
  "SendToUBoot e cmd out w =
     (if w_timeout_fail w then Some (Inr (False, w))
      else ParseUntil e kUBootPrompt out (SendCmd cmd w))"

definition SwitchShell :: "string \<Rightarrow> 'a Console_scheme \<Rightarrow> 'a Console_scheme" where
  "SwitchShell prompt w = w\<lparr>w_shell_prompt := prompt\<rparr>"

definition SendToShell :: "Env \<Rightarrow> string \<Rightarrow> bool \<Rightarrow> 'a Console_scheme \<Rightarrow> 'a Console_scheme attempt" where
  "SendToShell e cmd out w =
     (if w_timeout_fail w then Some (Inr (False, w))
      else ParseUntil e (w_shell_prompt w) out (SendCmd cmd w))"

definition UpdateListOfPartitions :: "Env \<Rightarrow> 'a Console_scheme \<Rightarrow> 'a Console_scheme attempt" where
  "UpdateListOfPartitions e w =
     (if w_parts_are_ready w then Some (Inr (True, w))
      else doA [SendToShell e ''cat /proc/mtd'' True, setA (\<lambda>w. w\<lparr>w_parts_are_ready := True\<rparr>)] w)"

section \<open>Every wait ends\<close>

lemma skip_loop_total: "asio_idle s \<Longrightarrow> skip_loop limit n s es \<noteq> None"
proof (induction "length es" arbitrary: n s es rule: less_induct)
  case less
  show ?case
  proof (cases "asio_Read 1 es s")
    case (Inr r)
    obtain k t es' where r: "r = (k, t, es')" by (cases r)
    from asio_Read_idle [OF Inr [unfolded r] less.prems] have "asio_idle t" "length es' < length es"
      by simp_all
    from less.hyps [OF this(2,1)] Inr r show ?thesis
      by (subst skip_loop.simps) (simp add: Let_def del: One_nat_def)
  qed (subst skip_loop.simps, simp)
qed

lemma SkipLines_total: "SkipLines limit w \<noteq> None"
  using skip_loop_total [OF new_AsioIface_idle [of 1 1 0], of limit 0 "w_reads w"]
  by (auto simp: SkipLines_def split: option.splits sum.splits)

lemma parse_loop_total: "asio_idle s \<Longrightarrow> parse_loop e p out str n s w \<noteq> None"
proof (induction "length (w_reads w)" arbitrary: str n s w rule: less_induct)
  case less
  show ?case
  proof (cases "asio_Read 1 (w_reads w) s")
    case (Inr r)
    obtain k t es' where r: "r = (k, t, es')" by (cases r)
    from asio_Read_idle [OF Inr [unfolded r] less.prems]
    have t: "asio_idle t" "length es' < length (w_reads w)" by simp_all
    have IH: "parse_loop e p out str' n' t (w\<lparr>w_reads := es', w_inf := i\<rparr>) \<noteq> None"
      "parse_loop e p out str' n' t (w\<lparr>w_reads := es'\<rparr>) \<noteq> None" for str' n' i
      using less.hyps t by simp_all
    from Inr r IH show ?thesis
      by (subst parse_loop.simps) (simp add: Let_def split: sum.split del: One_nat_def)
  qed (subst parse_loop.simps, simp)
qed

lemma ParseUntil_total: "ParseUntil e p out w \<noteq> None"
  unfolding ParseUntil_def by (rule parse_loop_total) (simp add: new_AsioIface_idle)

lemma SendTo_total: "SendToUBoot e c out w \<noteq> None" "SendToShell e c out w \<noteq> None"
  by (simp_all add: SendToUBoot_def SendToShell_def ParseUntil_total del: not_None_eq)

section \<open>What the console says\<close>

text \<open>
  The lines of a byte sequence: those that were complete (or longer than 256 characters) before
  the current one matched, whether it matched, and the bytes after that.
\<close>

fun scan :: "(string \<Rightarrow> bool) \<Rightarrow> string \<Rightarrow> nat \<Rightarrow> byte list \<Rightarrow> string list \<times> bool \<times> byte list" where
  "scan hit str n [] = ([], False, [])"
| "scan hit str n (b # bs) =
     (if b = 0x0A \<or> n > 256 then (let (ls, r) = scan hit '''' 0 bs in (str # ls, r))
      else if b \<noteq> 0x0D then
        (if hit (str @ [char_of (unat b)]) then ([], True, bs)
         else scan hit (str @ [char_of (unat b)]) (n + 1) bs)
      else scan hit str n bs)"

definition prompt_hit :: "Env \<Rightarrow> string \<Rightarrow> string \<Rightarrow> bool" where
  "prompt_hit e wait_for str \<longleftrightarrow> e_rx e (wait_for @ ''(.*)'') str \<noteq> None"

fun fill_lines :: "Env \<Rightarrow> bool \<Rightarrow> string list \<Rightarrow> SysInfo \<Rightarrow> stop + SysInfo" where
  "fill_lines e out [] i = Inr i"
| "fill_lines e out (l # ls) i = (case fill_in e out l i of Inl x \<Rightarrow> Inl x | Inr j \<Rightarrow> fill_lines e out ls j)"

text \<open>The events bring these bytes, each before the last time-out: what is left after them.\<close>

fun delivers :: "nat \<Rightarrow> byte list \<Rightarrow> AEv list \<Rightarrow> AEv list option" where
  "delivers k [] es = Some es"
| "delivers k (b # bs) es =
     (case turns_read k es of
        Some (Some d, False, r) \<Rightarrow> (if d = b then delivers k bs r else None)
      | _ \<Rightarrow> None)"

lemma Parse_hit: "fst (Parse (e_rx e) str (p @ ''(.*)'') 0 None) = prompt_hit e p str"
  by (simp add: Parse_def prompt_hit_def split: option.split)

lemma asio_Read_turns:
  assumes "asio_idle s" "turns_read (a_tries s) es = Some (d, f, es')"
  shows "\<exists>n t. asio_Read 1 es s = Inr (n, t, es') \<and> ReadingWasFailed t = f \<and>
    asio_idle t \<and> a_tries t = a_tries s \<and> (case d of None \<Rightarrow> True | Some b \<Rightarrow> a_buff t ! 0 = b)"
  using read_view_Some [OF trans [OF asio_Read_view [OF assms(1)] assms(2)]]
    asio_Read_idle [OF _ assms(1)] by blast

text \<open>One turn of the loop.\<close>

lemma parse_loop_step:
  assumes "asio_Read 1 (w_reads w) s = Inr (k, u, es)"
  shows "parse_loop e p out str n s w =
    (let b = a_buff u ! 0; str' = str @ [char_of (unat b)]; w' = w\<lparr>w_reads := es\<rparr> in
     if ReadingWasFailed u then Some (Inr (False, w'\<lparr>w_timeout_fail := True\<rparr>))
     else if b = 0x0A \<or> n > 256 then
       (case fill_in e out str (w_inf w) of
          Inl x \<Rightarrow> Some (Inl x)
        | Inr i \<Rightarrow> parse_loop e p out '''' 0 u (w'\<lparr>w_inf := i\<rparr>))
     else if b \<noteq> 0x0D then
       (if prompt_hit e p str' then Some (Inr (True, w')) else parse_loop e p out str' (n + 1) u w')
     else parse_loop e p out str n u w')"
  by (subst parse_loop.simps) (simp add: assms Let_def Parse_hit del: One_nat_def)

lemma parse_loop_byte:
  assumes "asio_idle s" "turns_read (a_tries s) (w_reads w) = Some (Some b, False, es)"
  shows "\<exists>t. asio_idle t \<and> a_tries t = a_tries s \<and> parse_loop e p out str n s w =
    (if b = 0x0A \<or> n > 256 then
       (case fill_in e out str (w_inf w) of
          Inl x \<Rightarrow> Some (Inl x)
        | Inr i \<Rightarrow> parse_loop e p out '''' 0 t (w\<lparr>w_reads := es, w_inf := i\<rparr>))
     else if b \<noteq> 0x0D then
       (if prompt_hit e p (str @ [char_of (unat b)]) then Some (Inr (True, w\<lparr>w_reads := es\<rparr>))
        else parse_loop e p out (str @ [char_of (unat b)]) (n + 1) t (w\<lparr>w_reads := es\<rparr>))
     else parse_loop e p out str n t (w\<lparr>w_reads := es\<rparr>))"
proof -
  from asio_Read_turns [OF assms] obtain k t where
    t: "asio_Read 1 (w_reads w) s = Inr (k, t, es)" "\<not> ReadingWasFailed t" "asio_idle t"
      "a_tries t = a_tries s" "a_buff t ! 0 = b" by auto
  then show ?thesis
    by (intro exI [of _ t]) (simp add: parse_loop_step [OF t(1)] Let_def)
qed

lemma parse_loop_silent:
  assumes "asio_idle s" "turns_read (a_tries s) (w_reads w) = Some (d, True, es)"
  shows "parse_loop e p out str n s w = Some (Inr (False, w\<lparr>w_reads := es, w_timeout_fail := True\<rparr>))"
proof -
  from asio_Read_turns [OF assms] obtain k t where
    t: "asio_Read 1 (w_reads w) s = Inr (k, t, es)" "ReadingWasFailed t" by auto
  then show ?thesis by (simp add: parse_loop_step [OF t(1)])
qed

text \<open>As long as nothing matches, only the lines so far count.\<close>

lemma parse_loop_scan:
  assumes "asio_idle s" "delivers (a_tries s) bs (w_reads w) = Some es"
    and "scan (prompt_hit e p) str n bs = (ls, False, rest)" "fill_lines e out ls (w_inf w) = Inr i"
  shows "\<exists>str' n' t. asio_idle t \<and> a_tries t = a_tries s \<and>
    parse_loop e p out str n s w = parse_loop e p out str' n' t (w\<lparr>w_reads := es, w_inf := i\<rparr>)"
  using assms
proof (induction bs arbitrary: str n s w ls)
  case Nil
  then have "w\<lparr>w_reads := es, w_inf := i\<rparr> = w" by simp
  with Nil.prems(1) show ?case by (intro exI [of _ str] exI [of _ n] exI [of _ s]) simp
next
  case (Cons b bs)
  then obtain r where r: "turns_read (a_tries s) (w_reads w) = Some (Some b, False, r)"
    "delivers (a_tries s) bs r = Some es"
    by (auto split: option.splits prod.splits bool.splits if_splits)
  obtain t where t: "asio_idle t" "a_tries t = a_tries s" and st: "parse_loop e p out str n s w =
    (if b = 0x0A \<or> n > 256 then
       (case fill_in e out str (w_inf w) of
          Inl x \<Rightarrow> Some (Inl x)
        | Inr i \<Rightarrow> parse_loop e p out '''' 0 t (w\<lparr>w_reads := r, w_inf := i\<rparr>))
     else if b \<noteq> 0x0D then
       (if prompt_hit e p (str @ [char_of (unat b)]) then Some (Inr (True, w\<lparr>w_reads := r\<rparr>))
        else parse_loop e p out (str @ [char_of (unat b)]) (n + 1) t (w\<lparr>w_reads := r\<rparr>))
     else parse_loop e p out str n t (w\<lparr>w_reads := r\<rparr>))"
    using parse_loop_byte [OF Cons.prems(1) r(1), of e p out str n] by blast
  note IH = Cons.IH [OF t(1), unfolded t(2)]
  show ?case
  proof (cases "b = 0x0A \<or> n > 256")
    case True
    with Cons.prems(3) obtain ls' where ls: "ls = str # ls'"
      "scan (prompt_hit e p) '''' 0 bs = (ls', False, rest)" by (auto split: prod.splits)
    from Cons.prems(4) ls(1) obtain j where j: "fill_in e out str (w_inf w) = Inr j"
      "fill_lines e out ls' j = Inr i" by (auto split: sum.splits)
    from IH [of "w\<lparr>w_reads := r, w_inf := j\<rparr>", OF _ ls(2)] r(2) j st True show ?thesis by simp
  next
    case False
    show ?thesis
    proof (cases "b = 0x0D")
      case True
      with False Cons.prems(3,4) IH [of "w\<lparr>w_reads := r\<rparr>" str n ls] r(2) st show ?thesis by simp
    next
      case b: False
      with False Cons.prems(3) have "\<not> prompt_hit e p (str @ [char_of (unat b)])"
        "scan (prompt_hit e p) (str @ [char_of (unat b)]) (n + 1) bs = (ls, False, rest)"
        by (auto split: if_splits)
      with False b Cons.prems(4) IH [of "w\<lparr>w_reads := r\<rparr>" "str @ [char_of (unat b)]" "n + 1" ls] r(2) st
      show ?thesis by simp
    qed
  qed
qed

text \<open>The last byte makes the current line match.\<close>

lemma parse_loop_match:
  assumes "asio_idle s" "delivers (a_tries s) bs (w_reads w) = Some es"
    and "scan (prompt_hit e p) str n bs = (ls, True, [])" "fill_lines e out ls (w_inf w) = Inr i"
  shows "parse_loop e p out str n s w = Some (Inr (True, w\<lparr>w_reads := es, w_inf := i\<rparr>))"
  using assms
proof (induction bs arbitrary: str n s w ls)
  case (Cons b bs)
  then obtain r where r: "turns_read (a_tries s) (w_reads w) = Some (Some b, False, r)"
    "delivers (a_tries s) bs r = Some es"
    by (auto split: option.splits prod.splits bool.splits if_splits)
  obtain t where t: "asio_idle t" "a_tries t = a_tries s" and st: "parse_loop e p out str n s w =
    (if b = 0x0A \<or> n > 256 then
       (case fill_in e out str (w_inf w) of
          Inl x \<Rightarrow> Some (Inl x)
        | Inr i \<Rightarrow> parse_loop e p out '''' 0 t (w\<lparr>w_reads := r, w_inf := i\<rparr>))
     else if b \<noteq> 0x0D then
       (if prompt_hit e p (str @ [char_of (unat b)]) then Some (Inr (True, w\<lparr>w_reads := r\<rparr>))
        else parse_loop e p out (str @ [char_of (unat b)]) (n + 1) t (w\<lparr>w_reads := r\<rparr>))
     else parse_loop e p out str n t (w\<lparr>w_reads := r\<rparr>))"
    using parse_loop_byte [OF Cons.prems(1) r(1), of e p out str n] by blast
  note IH = Cons.IH [OF t(1), unfolded t(2)]
  show ?case
  proof (cases "b = 0x0A \<or> n > 256")
    case True
    with Cons.prems(3) obtain ls' where ls: "ls = str # ls'"
      "scan (prompt_hit e p) '''' 0 bs = (ls', True, [])" by (auto split: prod.splits)
    from Cons.prems(4) ls(1) obtain j where j: "fill_in e out str (w_inf w) = Inr j"
      "fill_lines e out ls' j = Inr i" by (auto split: sum.splits)
    from IH [of "w\<lparr>w_reads := r, w_inf := j\<rparr>", OF _ ls(2)] r(2) j st True show ?thesis by simp
  next
    case False
    show ?thesis
    proof (cases "b = 0x0D \<or> \<not> prompt_hit e p (str @ [char_of (unat b)])")
      case True
      with False Cons.prems(3,4) IH [of "w\<lparr>w_reads := r\<rparr>" str n ls]
        IH [of "w\<lparr>w_reads := r\<rparr>" "str @ [char_of (unat b)]" "n + 1" ls] r(2) st
      show ?thesis by (cases "b = 0x0D") simp_all
    next
      case hit: False
      with False Cons.prems(3,4) have "bs = []" "ls = []" by auto
      with hit False st r(2) Cons.prems(4) show ?thesis by simp
    qed
  qed
qed simp

lemma new_tries: "a_tries (new_AsioIface port timeout tries buff) = tries"
  by (simp add: new_AsioIface_def)

lemma ParseUntil_match:
  assumes "delivers 10 bs (w_reads w) = Some es"
    and "scan (prompt_hit e p) '''' 0 bs = (ls, True, [])" "fill_lines e out ls (w_inf w) = Inr i"
  shows "ParseUntil e p out w = Some (Inr (True, w\<lparr>w_reads := es, w_inf := i\<rparr>))"
  unfolding ParseUntil_def
  by (rule parse_loop_match [where bs = bs and ls = ls])
    (use assms in \<open>simp_all add: new_AsioIface_idle new_tries\<close>)

text \<open>C14: \<open>ParseUntil\<close> reads the bytes of the console up to the first at which the current line
  matches the prompt: it returns true, has filled in the complete lines before, in order, and has
  taken no byte more from the port.\<close>

theorem ParseUntil_stops_at_prompt:
  assumes "delivers 10 bs (w_reads w) = Some es"
    and "scan (prompt_hit e p) '''' 0 bs = (ls, True, [])" "fill_lines e out ls (w_inf w) = Inr i"
  shows "ParseUntil e p out w = Some (Inr (True, w\<lparr>w_reads := es, w_inf := i\<rparr>))"
  using assms by (rule ParseUntil_match)

lemma fill_lines_False: "fill_lines e False ls i = Inr i"
  by (induction ls) (simp_all add: fill_in_def)

lemma ParseUntil_silent:
  assumes "delivers 10 bs (w_reads w) = Some (evs_of ps @ es)" "list_all silent ps" "length ps = 10"
    and "scan (prompt_hit e p) '''' 0 bs = (ls, False, rest)" "fill_lines e out ls (w_inf w) = Inr i"
  shows "ParseUntil e p out w = Some (Inr (False, w\<lparr>w_reads := es, w_inf := i, w_timeout_fail := True\<rparr>))"
proof -
  have s: "asio_idle (new_AsioIface True 2 10 [e_resp e])" by (simp add: new_AsioIface_idle)
  from parse_loop_scan [OF s, unfolded new_tries, OF assms(1,4,5)] obtain str' n' t where
    t: "asio_idle t" "a_tries t = 10" and
    r: "ParseUntil e p out w = parse_loop e p out str' n' t (w\<lparr>w_reads := evs_of ps @ es, w_inf := i\<rparr>)"
    unfolding ParseUntil_def by blast
  have "turns_read (a_tries t) (evs_of ps @ es) = Some (None, True, es)"
    using turns_read_all_silent [OF assms(2)] assms(3) t(2) by simp
  from parse_loop_silent [OF t(1), of "w\<lparr>w_reads := evs_of ps @ es, w_inf := i\<rparr>", simplified, OF this]
  show ?thesis unfolding r by simp
qed

text \<open>C15: a board that says nothing for ten time-outs in a row, whatever it said before, makes
  \<open>ParseUntil\<close> return false; the lines before count, and the failure is remembered.\<close>

theorem ParseUntil_gives_up:
  assumes "delivers 10 bs (w_reads w) = Some (evs_of ps @ es)" "list_all silent ps" "length ps = 10"
    and "scan (prompt_hit e p) '''' 0 bs = (ls, False, rest)" "fill_lines e out ls (w_inf w) = Inr i"
  shows "ParseUntil e p out w = Some (Inr (False, w\<lparr>w_reads := es, w_inf := i, w_timeout_fail := True\<rparr>))"
  using assms by (rule ParseUntil_silent)

text \<open>Bytes that arrive one after the other.\<close>

definition arriving :: "byte list \<Rightarrow> AEv list" where
  "arriving bs = concat (map (\<lambda>b. [AEv 0 (AGot [b]), AEv 0 AFail]) bs)"

lemma delivers_arriving: "0 < k \<Longrightarrow> delivers k bs (arriving bs @ es) = Some es"
  by (induction bs) (auto simp: arriving_def)

text \<open>A console that answers \<open>ok\<close>, a line feed and the prompt; and one that stops before it.\<close>

definition ok_env :: Env where
  "ok_env = \<lparr>e_rx = (\<lambda>exp str. if exp = ''>(.*)'' \<and> str = ''>'' then Some [str, ''''] else None),
     e_mtd = 0, e_resp = 0\<rparr>"

definition new_Console :: "AEv list \<Rightarrow> Console" where
  "new_Console es = \<lparr>w_eth_is_ready = False, w_already_has_been = False, w_shell_prompt = kRamFsPrompt,
     w_parts_are_ready = False, w_timeout_fail = False, w_inf = new_SysInfo False, w_reads = es, w_sent = []\<rparr>"

lemma scan_ok: "scan (prompt_hit ok_env ''>'') '''' 0 (of_string ''ok'' @ [0x0A] @ of_string ''>'') = ([''ok''], True, [])"
  "scan (prompt_hit ok_env ''>'') '''' 0 (of_string ''ok'' @ [0x0A]) = ([''ok''], False, [])"
  by code_simp+

theorem ParseUntil_stops_at_prompt_witness:
  "ParseUntil ok_env ''>'' False (new_Console (arriving (of_string ''ok'' @ [0x0A] @ of_string ''>'') @ []))
    = Some (Inr (True, (new_Console (arriving (of_string ''ok'' @ [0x0A] @ of_string ''>'') @ []))
        \<lparr>w_reads := [], w_inf := new_SysInfo False\<rparr>))"
  by (rule ParseUntil_stops_at_prompt [OF _ scan_ok(1)])
    (unfold new_Console_def Console.simps, rule delivers_arriving, simp, simp add: fill_in_def)

theorem ParseUntil_gives_up_witness:
  "ParseUntil ok_env ''>'' False
      (new_Console (arriving (of_string ''ok'' @ [0x0A]) @ evs_of (replicate 10 (AEv 1 AFired, AEv 0 AFail)) @ []))
    = Some (Inr (False, (new_Console (arriving (of_string ''ok'' @ [0x0A]) @ evs_of (replicate 10 (AEv 1 AFired, AEv 0 AFail)) @ []))
        \<lparr>w_reads := [], w_inf := new_SysInfo False, w_timeout_fail := True\<rparr>))"
  by (rule ParseUntil_gives_up [OF _ _ _ scan_ok(2)])
    (unfold new_Console_def Console.simps, rule delivers_arriving, simp,
      simp_all add: silent_def fill_in_def list_all_length)

section \<open>Only three fields change\<close>

definition only_console :: "'a Console_scheme \<Rightarrow> 'a Console_scheme \<Rightarrow> bool" where
  "only_console w t \<longleftrightarrow> (\<exists>es i f. t = w\<lparr>w_reads := es, w_inf := i, w_timeout_fail := f\<rparr>)"

lemma only_console_trans: "only_console u v \<Longrightarrow> only_console v w \<Longrightarrow> only_console u w"
  by (auto simp: only_console_def) (rule_tac exI, rule_tac exI, rule_tac exI, rule refl)

lemma only_console_upd:
  "only_console w (w\<lparr>w_reads := es\<rparr>)" "only_console w (w\<lparr>w_reads := es, w_inf := i\<rparr>)"
  "only_console w (w\<lparr>w_reads := es, w_timeout_fail := f\<rparr>)"
proof -
  have "w\<lparr>w_reads := es\<rparr> = w\<lparr>w_reads := es, w_inf := w_inf w, w_timeout_fail := w_timeout_fail w\<rparr>"
    "w\<lparr>w_reads := es, w_inf := i\<rparr> = w\<lparr>w_reads := es, w_inf := i, w_timeout_fail := w_timeout_fail w\<rparr>"
    "w\<lparr>w_reads := es, w_timeout_fail := f\<rparr> = w\<lparr>w_reads := es, w_inf := w_inf w, w_timeout_fail := f\<rparr>"
    by simp_all
  then show "only_console w (w\<lparr>w_reads := es\<rparr>)" "only_console w (w\<lparr>w_reads := es, w_inf := i\<rparr>)"
    "only_console w (w\<lparr>w_reads := es, w_timeout_fail := f\<rparr>)"
    unfolding only_console_def by blast+
qed

text \<open>
  What a wait does: some events are used up, the flag of failure tells its result, and what is
  known of the board changes only if the lines are to be filled in.
\<close>

definition waited :: "bool \<Rightarrow> bool \<Rightarrow> 'a Console_scheme \<Rightarrow> 'a Console_scheme \<Rightarrow> bool" where
  "waited out ok w t \<longleftrightarrow> only_console w t \<and> length (w_reads t) < length (w_reads w) \<and>
     (out \<or> w_inf t = w_inf w) \<and>
     (if ok then w_timeout_fail t = w_timeout_fail w else w_timeout_fail t)"

lemma parse_loop_frame:
  assumes "asio_idle s" "parse_loop e p out str n s w = Some (Inr (ok, t))"
  shows "waited out ok w t"
  using assms
proof (induction "length (w_reads w)" arbitrary: str n s w rule: less_induct)
  case less
  obtain k u es where r: "asio_Read 1 (w_reads w) s = Inr (k, u, es)"
    using less.prems(2) by (subst (asm) parse_loop.simps) (auto split: sum.splits simp del: One_nat_def)
  from asio_Read_idle [OF r less.prems(1)] have u: "asio_idle u" "length es < length (w_reads w)" by simp_all
  have IH: "waited out ok v t"
    if "parse_loop e p out str' n' u v = Some (Inr (ok, t))" "w_reads v = es" for v str' n'
    using less.hyps [OF _ u(1) that(1)] that(2) u(2) by simp
  let ?w = "w\<lparr>w_reads := es\<rparr>" and ?b = "a_buff u ! 0"
  have go: "waited out ok w t"
    if "parse_loop e p out str' n' u ?w = Some (Inr (ok, t))" for str' n'
    using IH [OF that] u(2) only_console_trans [OF only_console_upd(1)] by (auto simp: waited_def)
  have fill: "waited out ok w t"
    if "parse_loop e p out '''' 0 u (?w\<lparr>w_inf := i\<rparr>) = Some (Inr (ok, t))"
      "fill_in e out str (w_inf w) = Inr i" for i
    using IH [OF that(1)] that(2) u(2) only_console_trans [OF only_console_upd(2)]
    by (cases out) (auto simp: waited_def fill_in_def)
  have "waited out True w ?w" "waited out False w (?w\<lparr>w_timeout_fail := True\<rparr>)"
    using u(2) by (auto simp: waited_def only_console_upd)
  with less.prems(2) [unfolded parse_loop_step [OF r] Let_def] show ?case
    by (auto split: if_splits sum.splits intro: go fill)
qed

lemma ParseUntil_frame:
  "ParseUntil e p out w = Some (Inr (ok, t)) \<Longrightarrow> waited out ok w t"
  unfolding ParseUntil_def by (rule parse_loop_frame) (simp_all add: new_AsioIface_idle)

lemma only_console_simps:
  "only_console w t \<Longrightarrow> w_sent t = w_sent w \<and> w_shell_prompt t = w_shell_prompt w \<and>
   w_eth_is_ready t = w_eth_is_ready w \<and> w_already_has_been t = w_already_has_been w \<and>
   w_parts_are_ready t = w_parts_are_ready w \<and> Console.more t = Console.more w"
  by (auto simp: only_console_def)

section \<open>Guarded commands\<close>

text \<open>
  The interface of a command that is not sent once an answer has failed to come: it then does
  nothing; otherwise it writes its line and waits, and returns false only if the wait failed.
\<close>

locale guarded =
  fixes send :: "string \<Rightarrow> bool \<Rightarrow> 'w \<Rightarrow> 'w attempt"
    and failed :: "'w \<Rightarrow> bool"
    and sent :: "'w \<Rightarrow> byte list list"
    and line :: "string \<Rightarrow> byte list"
  assumes blocked: "failed w \<Longrightarrow> send c out w = Some (Inr (False, w))"
    and sends: "\<not> failed w \<Longrightarrow> send c out w = Some (Inr (ok, t)) \<Longrightarrow>
      sent t = sent w @ [line c] \<and> (\<not> ok \<longrightarrow> failed t)"
begin

lemma all_blocked: "failed w \<Longrightarrow> doA (map (\<lambda>(c, out). send c out) cs) w = Some (Inr (True, w))"
  by (induction cs) (auto simp: blocked)

lemma in_order:
  "doA (map (\<lambda>(c, out). send c out) cs) w = Some (Inr (r, t)) \<Longrightarrow>
   \<exists>k \<le> length cs. sent t = sent w @ map (line \<circ> fst) (take k cs) \<and>
     (\<forall>j < k. \<exists>q u. doA (map (\<lambda>(c, out). send c out) (take j cs)) w = Some (Inr (q, u)) \<and> \<not> failed u) \<and>
     (k < length cs \<longrightarrow> failed t)"
proof (induction cs arbitrary: w)
  case (Cons p cs)
  obtain c out where p: "p = (c, out)" by (cases p)
  show ?case
  proof (cases "failed w")
    case True
    with Cons.prems all_blocked [OF True, of "p # cs"] show ?thesis by (intro exI [of _ 0]) simp
  next
    case False
    from Cons.prems p obtain ok u where u: "send c out w = Some (Inr (ok, u))"
      "doA (map (\<lambda>(c, out). send c out) cs) u = Some (Inr (r, t))"
      by (auto simp: thenA_def split: option.splits sum.splits)
    from Cons.IH [OF u(2)] obtain k where k: "k \<le> length cs"
      "sent t = sent u @ map (line \<circ> fst) (take k cs)"
      "\<forall>j < k. \<exists>q v. doA (map (\<lambda>(c, out). send c out) (take j cs)) u = Some (Inr (q, v)) \<and> \<not> failed v"
      "k < length cs \<longrightarrow> failed t" by blast
    have "\<exists>q v. doA (map (\<lambda>(c, out). send c out) (take j (p # cs))) w = Some (Inr (q, v)) \<and> \<not> failed v"
      if "j < Suc k" for j
      using that False u(1) k(3) p by (cases j) auto
    with sends [OF False u(1)] p k(1,2,4) show ?thesis by (intro exI [of _ "Suc k"]) simp
  qed
qed simp

end

definition cmd_line :: "string \<Rightarrow> byte list" where
  "cmd_line cmd = of_string (cmd @ [CHR 0x0D])"

interpretation uboot: guarded "SendToUBoot e" w_timeout_fail w_sent cmd_line for e
  by unfold_locales
    (auto simp: SendToUBoot_def SendCmd_def cmd_line_def waited_def dest!: ParseUntil_frame only_console_simps
      split: if_splits)

interpretation shell: guarded "SendToShell e" w_timeout_fail w_sent cmd_line for e
  by unfold_locales
    (auto simp: SendToShell_def SendCmd_def cmd_line_def waited_def dest!: ParseUntil_frame only_console_simps
      split: if_splits)

text \<open>C16: the commands of a list go out in their order, each once, up to the one whose answer does
  not come: a command is sent only when all before it were answered, and where some were not sent, the
  failure is remembered.\<close>

theorem shell_commands_in_order:
  assumes "doA (map (\<lambda>(c, out). SendToShell e c out) cs) w = Some (Inr (r, t))"
  shows "\<exists>k \<le> length cs. w_sent t = w_sent w @ map (cmd_line \<circ> fst) (take k cs) \<and>
    (\<forall>j < k. \<exists>q u. doA (map (\<lambda>(c, out). SendToShell e c out) (take j cs)) w = Some (Inr (q, u)) \<and>
      \<not> w_timeout_fail u) \<and>
    (k < length cs \<longrightarrow> w_timeout_fail t)"
  using assms by (rule shell.in_order)

text \<open>A board that answers the first of three commands and then says nothing: two are sent.\<close>

definition half_deaf :: Console where
  "half_deaf = (new_Console (arriving (of_string ''ok'' @ [0x0A] @ of_string ''>'') @
     evs_of (replicate 10 (AEv 1 AFired, AEv 0 AFail))))\<lparr>w_shell_prompt := ''>''\<rparr>"

lemma half_deaf_run:
  "doA (map (\<lambda>(c, out). SendToShell ok_env c out) [(''sync'', False), (''df'', False), (''reboot'', False)]) half_deaf
    = Some (Inr (True, half_deaf\<lparr>w_reads := [], w_timeout_fail := True, w_sent := [cmd_line ''sync'', cmd_line ''df'']\<rparr>))"
proof -
  let ?evs = "evs_of (replicate 10 (AEv 1 AFired, AEv 0 AFail))"
  let ?u = "half_deaf\<lparr>w_reads := ?evs, w_sent := [cmd_line ''sync'']\<rparr>"
  let ?t = "half_deaf\<lparr>w_reads := [], w_timeout_fail := True, w_sent := [cmd_line ''sync'', cmd_line ''df'']\<rparr>"
  have "delivers 10 (of_string ''ok'' @ [0x0A] @ of_string ''>'')
      (arriving (of_string ''ok'' @ [0x0A] @ of_string ''>'') @ ?evs) = Some ?evs"
    by (rule delivers_arriving) simp
  then have 1: "SendToShell ok_env ''sync'' False half_deaf = Some (Inr (True, ?u))"
    using ParseUntil_match [OF _ scan_ok(1), of "SendCmd ''sync'' half_deaf" ?evs False]
    by (simp add: SendToShell_def half_deaf_def new_Console_def SendCmd_def cmd_line_def fill_in_def)
  have s: "scan (prompt_hit ok_env ''>'') '''' 0 [] = ([], False, [])" by simp
  have "list_all silent (replicate 10 (AEv 1 AFired, AEv 0 AFail))" by (simp add: silent_def list_all_length)
  then have 2: "SendToShell ok_env ''df'' False ?u = Some (Inr (False, ?t))"
    using ParseUntil_silent [where bs = "[]" and w = "SendCmd ''df'' ?u" and es = "[]", OF _ _ _ s, of _ False]
    by (simp add: SendToShell_def half_deaf_def new_Console_def SendCmd_def cmd_line_def)
  have 3: "SendToShell ok_env ''reboot'' False ?t = Some (Inr (False, ?t))"
    by (simp add: SendToShell_def)
  show ?thesis by (simp add: 1 2 3 del: One_nat_def)
qed

theorem shell_commands_in_order_witness:
  "\<exists>t k. doA (map (\<lambda>(c, out). SendToShell ok_env c out) [(''sync'', False), (''df'', False), (''reboot'', False)])
      half_deaf = Some (Inr (True, t)) \<and> k = 2 \<and>
    w_sent t = map (cmd_line \<circ> fst) (take k [(''sync'', False), (''df'', False), (''reboot'', False)]) \<and>
    w_timeout_fail t"
proof -
  have "w_sent half_deaf = []" by (simp add: half_deaf_def new_Console_def)
  with shell_commands_in_order [OF half_deaf_run] half_deaf_run show ?thesis
    by (fastforce simp: take_Cons' split: if_splits)
qed

section \<open>Skipping lines\<close>

lemma one_try_silent:
  assumes "asio_idle s" "a_tries s = 1" "turn e1 e2 = Some (None, True)"
  shows "\<exists>t. asio_Read 1 (e1 # e2 # es) s = Inr (0, t, es) \<and> asio_idle t \<and> a_tries t = 1 \<and>
    a_buff t = a_buff s"
proof -
  let ?s = "s\<lparr>a_try_num := 0, a_processed := 0\<rparr>"
  let ?t = "asio_notify (turn_effect (None, True) ?s)"
  have "asio_io_run (e1 # e2 # es) (asio_start 1 ?s) = Inr (turn_effect (None, True) ?s, es)"
    using assms by (intro asio_turn) (simp_all add: asio_idle_def)
  then have "asio_Read 1 (e1 # e2 # es) s = Inr (0, ?t, es)"
    using assms
    by (simp add: asio_Read_def asio_idle_def del: One_nat_def)
      (subst asio_loop.simps, simp add: Let_def turn_effect_def)
  then show ?thesis using assms
    by (intro exI [of _ ?t]) (simp add: asio_idle_def turn_effect_def)
qed

lemma skip_loop_stale:
  assumes "asio_idle s" "a_tries s = 1" "a_buff s ! 0 = 0x0D" "list_all silent ps" "ps \<noteq> []"
    and "n + length ps = limit"
  shows "skip_loop limit n s (evs_of ps @ es) = Some (Inr es)"
  using assms
proof (induction ps arbitrary: n s)
  case (Cons p ps)
  obtain e1 e2 where p: "p = (e1, e2)" by (cases p)
  with Cons.prems(4) have "turn e1 e2 = Some (None, True)" by (simp add: silent_def)
  from one_try_silent [OF Cons.prems(1,2) this, of "evs_of ps @ es"] obtain t where
    t: "asio_Read 1 (evs_of (p # ps) @ es) s = Inr (0, t, evs_of ps @ es)" "asio_idle t"
      "a_tries t = 1" "a_buff t = a_buff s" by (auto simp: p evs_of_def)
  show ?case
  proof (cases "ps = []")
    case True
    with t Cons.prems show ?thesis
      by (subst skip_loop.simps) (simp add: Let_def evs_of_def del: One_nat_def)
  next
    case False
    with Cons.prems have "n + 1 < limit" by (cases ps) auto
    with t Cons.prems False Cons.IH [OF t(2,3), of "n + 1"] show ?thesis
      by (subst skip_loop.simps) (simp add: Let_def del: One_nat_def)
  qed
qed simp

text \<open>When a carriage return was the last byte, every second of silence after it counts as a
  line of its own: \<open>SkipLines\<close> returns after one line and \<open>limit - 1\<close> time-outs.\<close>

theorem SkipLines_counts_silence:
  assumes "w_reads w = arriving [0x0D] @ evs_of ps @ es" "list_all silent ps" "ps \<noteq> []"
    and "limit = length ps + 1"
  shows "SkipLines limit w = Some (Inr (True, w\<lparr>w_reads := es\<rparr>))"
proof -
  let ?s = "new_AsioIface True 1 1 [0]"
  have s: "asio_idle ?s" by (simp add: new_AsioIface_idle)
  have "turns_read (a_tries ?s) (w_reads w) = Some (Some 0x0D, False, evs_of ps @ es)"
    by (simp add: assms(1) new_tries arriving_def)
  from asio_Read_turns [OF s this] obtain k t where
    t: "asio_Read 1 (w_reads w) ?s = Inr (k, t, evs_of ps @ es)" "asio_idle t" "a_tries t = 1"
      "a_buff t ! 0 = 0x0D" by (auto simp: new_tries)
  have "skip_loop limit 0 ?s (w_reads w) = skip_loop limit 1 t (evs_of ps @ es)"
    using t(1,4) assms(3,4) by (subst skip_loop.simps) (simp add: Let_def del: One_nat_def)
  also have "\<dots> = Some (Inr es)"
    by (rule skip_loop_stale [OF t(2-4) assms(2,3)]) (simp add: assms(4))
  finally show ?thesis by (simp add: SkipLines_def)
qed

theorem SkipLines_counts_silence_witness:
  "SkipLines 10 (new_Console (arriving [0x0D] @ evs_of (replicate 9 (AEv 1 AFired, AEv 0 AFail)) @ []))
    = Some (Inr (True, (new_Console (arriving [0x0D] @ evs_of (replicate 9 (AEv 1 AFired, AEv 0 AFail)) @ []))
        \<lparr>w_reads := []\<rparr>))"
  by (rule SkipLines_counts_silence)
    (unfold new_Console_def Console.simps, rule refl, simp_all add: silent_def list_all_length)

end
