(* ===== verification/Loader_Upload.thy ===== *)
theory Loader_Upload
  imports Loader_Console Tftp_Faults Sdp_Exchange Imx_Firmware Ymodem_Send
begin

text \<open>
  Loading a board that has no software yet (regiloader/regiloader.cpp): the boot loader by the
  serial download protocol, the kernel by YMODEM or TFTP, and the files that the board fetches
  by TFTP once Linux runs.

  \<open>Loader\<close> adds to the console the other things the program works with: the numbering, the TFTP
  server (it is always there: \<open>main\<close> passes a pointer to it, so that the checks for a null
  pointer are left out), the port, and, one list for each, what the board, the network and the
  clock do while \<open>SdpPacket\<close>, \<open>TFtp::Server\<close> and \<open>YModem\<close> wait, and what the operator types
  (\<open>ld_keys\<close>).  \<open>ld_calls\<close> counts the uses of
  the surroundings in \<open>LEnv\<close>: memory before it is set, the clock.
\<close>

record LEnv =
  f_env :: Env
  f_pkt :: "nat \<Rightarrow> byte list"
  f_rcv :: "nat \<Rightarrow> byte list"
  f_junk :: "nat \<Rightarrow> u32"
  f_garbage :: "nat \<Rightarrow> Garbage"
  f_sock :: "nat \<Rightarrow> bool"
  f_clock :: "nat \<Rightarrow> Tm"
  f_host :: "string option"
  f_json :: "string \<Rightarrow> bool"
  f_files :: files

record Loader = Console +
  ld_state :: SysState
  ld_srv :: Server
  ld_ip :: string
  ld_open :: bool
  ld_sdp :: "SdpEv list"
  ld_tftp :: "Ev list"
  ld_y :: "byte list"
  ld_net :: "(nat \<times> byte list) list"
  ld_calls :: nat
  ld_json :: "(string \<times> ptree) list"
  ld_keys :: "byte list"

section \<open>The other components\<close>

text \<open>\<open>Send\<close> of a new packet: once, or repeated.\<close>

definition sdp_result :: "(SdpKind \<times> Sdp \<times> SdpEv list) attempt \<Rightarrow> Loader \<Rightarrow> Loader attempt" where
  "sdp_result r w =
     (case r of
        None \<Rightarrow> None
      | Some (Inl x) \<Rightarrow> Some (Inl x)
      | Some (Inr (ok, _, s, es)) \<Rightarrow>
          Some (Inr (ok, w\<lparr>w_sent := w_sent w @ k_wire s, ld_sdp := es, ld_calls := ld_calls w + 1\<rparr>)))"

definition pkt_Send :: "LEnv \<Rightarrow> SdpKind \<Rightarrow> Loader \<Rightarrow> Loader attempt" where
  "pkt_Send e k w =
     (let n = ld_calls w in
      sdp_result (sdp_Send (f_rcv e n) (f_junk e n) (k, new_Pkt (f_pkt e n) (ld_open w) k, ld_sdp w)) w)"

definition pkt_Send_tries :: "LEnv \<Rightarrow> nat \<Rightarrow> SdpKind \<Rightarrow> Loader \<Rightarrow> Loader attempt" where
  "pkt_Send_tries e tries k w =
     (let n = ld_calls w in
      sdp_result (Send_tries (f_rcv e n) (f_junk e n) tries
                    (k, new_Pkt (f_pkt e n) (ld_open w) k, ld_sdp w)) w)"

text \<open>\<open>ld_net\<close> records the datagrams of every run; a session that stayed has sent some before.\<close>

definition sess_sent :: "Server \<Rightarrow> nat" where
  "sess_sent srv = (case srv_sess srv of None \<Rightarrow> 0 | Some s \<Rightarrow> length (s_sent s))"

definition srv_Run :: "LEnv \<Rightarrow> Loader \<Rightarrow> Loader attempt" where
  "srv_Run e w =
     (let n = ld_calls w in
      case Run (f_files e) (f_garbage e n) (f_sock e n) (ld_tftp w) (ld_srv w) of
        None \<Rightarrow> None
      | Some (Inl x) \<Rightarrow> Some (Inl x)
      | Some (Inr (ok, srv, s, es)) \<Rightarrow>
          Some (Inr (ok, w\<lparr>ld_srv := srv, ld_tftp := es, ld_calls := n + 1,
                          ld_net := ld_net w @ drop (sess_sent (ld_srv w)) (s_sent s)\<rparr>)))"

definition modem_SendFile :: "LEnv \<Rightarrow> string \<Rightarrow> Loader \<Rightarrow> Loader attempt" where
  "modem_SendFile e path w =
     (case SendFile (f_files e) (ld_open w) path \<lparr>y_out = [], y_in = ld_y w, y_num = 0\<rparr> of
        Inl x \<Rightarrow> Some (Inl x)
      | Inr (ok, y) \<Rightarrow> Some (Inr (ok, w\<lparr>w_sent := w_sent w @ [y_out y], ld_y := y_in y\<rparr>)))"

section \<open>The boot loader\<close>

text \<open>The value that is read back has no influence: there is one try for each register.\<close>

definition dcd_pair :: "LEnv \<Rightarrow> DCDPair \<Rightarrow> Loader \<Rightarrow> Loader attempt" where
  "dcd_pair e p =
     doA [pkt_Send e (PktWriteMem (fst p) (snd p)), pkt_Send e (PktReadMem (fst p) kWord 0)]"

definition UploadDCD :: "LEnv \<Rightarrow> ImxFirmware \<Rightarrow> Loader \<Rightarrow> Loader attempt" where
  "UploadDCD e firm =
     doA (concat (map (\<lambda>cmd. map (dcd_pair e) (c_pairs cmd)) (GetDCDCommands firm)))"

text \<open>What \<open>PktWriteF\<close> reads of the firmware; \<open>GetIvtData\<close> may be null although there is boot data.\<close>

definition firm_data :: "ImxFirmware \<Rightarrow> stop + Firm" where
  "firm_data f =
     (case (im_boot f, ivt_self_ptr f) of
        (Some _, None) \<Rightarrow> Inl OutOfBounds
      | (boot, self) \<Rightarrow>
          Inr \<lparr>fm_loaded = (im_exec f \<noteq> None),
               fm_data = (case im_exec f of None \<Rightarrow> [] | Some m \<Rightarrow> m),
               fm_self_ptr = (case self of None \<Rightarrow> 0 | Some p \<Rightarrow> p),
               fm_boot = (boot \<noteq> None)\<rparr>)"

definition kMaxTries :: nat where
  "kMaxTries = 3"

definition UploadUBoot :: "LEnv \<Rightarrow> string \<Rightarrow> Loader \<Rightarrow> Loader attempt" where
  "UploadUBoot e file =
     orfail (pkt_Send_tries e kMaxTries PktStatus)
       (\<lambda>w. case LoadFromFile (f_files e) file (new_ImxFirmware 0) of
              None \<Rightarrow> Some (Inl OutOfBounds)
            | Some firm \<Rightarrow>
                thenA (UploadDCD e firm w) (\<lambda>_ w.
                  case firm_data firm of
                    Inl x \<Rightarrow> Some (Inl x)
                  | Inr f \<Rightarrow>
                      orfail (pkt_Send_tries e kMaxTries (PktWriteF (Some f)))
                        (pkt_Send_tries e kMaxTries PktComplete) w))"

section \<open>The console of the boot loader\<close>

definition save_if_waiting :: "LEnv \<Rightarrow> Loader \<Rightarrow> Loader attempt" where
  "save_if_waiting e w =
     (if si_wait_for_reboot (w_inf w) then doA [SendToUBoot (f_env e) ''save'' True] w
      else Some (Inr (True, w)))"

definition WaitForWelcomeFromUBoot :: "LEnv \<Rightarrow> string \<Rightarrow> Loader \<Rightarrow> Loader attempt" where
  "WaitForWelcomeFromUBoot e pswd w =
     (if w_already_has_been w \<and> \<not> si_wait_for_reboot (w_inf w) then Some (Inr (True, w))
      else orfail (ParseUntil (f_env e) ''Hit any key to stop autoboot'' True)
        (\<lambda>w. let w = w\<lparr>w_already_has_been := True\<rparr> in
             if 0 < length pswd
             then orfail (ParseUntil (f_env e) kUBootPswdPrompt False)
                    (doA [SendToUBoot (f_env e) pswd False, save_if_waiting e]) (SendCmd '''' w)
             else doA [SendToUBoot (f_env e) '''' False, save_if_waiting e] w) w)"

text \<open>The result says whether the operator has to restart the board, and to type something after it.\<close>

definition SetupNor :: "LEnv \<Rightarrow> string \<Rightarrow> Loader \<Rightarrow> Loader attempt" where
  "SetupNor e pswd =
     orfail (WaitForWelcomeFromUBoot e pswd)
       (\<lambda>w. thenA (doA [SendToUBoot (f_env e) ''usedefenv'' True,
                        SendToUBoot (f_env e) ''save'' True] w)
              (\<lambda>_ w. if si_wait_for_reboot (w_inf w)
                     then Some (Inr (True, w\<lparr>ld_keys := drop 1 (ld_keys w)\<rparr>))
                     else Some (Inr (False, w))))"

section \<open>The kernel\<close>

definition clear_kernel :: "Loader \<Rightarrow> Loader" where
  "clear_kernel w =
     w\<lparr>w_inf := upd_kernel (\<lambda>k. k\<lparr>kn_partitions := [], kn_usb_uart := []\<rparr>) (w_inf w)\<rparr>"

definition UploadKernelBegin :: "LEnv \<Rightarrow> string \<Rightarrow> Loader \<Rightarrow> Loader attempt" where
  "UploadKernelBegin e pswd =
     orfail (WaitForWelcomeFromUBoot e pswd)
       (\<lambda>w. doA ([setA clear_kernel] @
                 (if si_boot_from_nand (w_inf w) then []
                  else [SendToUBoot (f_env e) ''setenv nandroot'' True]) @
                 [SendToUBoot (f_env e) ''run conf_hw'' True,
                  SendToUBoot (f_env e) ''run bootargs_nand'' True]) w)"

definition kLastUsbUart :: string where
  "kLastUsbUart =
     re ''%[([^%]]+)%] usb 2-1.3: FTDI USB Serial Device converter now attached to ttyUSB11''"

definition UploadKernelEnd :: "LEnv \<Rightarrow> Loader \<Rightarrow> Loader attempt" where
  "UploadKernelEnd e w =
     orfail (ParseUntil (f_env e) kLastUsbUart True)
       (doA [setA (\<lambda>w. w\<lparr>w_inf :=
                upd_kernel (\<lambda>k. k\<lparr>kn_usb_uart := kn_usb_uart k @ [''ttyUSB11'']\<rparr>) (w_inf w)\<rparr>),
             SkipLines 10, SendToShell (f_env e) '''' False])
       (w\<lparr>w_eth_is_ready := False, w_already_has_been := False, w_parts_are_ready := False,
          w_shell_prompt := kRamFsPrompt\<rparr>)"

definition BootM :: string where
  "BootM = ''; bootm ${loadaddr}''"

definition UploadKernelOverUart :: "LEnv \<Rightarrow> string \<Rightarrow> string \<Rightarrow> Loader \<Rightarrow> Loader attempt" where
  "UploadKernelOverUart e file pswd =
     orfail (UploadKernelBegin e pswd)
       (\<lambda>w. thenA (doA [setA (SendCmd (''loady ${loadaddr} 115200'' @ BootM)), SkipLines 2,
                        modem_SendFile e file] w)
              (\<lambda>_. UploadKernelEnd e))"

definition kPort :: nat where
  "kPort = 6969"

definition set_upload_fail :: "bool \<Rightarrow> Loader \<Rightarrow> Loader" where
  "set_upload_fail b w = w\<lparr>w_inf := (w_inf w)\<lparr>si_upload_fail := b\<rparr>\<rparr>"

text \<open>One turn of the loop of \<open>UploadKernelOverEth\<close>, after \<open>UploadKernelBegin\<close>.\<close>

definition eth_turn :: "LEnv \<Rightarrow> Loader \<Rightarrow> Loader attempt" where
  "eth_turn e w =
     thenA (doA [setA (set_upload_fail False),
                 SendToUBoot (f_env e) (''setenv tftpdstp '' @ show_dec kPort) False,
                 setA (SendCmd (''dhcp ${loadaddr} '' @ ld_ip w @ '':'' @ kKernelImg @ BootM))] w)
       (\<lambda>_ w. thenA (srv_Run e w) (\<lambda>ok w.
          Some (Inr (True, if ok then w else set_upload_fail True w))))"

partial_function (option) UploadKernelOverEth :: "LEnv \<Rightarrow> string \<Rightarrow> Loader \<Rightarrow> Loader attempt" where
  "UploadKernelOverEth e pswd w =
     (case UploadKernelBegin e pswd w of
        None \<Rightarrow> None
      | Some (Inl x) \<Rightarrow> Some (Inl x)
      | Some (Inr (begun, w)) \<Rightarrow>
          (if \<not> begun then Some (Inr (False, w))
           else (case eth_turn e w of
                   None \<Rightarrow> None
                 | Some (Inl x) \<Rightarrow> Some (Inl x)
                 | Some (Inr (_, w)) \<Rightarrow>
                     (if si_upload_fail (w_inf w) then UploadKernelOverEth e pswd w
                      else UploadKernelEnd e w))))"

definition UploadKernelWithOldSys :: "LEnv \<Rightarrow> string \<Rightarrow> Loader \<Rightarrow> Loader attempt" where
  "UploadKernelWithOldSys e pswd =
     orfail (WaitForWelcomeFromUBoot e pswd)
       (\<lambda>w. UploadKernelOverEth e pswd (w\<lparr>w_inf := (w_inf w)\<lparr>si_boot_from_nand := True\<rparr>\<rparr>))"

section \<open>Files over TFTP\<close>

record Network =
  nw_ip :: string
  nw_mask :: string
  nw_port :: string

definition setup_eth :: "LEnv \<Rightarrow> Network \<Rightarrow> Loader \<Rightarrow> Loader attempt" where
  "setup_eth e tftpd w =
     (if w_eth_is_ready w \<or> w_shell_prompt w = kRegigrafPrompt then Some (Inr (True, w))
      else doA [SendToShell (f_env e) (''ifconfig eth0 up hw ether '' @ GetHwAddr (ld_state w)) False,
                SendToShell (f_env e) ''udhcpc'' True,
                (\<lambda>w. SendToShell (f_env e) (''ifconfig eth0 '' @ si_board_ip (w_inf w) @ '' '' @
                       (if 0 < length (nw_mask tftpd) then ''netmask '' @ nw_mask tftpd else ''''))
                       False w),
                setA (\<lambda>w. w\<lparr>w_eth_is_ready := True\<rparr>)] w)"

definition tftp_cmd :: "Network \<Rightarrow> string \<Rightarrow> string \<Rightarrow> string" where
  "tftp_cmd tftpd request path =
     ''tftp -l '' @ path @ '' -g -r '' @ request @ '' '' @ nw_ip tftpd @ '':'' @ nw_port tftpd"

definition DownloadFromTFtp ::
  "LEnv \<Rightarrow> Network \<Rightarrow> string \<Rightarrow> string \<Rightarrow> Loader \<Rightarrow> Loader attempt" where
  "DownloadFromTFtp e tftpd request path w =
     (if length (nw_ip tftpd) = 0 \<or> length request = 0 \<or> length path = 0
      then Some (Inr (False, w))
      else thenA (doA [setup_eth e tftpd, setA (SendCmd (tftp_cmd tftpd request path))] w)
             (\<lambda>_. orfail (srv_Run e) (\<lambda>w. ParseUntil (f_env e) (w_shell_prompt w) False w)))"

definition UploadRootFsOverEth :: "LEnv \<Rightarrow> Network \<Rightarrow> Loader \<Rightarrow> Loader attempt" where
  "UploadRootFsOverEth e tftpd = DownloadFromTFtp e tftpd kRootFsImg kRootFsTar"

section \<open>The device agreed to every step\<close>

text \<open>One of the events delivered exactly the answer that the packet asks for.\<close>

definition acked :: "SdpKind \<Rightarrow> SdpEv list \<Rightarrow> bool" where
  "acked k es \<longleftrightarrow> (\<exists>i n d. SdpEv i (SDone n d) \<in> set es \<and> sdp_ack k d)"

lemma Send_tries_used:
  assumes "sdp_fresh k s" "length rcv = kPktSize"
    and "Send_tries rcv junk tries (k, s, es) = Some (Inr (ok, k', t, es'))"
  shows "\<exists>used. es = used @ es' \<and> (ok \<longrightarrow> acked k used)"
proof -
  have start: "sends_from k es (k, s, es)" using assms(1) by (simp add: sends_from_def)
  note step = sends_from_step [OF assms(2)]
  show ?thesis
  proof (cases ok)
    case True
    have "\<exists>q. sends_from k es q \<and> sdp_Send rcv junk q = Some (Inr (True, k', t, es'))"
      by (rule sends.loop_True_last [where P = "sends_from k es"]) (use step start assms(3) True in auto)
    then obtain k1 s1 es1 where f: "sdp_fresh k1 s1" "sdp_same k k1" "\<exists>pre. es = pre @ es1"
      and l: "sdp_Send rcv junk (k1, s1, es1) = Some (Inr (True, k', t, es'))"
      by (auto simp: sends_from_def)
    from sdp_Send_result(2) [OF f(1) assms(2) l] obtain used where
      u: "es1 = used @ es'" "sdp_answered k1 k' (k_rcv t) used" by blast
    from f(3) u(1) obtain pre where "es = (pre @ used) @ es'" by auto
    moreover have "acked k (pre @ used)"
      using u(2) sdp_same_ack [OF f(2)] by (auto simp: sdp_answered_def acked_def)
    ultimately show ?thesis by blast
  next
    case False
    have "sends_from k es (k', t, es')"
      by (rule sends.loop_False_inv [where P = "sends_from k es"]) (use step start assms(3) False in auto)
    with False show ?thesis by (auto simp: sends_from_def)
  qed
qed

definition rcv_ok :: "LEnv \<Rightarrow> bool" where
  "rcv_ok e \<longleftrightarrow> (\<forall>n. length (f_rcv e n) = kPktSize)"

lemma pkt_Send_tries_used:
  assumes "rcv_ok e" "pkt_Send_tries e tries k w = Some (Inr (ok, t))"
  shows "\<exists>used. ld_sdp w = used @ ld_sdp t \<and> (ok \<longrightarrow> acked k used)"
proof -
  have rcv: "length (f_rcv e (ld_calls w)) = kPktSize" using assms(1) by (simp add: rcv_ok_def)
  from assms(2) obtain k' s where
    "Send_tries (f_rcv e (ld_calls w)) (f_junk e (ld_calls w)) tries
       (k, new_Pkt (f_pkt e (ld_calls w)) (ld_open w) k, ld_sdp w) = Some (Inr (ok, k', s, ld_sdp t))"
    by (auto simp: pkt_Send_tries_def sdp_result_def Let_def split: option.splits sum.splits)
  from Send_tries_used [OF sdp_fresh_new rcv this] show ?thesis .
qed

text \<open>The events that are left are always the end of those there were.\<close>

definition sdp_left :: "Loader \<Rightarrow> Loader \<Rightarrow> bool" where
  "sdp_left w t \<longleftrightarrow> (\<exists>used. ld_sdp w = used @ ld_sdp t)"

interpretation left: transition sdp_left
  by unfold_locales (auto simp: sdp_left_def)

lemma pkt_Send_left: "rcv_ok e \<Longrightarrow> keepsA sdp_left (pkt_Send e k)"
  using sdp_Send_result(2) [OF sdp_fresh_new]
  by (fastforce simp: keepsA_def pkt_Send_def sdp_result_def rcv_ok_def sdp_left_def Let_def
      split: option.splits sum.splits)

lemma UploadDCD_left:
  assumes "rcv_ok e"
  shows "keepsA sdp_left (UploadDCD e firm)"
proof -
  have "keepsA sdp_left (dcd_pair e p)" for p
    unfolding dcd_pair_def by (rule left.keeps_doA) (simp add: pkt_Send_left [OF assms])
  then show ?thesis unfolding UploadDCD_def by (intro left.keeps_doA) (simp add: list_all_iff)
qed

lemma orfail_True:
  "orfail f g w = Some (Inr (True, t)) \<Longrightarrow>
   \<exists>u. f w = Some (Inr (True, u)) \<and> g u = Some (Inr (True, t))"
  by (auto simp: orfail_def thenA_def split: option.splits sum.splits if_splits)

text \<open>C19: the boot loader counts as started only if the device gave, in this order, its status,
  the permission to load, and the confirmation of the end; the answers to the register writes
  in between do not matter.\<close>

theorem UploadUBoot_was_agreed:
  assumes "UploadUBoot e file w = Some (Inr (True, t))" "rcv_ok e"
  shows "\<exists>a b c d image firm. ld_sdp w = a @ b @ c @ d @ ld_sdp t \<and>
    LoadFromFile (f_files e) file (new_ImxFirmware 0) = Some image \<and> firm_data image = Inr firm \<and>
    acked PktStatus a \<and> acked (PktWriteF (Some firm)) c \<and> acked PktComplete d"
proof -
  from orfail_True [OF assms(1) [unfolded UploadUBoot_def]] obtain w1 where
    1: "pkt_Send_tries e kMaxTries PktStatus w = Some (Inr (True, w1))" and
    r1: "(case LoadFromFile (f_files e) file (new_ImxFirmware 0) of
            None \<Rightarrow> Some (Inl OutOfBounds)
          | Some firm \<Rightarrow>
              thenA (UploadDCD e firm w1) (\<lambda>_ w.
                case firm_data firm of
                  Inl x \<Rightarrow> Some (Inl x)
                | Inr f \<Rightarrow>
                    orfail (pkt_Send_tries e kMaxTries (PktWriteF (Some f)))
                      (pkt_Send_tries e kMaxTries PktComplete) w)) = Some (Inr (True, t))"
    by blast
  then obtain image ok w2 f where
    i: "LoadFromFile (f_files e) file (new_ImxFirmware 0) = Some image" "firm_data image = Inr f" and
    2: "UploadDCD e image w1 = Some (Inr (ok, w2))" and
    r2: "orfail (pkt_Send_tries e kMaxTries (PktWriteF (Some f)))
           (pkt_Send_tries e kMaxTries PktComplete) w2 = Some (Inr (True, t))"
    by (auto simp: thenA_def split: option.splits sum.splits)
  from orfail_True [OF r2] obtain w3 where
    3: "pkt_Send_tries e kMaxTries (PktWriteF (Some f)) w2 = Some (Inr (True, w3))" and
    4: "pkt_Send_tries e kMaxTries PktComplete w3 = Some (Inr (True, t))" by blast
  from pkt_Send_tries_used [OF assms(2) 1] obtain a where a: "ld_sdp w = a @ ld_sdp w1" "acked PktStatus a"
    by blast
  from keepsA_D [OF UploadDCD_left [OF assms(2)] 2] obtain b where b: "ld_sdp w1 = b @ ld_sdp w2"
    by (auto simp: sdp_left_def)
  from pkt_Send_tries_used [OF assms(2) 3] obtain c where
    c: "ld_sdp w2 = c @ ld_sdp w3" "acked (PktWriteF (Some f)) c" by blast
  from pkt_Send_tries_used [OF assms(2) 4] obtain d where
    d: "ld_sdp w3 = d @ ld_sdp t" "acked PktComplete d" by blast
  have "ld_sdp w = a @ b @ c @ d @ ld_sdp t" using a(1) b c(1) d(1) by simp
  with a(2) c(2) d(2) i show ?thesis by blast
qed

text \<open>A device that answers at once.\<close>

lemma answered_Send:
  assumes "length rcv = kPktSize" "fst (sdp_ready k (new_Pkt pkt True k))"
    and "length d = sdp_resp k" "sdp_ack k d" "\<forall>a z v. k \<noteq> PktReadMem a z v"
  shows "\<exists>t. sdp_Send rcv junk (k, new_Pkt pkt True k, answer_evs 0 d @ es) =
    (if \<exists>f. k = PktWriteF f then sdp_Write_port k t es else Some (Inr (True, k, t, es)))"
proof -
  let ?s = "new_Pkt pkt True k"
  have s: "sdp_made k ?s" "k_pend ?s = []" "k_open ?s"
    using sdp_fresh_new [of k pkt True] by (auto simp: sdp_fresh_def) (simp add: new_Pkt_def new_SdpPacket_def)
  obtain u where ready: "sdp_ready k ?s = (True, u)" using assms(2) by (cases "sdp_ready k ?s") auto
  define v where "v = u\<lparr>k_session := True, k_rcv := rcv\<rparr>"
  note R = sdp_ready_idle [OF s(1,2) assms(1) ready]
  have v: "sdp_idle v" "k_resp v = sdp_resp k" "k_req v = sdp_req k" using R by (simp_all add: v_def)
  obtain w where w: "send_try (v, answer_evs 0 d @ es) = Some (Inr (True, w, es))"
    "k_packet w = k_rcv w" "k_rcv w = overwrite (k_rcv v) 0 d" "length (k_rcv w) = kPktSize"
    "k_req w = sdp_req k"
    using answered_try [OF v(1), of 0 d es] assms(3) v(2,3) by auto
  let ?w = "w\<lparr>k_session := False\<rparr>"
  have a: "sdp_ack k (take (sdp_resp k) (k_rcv ?w))" using w(3) assms(3,4) by (simp add: overwrite_def)
  have "fst (sdp_Read junk ?w k) \<noteq> kError" "snd (sdp_Read junk ?w k) = k"
    using sdp_Read_ack(1,3) [of ?w k junk] a w assms(5) by simp_all
  moreover have "fst (sdp_Read junk ?w k) = kContinue \<longleftrightarrow> (\<exists>f. k = PktWriteF f)"
    using calculation(1) by (cases k) (auto split: if_splits)
  ultimately have r: "sdp_Read junk ?w k = (if \<exists>f. k = PktWriteF f then kContinue else kStop, k)"
    by (cases "sdp_Read junk ?w k"; cases "fst (sdp_Read junk ?w k)") auto
  show ?thesis
    using w(1) ready s(3) r
    by (intro exI [of _ ?w])
      (simp add: sdp_Send.simps v_def Let_def retry_step_def kMaxAmountOfTries_def numeral_eq_Suc)
qed

lemma answered_pkt:
  assumes "rcv_ok e" "ld_open w" "ld_sdp w = answer_evs 0 d @ es" "length d = sdp_resp k" "sdp_ack k d"
    and "k = PktStatus \<or> k = PktComplete"
  shows "\<exists>bs. pkt_Send_tries e kMaxTries k w =
    Some (Inr (True, w\<lparr>w_sent := w_sent w @ bs, ld_sdp := es, ld_calls := ld_calls w + 1\<rparr>))"
proof -
  let ?n = "ld_calls w"
  have "length (f_rcv e ?n) = kPktSize" using assms(1) by (simp add: rcv_ok_def)
  from answered_Send [OF this _ assms(4,5), of "f_pkt e ?n" "f_junk e ?n" es] assms(6) obtain t where
    "sdp_Send (f_rcv e ?n) (f_junk e ?n) (k, new_Pkt (f_pkt e ?n) True k, answer_evs 0 d @ es)
      = Some (Inr (True, k, t, es))" by (auto simp: sdp_ready_ok)
  then show ?thesis using assms(2,3)
    by (intro exI [of _ "k_wire t"])
      (simp add: pkt_Send_tries_def sdp_result_def kMaxTries_def numeral_eq_Suc retry_step_def)
qed

lemma answered_firmware:
  assumes "rcv_ok e" "ld_open w" "ld_sdp w = answer_evs 0 [0x56, 0x78, 0x78, 0x56] @ SdpWrote True # es"
    and "fm_boot f" "fm_loaded f"
  shows "\<exists>bs. pkt_Send_tries e kMaxTries (PktWriteF (Some f)) w =
    Some (Inr (True, w\<lparr>w_sent := w_sent w @ bs, ld_sdp := es, ld_calls := ld_calls w + 1\<rparr>))"
proof -
  let ?n = "ld_calls w" and ?k = "PktWriteF (Some f)"
  have "length (f_rcv e ?n) = kPktSize" using assms(1) by (simp add: rcv_ok_def)
  from answered_Send [OF this, of ?k "f_pkt e ?n" "[0x56, 0x78, 0x78, 0x56]" "f_junk e ?n" "SdpWrote True # es"]
    assms(4) obtain t where
    "sdp_Send (f_rcv e ?n) (f_junk e ?n)
       (?k, new_Pkt (f_pkt e ?n) True ?k, answer_evs 0 [0x56, 0x78, 0x78, 0x56] @ SdpWrote True # es)
      = sdp_Write_port ?k t (SdpWrote True # es)"
    by (auto simp: sdp_ready_ok)
  then show ?thesis using assms(2,3,5)
    by (intro exI [of _ "k_wire t @ [fm_data f]"])
      (simp add: pkt_Send_tries_def sdp_result_def kMaxTries_def numeral_eq_Suc retry_step_def)
qed

text \<open>An image with an empty list of registers.\<close>

definition some_image :: "byte list" where
  "some_image = (some_ivt @ dcd_head 0 16 @ cmd_head 0 12 @ pair_bytes (0, 0)) @ replicate 4096 0"

lemma some_image_zero: "48 \<le> p \<Longrightarrow> p + 4 \<le> 4144 \<Longrightarrow> mem32 some_image p = Some 0"
proof -
  assume p: "48 \<le> p" "p + 4 \<le> 4144"
  have l: "length (some_ivt @ dcd_head 0 16 @ cmd_head 0 12 @ pair_bytes (0, 0)) = 48"
    by (simp add: some_ivt(1))
  have "drop p some_image = replicate (4144 - p) 0"
    using p l by (simp add: some_image_def del: replicate.simps)
  moreover have "length some_image = 4144" using l by (simp add: some_image_def)
  ultimately have "mem_read some_image p 4 = Some (replicate 4 0)"
    using p by (simp add: mem_read_def min_def)
  then show ?thesis by (simp add: mem32_def numeral_eq_Suc mk32_def)
qed

lemma init_header_exec: "init_header_at m p f = Some g \<Longrightarrow> im_exec g = im_exec f"
  by (auto simp: init_header_at_def InitDCDListOfCommands_def Let_def split: option.splits if_splits)

lemma some_image_loads:
  assumes "im_exec f = Some some_image" "im_cmds f = []"
  shows "\<exists>g c. InitHeader f = Some g \<and> firm_data g = Inr \<lparr>fm_loaded = True, fm_data = some_image,
      fm_self_ptr = 0x70000000, fm_boot = True\<rparr> \<and> im_cmds g = [c] \<and> c_pairs c = []"
proof -
  let ?rest = "dcd_head 0 16 @ cmd_head 0 12 @ pair_bytes (0, 0) @ replicate 4096 0"
  have m: "some_image = some_ivt @ ?rest" by (simp add: some_image_def)
  have ivt: "ivt_at some_image 0 = Some \<lparr>i_barker = kImx53Barker, i_start_addr = 0x70001000,
      i_dcd_ptr = 0x70000020, i_boot_data_ptr = 0x70000800, i_self_ptr = 0x70000000\<rparr>"
    unfolding m by (rule some_ivt(2))
  obtain g len par where g: "init_header_at some_image 0 f = Some g" "im_header g = Some 0"
    "im_boot g = Some (unat ((0x70000800::u32) - 0x70000000))"
    "im_cmds g = [\<lparr>c_tag = kTag_Cmd, c_length = len, c_parameter = par, c_pairs = []\<rparr>]"
    using header_found [OF ivt, of some_ivt 0 16 0 12 "[]" "replicate 4096 0" f] assms(2)
    by (auto simp: m some_ivt(1))
  have "init_header_at some_image 0x400 g = Some g" "init_header_at some_image 0x800 g = Some g"
    by (simp_all add: init_header_at_def some_image_zero kImx53Barker_def)
  with g(1) assms(1) have i: "InitHeader f = Some g" by (simp add: InitHeader_def)
  have "im_exec g = Some some_image" using init_header_exec [OF g(1)] assms(1) by simp
  moreover have "mem32 some_image 20 = Some 0x70000000"
    using ivt by (auto simp: ivt_at_def split: option.splits)
  ultimately have "firm_data g = Inr \<lparr>fm_loaded = True, fm_data = some_image,
      fm_self_ptr = 0x70000000, fm_boot = True\<rparr>"
    using g(2,3) by (simp add: firm_data_def ivt_self_ptr_def)
  with i g(4) show ?thesis by auto
qed

text \<open>Surroundings without anything special, and a loader with these events.\<close>

definition plain_env :: "files \<Rightarrow> LEnv" where
  "plain_env files =
     \<lparr>f_env = ok_env, f_pkt = (\<lambda>_. replicate 16 0), f_rcv = (\<lambda>_. replicate 16 0), f_junk = (\<lambda>_. 0),
      f_garbage = (\<lambda>_. \<lparr>g_buff = [], g_past = [], g_file_sz = 0\<rparr>), f_sock = (\<lambda>_. True),
      f_clock = (\<lambda>_. \<lparr>tm_year = 114, tm_mon = 0, tm_mday = 1, tm_hour = 0, tm_min = 0, tm_sec = 0\<rparr>),
      f_host = None, f_json = (\<lambda>_. True), f_files = files\<rparr>"

definition new_Loader :: "AEv list \<Rightarrow> SdpEv list \<Rightarrow> Ev list \<Rightarrow> Loader" where
  "new_Loader es sdp tftp =
     Console.extend (new_Console es)
       \<lparr>ld_state = new_SysState, ld_srv = new_Server, ld_ip = ''10.0.0.1'', ld_open = True,
        ld_sdp = sdp, ld_tftp = tftp, ld_y = [], ld_net = [], ld_calls = 0, ld_json = [],
        ld_keys = []\<rparr>"

definition agreeing :: "SdpEv list" where
  "agreeing = answer_evs 0 [0xF0, 0xF0, 0xF0, 0xF0] @ answer_evs 0 [0x56, 0x78, 0x78, 0x56] @
     SdpWrote True # answer_evs 0 [0x88, 0x88, 0x88, 0x88] @ []"

lemma some_upload:
  "\<exists>t. UploadUBoot (plain_env [''u-boot.imx'' \<mapsto> some_image]) ''u-boot.imx'' (new_Loader [] agreeing [])
     = Some (Inr (True, t)) \<and> ld_sdp t = []"
proof -
  let ?e = "plain_env [''u-boot.imx'' \<mapsto> some_image]" and ?w = "new_Loader [] agreeing []"
  have e: "rcv_ok ?e" by (simp add: rcv_ok_def plain_env_def kPktSize_def)
  have w: "ld_open ?w" "ld_sdp ?w = agreeing" by (simp_all add: new_Loader_def new_Console_def Console.defs)
  obtain b1 where 1: "pkt_Send_tries ?e kMaxTries PktStatus ?w = Some (Inr (True, ?w\<lparr>w_sent := w_sent ?w @ b1,
      ld_sdp := answer_evs 0 [0x56, 0x78, 0x78, 0x56] @ SdpWrote True # answer_evs 0 [0x88, 0x88, 0x88, 0x88] @ [],
      ld_calls := ld_calls ?w + 1\<rparr>))" (is "_ = Some (Inr (True, ?w1))")
    using answered_pkt [OF e w(1), of "[0xF0, 0xF0, 0xF0, 0xF0]" _ PktStatus] w(2)
    by (auto simp: agreeing_def)
  let ?f = "(new_ImxFirmware 0)\<lparr>im_fsize := length some_image, im_exec := Some some_image\<rparr>"
  let ?firm = "\<lparr>fm_loaded = True, fm_data = some_image, fm_self_ptr = 0x70000000, fm_boot = True\<rparr>"
  obtain g c where g: "InitHeader ?f = Some g" "firm_data g = Inr ?firm" "im_cmds g = [c]" "c_pairs c = []"
    using some_image_loads [of ?f] by (auto simp: new_ImxFirmware_def)
  have l: "LoadFromFile (f_files ?e) ''u-boot.imx'' (new_ImxFirmware 0) = Some g"
    using g(1) by (simp add: LoadFromFile_def plain_env_def)
  have dcd: "UploadDCD ?e g ?w1 = Some (Inr (True, ?w1))"
    using g(3,4) by (simp add: UploadDCD_def GetDCDCommands_def)
  obtain b2 where 2: "pkt_Send_tries ?e kMaxTries (PktWriteF (Some ?firm)) ?w1 = Some (Inr (True,
      ?w1\<lparr>w_sent := w_sent ?w1 @ b2, ld_sdp := answer_evs 0 [0x88, 0x88, 0x88, 0x88] @ [],
          ld_calls := ld_calls ?w1 + 1\<rparr>))" (is "_ = Some (Inr (True, ?w2))")
    using answered_firmware [OF e, of ?w1 "answer_evs 0 [0x88, 0x88, 0x88, 0x88] @ []" ?firm] w(1) by auto
  obtain b3 where 3: "pkt_Send_tries ?e kMaxTries PktComplete ?w2 = Some (Inr (True,
      ?w2\<lparr>w_sent := w_sent ?w2 @ b3, ld_sdp := [], ld_calls := ld_calls ?w2 + 1\<rparr>))"
    using answered_pkt [OF e, of ?w2 "[0x88, 0x88, 0x88, 0x88]" "[]" PktComplete] w(1) by auto
  show ?thesis
    unfolding UploadUBoot_def orfail_def 1 thenA_simps l dcd g(2) option.case sum.case if_True 2 3 by simp
qed

theorem UploadUBoot_was_agreed_witness:
  "\<exists>a b c d image firm. agreeing = a @ b @ c @ d \<and>
     LoadFromFile [''u-boot.imx'' \<mapsto> some_image] ''u-boot.imx'' (new_ImxFirmware 0) = Some image \<and>
     firm_data image = Inr firm \<and>
     acked PktStatus a \<and> acked (PktWriteF (Some firm)) c \<and> acked PktComplete d"
proof -
  obtain t where "UploadUBoot (plain_env [''u-boot.imx'' \<mapsto> some_image]) ''u-boot.imx''
      (new_Loader [] agreeing []) = Some (Inr (True, t))" "ld_sdp t = []"
    using some_upload by blast
  from UploadUBoot_was_agreed [OF this(1)] this(2) show ?thesis
    by (simp add: rcv_ok_def plain_env_def kPktSize_def new_Loader_def new_Console_def Console.defs)
qed

section \<open>A file for the board\<close>

definition srv_env_ok :: "LEnv \<Rightarrow> bool" where
  "srv_env_ok e \<longleftrightarrow> (\<forall>n. length (g_buff (f_garbage e n)) = kMaxSize \<and>
     length (g_past (f_garbage e n)) = 2 \<and> f_sock e n)"

lemma setup_eth_done: "w_eth_is_ready w \<Longrightarrow> setup_eth e tftpd w = Some (Inr (True, w))"
  by (simp add: setup_eth_def)

lemma DownloadFromTFtp_serves:
  assumes "srv_env_ok e" "w_eth_is_ready w" "nw_ip tftpd \<noteq> ''''" "request \<noteq> ''''" "path \<noteq> ''''"
    and pub: "pub_files (ld_srv w) request = Some src" "f_files e src = Some bs" "bs \<noteq> []"
    and "srv_sess (ld_srv w) = None" "rrq_fits request mode"
    and net: "ld_tftp w = got_evs ep (rrq_wire request mode) @ transfer_evs ep 1 ms @ es"
      "length ms = length (chunks 512 bs)"
    and con: "delivers 10 cs (w_reads w) = Some rs"
      "scan (prompt_hit (f_env e) (w_shell_prompt w)) '''' 0 cs = (ls, True, [])"
  shows "\<exists>t ds. DownloadFromTFtp e tftpd request path w = Some (Inr (True, t)) \<and>
    w_sent t = w_sent w @ [cmd_line (tftp_cmd tftpd request path)] \<and>
    ld_net t = ld_net w @ ds \<and> rfc_receive 1 (map snd ds) = bs \<and> ld_tftp t = es \<and> w_reads t = rs"
proof -
  let ?w = "SendCmd (tftp_cmd tftpd request path) w" and ?n = "ld_calls w"
  have g: "length (g_buff (f_garbage e ?n)) = kMaxSize" "length (g_past (f_garbage e ?n)) = 2" "f_sock e ?n"
    using assms(1) by (simp_all add: srv_env_ok_def)
  from Run_transfer [where files = "f_files e" and path = src, OF pub assms(9) g(1,2) assms(10) net(2),
      of ep es] obtain s where
    s: "Run (f_files e) (f_garbage e ?n) True (ld_tftp w) (ld_srv w) = Some (Inr (True, ld_srv w, s, es))"
      "rfc_receive 1 (map snd (s_sent s)) = bs"
    unfolding net(1) by blast
  let ?u = "?w\<lparr>ld_srv := ld_srv w, ld_tftp := es, ld_calls := ?n + 1, ld_net := ld_net w @ s_sent s\<rparr>"
  have run: "srv_Run e ?w = Some (Inr (True, ?u))"
    using s(1) g(3) assms(9) by (simp add: srv_Run_def SendCmd_def sess_sent_def Let_def)
  have prompt: "ParseUntil (f_env e) (w_shell_prompt ?u) False ?u = Some (Inr (True, ?u\<lparr>w_reads := rs, w_inf := w_inf ?u\<rparr>))"
    using con by (intro ParseUntil_match [OF _ _ fill_lines_False]) (simp_all add: SendCmd_def)
  have "DownloadFromTFtp e tftpd request path w = Some (Inr (True, ?u\<lparr>w_reads := rs, w_inf := w_inf ?u\<rparr>))"
    using assms(3-5) prompt
    by (simp add: DownloadFromTFtp_def setup_eth_done [OF assms(2)] orfail_def run)
  then show ?thesis using s(2)
    by (intro exI [of _ "?u\<lparr>w_reads := rs, w_inf := w_inf ?u\<rparr>"] exI [of _ "s_sent s"])
      (simp add: SendCmd_def cmd_line_def)
qed

text \<open>C20: the board gets the file it is told to fetch: the command goes out over the console, the
  server answers the board's request with the bytes of the published file, whatever answers are
  lost on the way, and when the prompt comes back \<open>DownloadFromTFtp\<close> returns true.\<close>

theorem DownloadFromTFtp_delivers:
  assumes "srv_env_ok e" "w_eth_is_ready w" "nw_ip tftpd \<noteq> ''''" "request \<noteq> ''''" "path \<noteq> ''''"
    and "pub_files (ld_srv w) request = Some src" "f_files e src = Some bs" "bs \<noteq> []"
    and "srv_sess (ld_srv w) = None" "rrq_fits request mode"
    and "ld_tftp w = got_evs ep (rrq_wire request mode) @ transfer_evs ep 1 ms @ es"
      "length ms = length (chunks 512 bs)"
    and "delivers 10 cs (w_reads w) = Some rs"
      "scan (prompt_hit (f_env e) (w_shell_prompt w)) '''' 0 cs = (ls, True, [])"
  shows "\<exists>t ds. DownloadFromTFtp e tftpd request path w = Some (Inr (True, t)) \<and>
    w_sent t = w_sent w @ [cmd_line (tftp_cmd tftpd request path)] \<and>
    ld_net t = ld_net w @ ds \<and> rfc_receive 1 (map snd ds) = bs \<and> ld_tftp t = es \<and> w_reads t = rs"
  using assms by (rule DownloadFromTFtp_serves)

definition plain_net :: Network where
  "plain_net = \<lparr>nw_ip = ''10.0.0.1'', nw_mask = '''', nw_port = ''6969''\<rparr>"

definition serving :: Loader where
  "serving = (new_Loader (arriving (of_string ''ok'' @ [0x0A] @ of_string ''>'') @ []) []
       (got_evs 5 (rrq_wire ''f'' ''octet'') @ transfer_evs 5 1 [1] @ []))
     \<lparr>w_eth_is_ready := True, w_shell_prompt := ''>'', ld_srv := one_file\<rparr>"

definition serving_env :: LEnv where
  "serving_env = (plain_env [''/srv/f'' \<mapsto> [1, 2, 3]])\<lparr>f_garbage := \<lambda>_. garbage0\<rparr>"

theorem DownloadFromTFtp_delivers_witness:
  "\<exists>t ds. DownloadFromTFtp serving_env plain_net ''f'' ''/tmp/f'' serving = Some (Inr (True, t)) \<and>
    w_sent t = w_sent serving @ [cmd_line (tftp_cmd plain_net ''f'' ''/tmp/f'')] \<and>
    ld_net t = ld_net serving @ ds \<and> rfc_receive 1 (map snd ds) = [1, 2, 3] \<and> ld_tftp t = [] \<and> w_reads t = []"
proof (rule DownloadFromTFtp_delivers)
  show "srv_env_ok serving_env"
    by (simp add: srv_env_ok_def serving_env_def plain_env_def garbage0_def)
  show "w_eth_is_ready serving" "srv_sess (ld_srv serving) = None"
    by (simp_all add: serving_def one_file_def PublishFile_def new_Server_def)
  show "nw_ip plain_net \<noteq> ''''" "''f'' \<noteq> ''''" "''/tmp/f'' \<noteq> ''''" by (simp_all add: plain_net_def)
  show "pub_files (ld_srv serving) ''f'' = Some ''/srv/f''"
    by (simp add: serving_def one_file_def PublishFile_def new_Server_def)
  show "f_files serving_env ''/srv/f'' = Some [1, 2, 3]" "[1, 2, 3] \<noteq> ([]::byte list)"
    by (simp_all add: serving_env_def plain_env_def)
  show "rrq_fits ''f'' ''octet''" by (simp add: rrq_fits_def of_string_def kBuff_le)
  show "ld_tftp serving = got_evs 5 (rrq_wire ''f'' ''octet'') @ transfer_evs 5 1 [1] @ []"
    by (simp add: serving_def new_Loader_def Console.defs Loader.defs del: append_Nil2)
  show "length [1] = length (chunks 512 ([1, 2, 3]::byte list))" by (simp add: chunks_step)
  show "delivers 10 (of_string ''ok'' @ [0x0A] @ of_string ''>'') (w_reads serving) = Some []"
    unfolding serving_def new_Loader_def new_Console_def Console.defs Loader.simps Console.simps
    by (rule delivers_arriving) simp
  show "scan (prompt_hit (f_env serving_env) (w_shell_prompt serving)) '''' 0
      (of_string ''ok'' @ [0x0A] @ of_string ''>'') = ([''ok''], True, [])"
    using scan_ok(1) by (simp add: serving_env_def plain_env_def serving_def)
qed

section \<open>A kernel that nobody fetches\<close>

definition dhcp_line :: "Loader \<Rightarrow> byte list" where
  "dhcp_line w = cmd_line (''dhcp ${loadaddr} '' @ ld_ip w @ '':'' @ kKernelImg @ BootM)"

text \<open>After a time-out of the console, the boot loader counting as entered.\<close>

definition deaf :: "Loader \<Rightarrow> bool" where
  "deaf w \<longleftrightarrow> w_timeout_fail w \<and> w_already_has_been w \<and> \<not> si_wait_for_reboot (w_inf w) \<and>
     srv_sess (ld_srv w) = None"

lemma deaf_begin: "deaf w \<Longrightarrow> UploadKernelBegin e pswd w = Some (Inr (True, clear_kernel w))"
  by (simp add: UploadKernelBegin_def WaitForWelcomeFromUBoot_def orfail_def deaf_def clear_kernel_def
      SendToUBoot_def)

lemma deaf_turn:
  assumes "deaf w" "srv_env_ok e" "ld_tftp w = [Ev 1 (Fired True), Ev 0 Failed] @ es"
  shows "\<exists>t. UploadKernelOverEth e pswd w = UploadKernelOverEth e pswd t \<and> deaf t \<and>
    ld_tftp t = es \<and> w_sent t = w_sent w @ [dhcp_line w] \<and> ld_ip t = ld_ip w"
proof -
  let ?w = "SendCmd (''dhcp ${loadaddr} '' @ ld_ip w @ '':'' @ kKernelImg @ BootM)
      (set_upload_fail False (clear_kernel w))" and ?n = "ld_calls w"
  have w: "ld_srv ?w = ld_srv w" "ld_tftp ?w = ld_tftp w" "ld_calls ?w = ?n" "ld_ip ?w = ld_ip w"
    "srv_sess (ld_srv w) = None"
    using assms(1) by (simp_all add: SendCmd_def set_upload_fail_def clear_kernel_def deaf_def)
  have g: "length (g_buff (f_garbage e ?n)) = kMaxSize" "length (g_past (f_garbage e ?n)) = 2" "f_sock e ?n"
    using assms(2) by (simp_all add: srv_env_ok_def)
  from Run_silence [where srv = "ld_srv w" and files = "f_files e", OF w(5) g(1,2), of es] obtain s where
    s: "Run (f_files e) (f_garbage e ?n) True (ld_tftp w) (ld_srv w) = Some (Inr (False, ld_srv w, s, es))"
      "s_sent s = []"
    unfolding assms(3) by blast
  define u where "u = ?w\<lparr>ld_srv := ld_srv w, ld_tftp := es, ld_calls := ?n + 1, ld_net := ld_net ?w @ []\<rparr>"
  have run: "srv_Run e ?w = Some (Inr (False, u))"
    unfolding srv_Run_def Let_def w using s g(3) by (simp add: u_def)
  have turn: "eth_turn e (clear_kernel w) = Some (Inr (True, set_upload_fail True u))"
  proof -
    have "ld_ip (clear_kernel w) = ld_ip w" by (simp add: clear_kernel_def)
    moreover have "w_timeout_fail (set_upload_fail False (clear_kernel w))"
      using assms(1) by (simp add: deaf_def set_upload_fail_def clear_kernel_def)
    ultimately show ?thesis using run by (simp add: eth_turn_def SendToUBoot_def)
  qed
  have "UploadKernelOverEth e pswd w = UploadKernelOverEth e pswd (set_upload_fail True u)"
    by (subst UploadKernelOverEth.simps)
      (simp add: deaf_begin [OF assms(1)] turn, simp add: set_upload_fail_def)
  moreover have "deaf (set_upload_fail True u) \<and> ld_tftp (set_upload_fail True u) = es \<and>
      w_sent (set_upload_fail True u) = w_sent w @ [dhcp_line w] \<and> ld_ip (set_upload_fail True u) = ld_ip w"
    using assms(1)
    by (simp add: u_def deaf_def set_upload_fail_def clear_kernel_def SendCmd_def dhcp_line_def
        cmd_line_def upd_kernel_def)
  ultimately show ?thesis by blast
qed

text \<open>Once the console has timed out, a board that never asks for the kernel keeps
  \<open>UploadKernelOverEth\<close> in its loop: after any number \<open>n\<close> of periods in which nobody asks it is
  still in the same loop, and has sent the same command \<open>n\<close> times; the time-out of the console,
  which stops everything else, does not stop it.\<close>

theorem kernel_upload_never_gives_up:
  assumes "deaf w" "srv_env_ok e"
    and "ld_tftp w = concat (replicate n [Ev 1 (Fired True), Ev 0 Failed]) @ es"
  shows "\<exists>t. UploadKernelOverEth e pswd w = UploadKernelOverEth e pswd t \<and> deaf t \<and>
    ld_tftp t = es \<and> w_sent t = w_sent w @ replicate n (dhcp_line w)"
  using assms(1,3)
proof (induction n arbitrary: w)
  case (Suc n)
  then have "ld_tftp w = [Ev 1 (Fired True), Ev 0 Failed] @ concat (replicate n [Ev 1 (Fired True), Ev 0 Failed]) @ es"
    by simp
  from deaf_turn [OF Suc.prems(1) assms(2) this, of pswd] obtain u where
    u: "UploadKernelOverEth e pswd w = UploadKernelOverEth e pswd u" "deaf u"
      "ld_tftp u = concat (replicate n [Ev 1 (Fired True), Ev 0 Failed]) @ es"
      "w_sent u = w_sent w @ [dhcp_line w]" "dhcp_line u = dhcp_line w"
    by (auto simp: dhcp_line_def)
  from Suc.IH [OF u(2,3)] u show ?case by auto
qed auto

definition deaf_board :: Loader where
  "deaf_board = (new_Loader [] [] (concat (replicate 100 [Ev 1 (Fired True), Ev 0 Failed]) @ []))
     \<lparr>w_timeout_fail := True, w_already_has_been := True\<rparr>"

theorem kernel_upload_never_gives_up_witness:
  "\<exists>t. UploadKernelOverEth serving_env '''' deaf_board = UploadKernelOverEth serving_env '''' t \<and>
    deaf t \<and> ld_tftp t = [] \<and> w_sent t = w_sent deaf_board @ replicate 100 (dhcp_line deaf_board)"
proof (rule kernel_upload_never_gives_up)
  show "deaf deaf_board"
    by (simp add: deaf_board_def new_Loader_def new_Console_def Console.defs deaf_def new_SysInfo_def
        new_Server_def del: concat_append)
  show "srv_env_ok serving_env"
    by (simp add: srv_env_ok_def serving_env_def plain_env_def garbage0_def)
  show "ld_tftp deaf_board = concat (replicate 100 [Ev 1 (Fired True), Ev 0 Failed]) @ []"
    unfolding deaf_board_def new_Loader_def new_Console_def Console.defs Loader.simps Console.simps
    by (rule refl)
qed

end
