(* ===== verification/Loader_Float.thy ===== *)
theory Loader_Float
  imports Complex_Main Loader_Data
begin

text \<open>
  The size of a volume, which \<open>MkUbiFsPartition\<close> (regiloader/regiloader.cpp) computes with single
  precision.  A floating-point number is a pair \<open>(m, n)\<close> for \<open>m * 2 ^ n\<close>; \<open>dy_round\<close> rounds to the
  nearest number with so many binary digits, ties to even, as hosts do that evaluate in the
  precision of the type.  The range of the exponent is never left with numbers of this size.
\<close>

section \<open>Floating-point numbers\<close>

type_synonym dyadic = "int \<times> int"

fun dy_round :: "nat \<Rightarrow> dyadic \<Rightarrow> dyadic" where
  "dy_round p (m, n) =
     (let k = bitlen (nat \<bar>m\<bar>) - p; q = \<bar>m\<bar> div 2 ^ k; r = \<bar>m\<bar> mod 2 ^ k in
      if k = 0 then (m, n)
      else (sgn m * (if 2 ^ k < 2 * r \<or> (2 * r = 2 ^ k \<and> odd q) then q + 1 else q), n + int k))"

fun dy_add :: "dyadic \<Rightarrow> dyadic \<Rightarrow> dyadic" where
  "dy_add (m1, n1) (m2, n2) =
     (if n1 \<le> n2 then (m1 + m2 * 2 ^ nat (n2 - n1), n1) else (m1 * 2 ^ nat (n1 - n2) + m2, n2))"

fun dy_mul :: "dyadic \<Rightarrow> dyadic \<Rightarrow> dyadic" where
  "dy_mul (m1, n1) (m2, n2) = (m1 * m2, n1 + n2)"

fun dy_neg :: "dyadic \<Rightarrow> dyadic" where
  "dy_neg (m, n) = (- m, n)"

text \<open>The conversion to \<open>uint64_t\<close>, which drops the fraction; it has no meaning outside the type.\<close>

fun dy_to_u64 :: "dyadic \<Rightarrow> stop + u64" where
  "dy_to_u64 (m, n) =
     (let a = (if 0 \<le> n then \<bar>m\<bar> * 2 ^ nat n else \<bar>m\<bar> div 2 ^ nat (- n)) in
      if 0 < a \<and> m < 0 \<or> 2 ^ 64 \<le> a then Inl OutOfRange else Inr (word_of_int a))"

definition fl24 :: "dyadic \<Rightarrow> dyadic" where
  "fl24 = dy_round 24"

definition fl53 :: "dyadic \<Rightarrow> dyadic" where
  "fl53 = dy_round 53"

text \<open>\<open>float vol_reserve = 0.02\<close>, and \<open>0.005\<close>, which is a \<open>double\<close>.\<close>

definition vol_reserve_0 :: dyadic where
  "vol_reserve_0 = (10737418, -29)"

definition vol_step :: dyadic where
  "vol_step = (5764607523034235, -60)"

definition next_reserve :: "dyadic \<Rightarrow> dyadic" where
  "next_reserve r = fl24 (fl53 (dy_add r vol_step))"

definition kVolSize :: "u64 \<Rightarrow> dyadic \<Rightarrow> stop + u64" where
  "kVolSize kMaxVolSize r =
     (let mx = fl24 (int (unat kMaxVolSize), 0)
      in dy_to_u64 (fl24 (dy_add mx (dy_neg (fl24 (dy_mul mx r))))))"

section \<open>Values\<close>

fun dy_val :: "dyadic \<Rightarrow> real" where
  "dy_val (m, n) = of_int m * 2 powi n"

lemma powi_split: "n1 \<le> n2 \<Longrightarrow> (2::real) powi n1 * 2 ^ nat (n2 - n1) = 2 powi n2"
proof -
  assume "n1 \<le> n2"
  then obtain k where "n2 = n1 + int k" using zle_iff_zadd by auto
  then show ?thesis by (simp add: power_int_add)
qed

lemma dy_val_add: "dy_val (dy_add a b) = dy_val a + dy_val b"
proof -
  obtain m1 n1 m2 n2 where "a = (m1, n1)" "b = (m2, n2)" by (cases a, cases b)
  then show ?thesis
    using powi_split [of n1 n2] powi_split [of n2 n1] by (auto simp: algebra_simps)
qed

lemma dy_val_mul: "dy_val (dy_mul a b) = dy_val a * dy_val b"
  by (cases a; cases b) (simp add: power_int_add)

lemma dy_val_neg: "dy_val (dy_neg a) = - dy_val a"
  by (cases a) simp

text \<open>Rounding changes a number by no more than one part in \<open>2 ^ p\<close>.\<close>

text \<open>What is cut off is at most a unit of the last digit that is kept.\<close>

lemma bitlen_cut:
  assumes "0 < m" "bitlen (nat m) - p = k" "k \<noteq> 0"
  shows "2 ^ k * 2 ^ p \<le> 2 * m"
proof -
  have "2 ^ (bitlen (nat m) - 1) \<le> nat m" using assms(1) by (intro bitlen_le) simp
  then have "(2::int) ^ (bitlen (nat m) - 1) \<le> m" using assms(1) by (simp add: le_nat_iff)
  moreover have "bitlen (nat m) = Suc (bitlen (nat m) - 1)" "k + p = bitlen (nat m)"
    using assms(2,3) by simp_all
  then have "(2::int) ^ (k + p) = 2 * 2 ^ (bitlen (nat m) - 1)" by (metis power_Suc)
  ultimately show ?thesis by (simp add: power_add)
qed

lemma dy_round_val:
  assumes "0 \<le> m" "dy_round p (m, n) = (m', n')"
  shows "0 \<le> m' \<and> \<bar>dy_val (m', n') - dy_val (m, n)\<bar> * 2 ^ p \<le> dy_val (m, n)"
proof -
  define k where "k = bitlen (nat m) - p"
  define q where "q = m div 2 ^ k"
  define r where "r = m mod 2 ^ k"
  show ?thesis
  proof (cases "k = 0")
    case True
    then have "m' = m" "n' = n" using assms by (simp_all add: k_def Let_def)
    then show ?thesis using assms(1) by simp
  next
    case False
    define q' where "q' = (if 2 ^ k < 2 * r \<or> (2 * r = 2 ^ k \<and> odd q) then q + 1 else q)"
    have m: "m = q * 2 ^ k + r" unfolding q_def r_def by (simp only: div_mult_mod_eq)
    have r: "0 \<le> r" "r < 2 ^ k" by (simp_all add: r_def)
    have q0: "0 \<le> q" using assms(1) by (simp add: q_def pos_imp_zdiv_nonneg_iff)
    have pos: "0 < m"
    proof (rule ccontr)
      assume "\<not> 0 < m"
      with assms(1) have "m = 0" by simp
      with False show False by (simp add: k_def bitlen.simps [of 0])
    qed
    have res: "m' = q'" "n' = n + int k"
      using assms False pos unfolding q'_def q_def r_def k_def by (simp_all add: Let_def)
    have "\<bar>q' * 2 ^ k - m\<bar> * 2 \<le> 2 ^ k" using r unfolding q'_def m by (auto simp: algebra_simps)
    moreover have "2 ^ k * 2 ^ p \<le> 2 * m" using bitlen_cut [OF pos k_def [symmetric] False] .

    ultimately have "\<bar>q' * 2 ^ k - m\<bar> * 2 * 2 ^ p \<le> 2 * m"
      by (meson order_trans mult_right_mono zero_le_numeral zero_le_power)
    then have "real_of_int (\<bar>q' * 2 ^ k - m\<bar> * 2 ^ p) \<le> of_int m" by linarith
    then have e: "\<bar>of_int q' * 2 ^ k - of_int m\<bar> * 2 ^ p \<le> (of_int m :: real)" by simp
    have v: "dy_val (m', n') - dy_val (m, n) = (of_int q' * 2 ^ k - of_int m) * 2 powi n"
      unfolding res by (simp add: power_int_add algebra_simps)
    have "\<bar>dy_val (m', n') - dy_val (m, n)\<bar> * 2 ^ p
        = \<bar>of_int q' * 2 ^ k - of_int m\<bar> * 2 ^ p * 2 powi n"
      unfolding v abs_mult by simp
    also have "\<dots> \<le> of_int m * 2 powi n" using e by (intro mult_right_mono) simp_all
    finally show ?thesis using q0 unfolding res q'_def by simp
  qed
qed


lemma dy_val_nonneg: "0 \<le> dy_val (m, n) \<longleftrightarrow> 0 \<le> m"
proof -
  have "\<not> (2::real) powi n \<le> 0" by (simp add: not_le)
  then show ?thesis by (auto simp: zero_le_mult_iff)
qed

text \<open>One rounded operation, with its result between two bounds.\<close>

lemma fl24_bounds:
  assumes "0 \<le> dy_val a"
  shows "0 \<le> dy_val (fl24 a)" "dy_val (fl24 a) * 16777216 \<le> dy_val a * 16777217"
    "dy_val a * 16777215 \<le> dy_val (fl24 a) * 16777216"
proof -
  obtain m n m' n' where p: "a = (m, n)" "fl24 a = (m', n')" by (cases a, cases "fl24 a")
  have "0 \<le> m" using assms unfolding p(1) dy_val_nonneg .
  from dy_round_val [OF this, of 24 n m' n'] p
  have "0 \<le> m'" "\<bar>dy_val (fl24 a) - dy_val a\<bar> * 16777216 \<le> dy_val a"
    by (simp_all add: fl24_def)
  then show "0 \<le> dy_val (fl24 a)" "dy_val (fl24 a) * 16777216 \<le> dy_val a * 16777217"
    "dy_val a * 16777215 \<le> dy_val (fl24 a) * 16777216"
    using p(2) by (simp_all add: abs_if split: if_splits)
qed

lemma dy_to_u64_val:
  assumes "0 \<le> dy_val a" "dy_val a < 2 ^ 64"
  shows "\<exists>sz. dy_to_u64 a = Inr sz \<and> real (unat sz) \<le> dy_val a \<and> dy_val a < real (unat sz) + 1"
proof -
  obtain m n where a: "a = (m, n)" by (cases a)
  have m: "0 \<le> m" using assms(1) unfolding a dy_val_nonneg .
  define z where "z = (if 0 \<le> n then \<bar>m\<bar> * 2 ^ nat n else \<bar>m\<bar> div 2 ^ nat (- n))"
  have z: "of_int z \<le> dy_val a" "dy_val a < of_int z + 1" "0 \<le> z"
  proof -
    have "z = \<lfloor>dy_val a\<rfloor>"
    proof (cases "0 \<le> n")
      case True
      then have "dy_val a = of_int (m * 2 ^ nat n)" by (simp add: a power_int_def)
      then show ?thesis using True m by (simp only: floor_of_int) (simp add: z_def)
    next
      case False
      then have "dy_val a = of_int m / of_int (2 ^ nat (- n))"
        by (simp add: a power_int_def power_divide)
      then show ?thesis using False m by (simp only: floor_divide_of_int_eq) (simp add: z_def)
    qed
    then show "of_int z \<le> dy_val a" "dy_val a < of_int z + 1"
      using floor_correct [of "dy_val a"] by simp_all
    show "0 \<le> z" using m by (simp add: z_def pos_imp_zdiv_nonneg_iff)
  qed
  have "real_of_int z < real_of_int (2 ^ 64)" using z(1) assms(2) by simp
  then have lt: "z < 2 ^ 64" by (simp only: of_int_less_iff)
  then have "unat (word_of_int z :: u64) = nat z"
    using z(3) by (simp add: unat_eq_nat_uint uint_word_of_int)
  then obtain K where K: "K = unat (word_of_int z :: u64)" "int K = z" using z(3) by simp
  then have "real K = real_of_int z" by (metis of_int_of_nat_eq)
  then have "real K \<le> dy_val a" "dy_val a < real K + 1" using z(1,2) by simp_all
  moreover have "dy_to_u64 a = Inr (word_of_int z)"
    using lt m by (simp add: a z_def [symmetric] Let_def)
  ultimately show ?thesis unfolding K(1) by blast
qed

text \<open>The reserve at the start, about 2 percent.\<close>

lemma reserve_val: "dy_val vol_reserve_0 = 10737418 / 536870912"
  by (simp add: vol_reserve_0_def power_int_def power_divide)

lemma kVolSize_first:
  assumes "unat x < 2 ^ 63"
  shows "\<exists>sz. kVolSize x vol_reserve_0 = Inr sz \<and> 100 * unat sz \<le> 99 * unat x \<and>
    97 * unat x \<le> 100 * unat sz + 100"
proof -
  define N where "N = unat x"
  define mx where "mx = fl24 (int N, 0)"
  define pr where "pr = fl24 (dy_mul mx vol_reserve_0)"
  define df where "df = fl24 (dy_add mx (dy_neg pr))"
  have X: "dy_val mx * 16777216 \<le> real N * 16777217"
    "real N * 16777215 \<le> dy_val mx * 16777216" "0 \<le> dy_val mx"
    using fl24_bounds [of "(int N, 0)"] by (simp_all add: mx_def)
  have v: "dy_val (dy_mul mx vol_reserve_0) = dy_val mx * 10737418 / 536870912"
    by (simp add: dy_val_mul reserve_val)
  have P: "dy_val pr * 16777216 \<le> dy_val mx * 10737418 / 536870912 * 16777217"
    "dy_val mx * 10737418 / 536870912 * 16777215 \<le> dy_val pr * 16777216"
    using fl24_bounds [of "dy_mul mx vol_reserve_0", unfolded v] X(3) by (simp_all add: pr_def)
  have w: "dy_val (dy_add mx (dy_neg pr)) = dy_val mx - dy_val pr"
    by (simp add: dy_val_add dy_val_neg)
  have D0: "0 \<le> dy_val mx - dy_val pr" using P(1) X(3) by (simp add: field_simps)
  have D: "dy_val df * 16777216 \<le> (dy_val mx - dy_val pr) * 16777217"
    "(dy_val mx - dy_val pr) * 16777215 \<le> dy_val df * 16777216" "0 \<le> dy_val df"
    using fl24_bounds [of "dy_add mx (dy_neg pr)", unfolded w] D0 by (simp_all add: df_def)
  have hi: "dy_val df * 100 \<le> 99 * real N" using X P D by (simp add: field_simps)
  have lo: "97 * real N \<le> dy_val df * 100" using X P D by (simp add: field_simps)
  have "dy_val df < 2 ^ 64" using hi assms [folded N_def] by (simp add: field_simps)
  from dy_to_u64_val [OF D(3) this] obtain sz where
    sz: "dy_to_u64 df = Inr sz" "real (unat sz) \<le> dy_val df" "dy_val df < real (unat sz) + 1" by blast
  have "kVolSize x vol_reserve_0 = Inr sz"
    using sz(1) unfolding kVolSize_def mx_def pr_def df_def Let_def N_def .
  moreover have "real (100 * unat sz) \<le> real (99 * N)" using hi sz(2) by simp
  then have "100 * unat sz \<le> 99 * N" by linarith
  moreover have "real (97 * N) \<le> real (100 * unat sz + 100)" using lo sz(3) by simp
  then have "97 * N \<le> 100 * unat sz + 100" by linarith
  ultimately show ?thesis unfolding N_def by blast
qed

text \<open>C23: the volume that is asked for first takes between 97 and 99 percent of its partition,
  whatever the rounding of the single precision does; the percentages are the nearest whole
  ones around the 2 percent that are kept.\<close>

theorem first_volume_fits:
  assumes "unat x < 2 ^ 63"
  shows "\<exists>sz. kVolSize x vol_reserve_0 = Inr sz \<and> 100 * unat sz \<le> 99 * unat x \<and>
    97 * unat x \<le> 100 * unat sz + 100"
  using assms by (rule kVolSize_first)

theorem first_volume_fits_witness:
  "\<exists>sz. kVolSize 0x10000000 vol_reserve_0 = Inr sz \<and> 100 * unat sz \<le> 99 * unat (0x10000000 :: u64) \<and>
    97 * unat (0x10000000 :: u64) \<le> 100 * unat sz + 100"
  by (rule first_volume_fits) simp

end
