(* ===== verification/Loader_Install.thy ===== *)
theory Loader_Install
  imports Loader_Upload Loader_Float
begin

text \<open>
  Installing the software on a board that runs Linux (regiloader/regiloader.cpp): making the
  partitions, unpacking the root file system, the kernel, the boot loader, the packets, and the
  registration of the board.
\<close>

section \<open>Partitions\<close>

definition set_mk_part_fail :: "bool \<Rightarrow> Loader \<Rightarrow> Loader" where
  "set_mk_part_fail b w = w\<lparr>w_inf := (w_inf w)\<lparr>si_mk_part_fail := b\<rparr>\<rparr>"

definition ubimkvol :: "byte \<Rightarrow> string \<Rightarrow> u64 \<Rightarrow> string" where
  "ubimkvol ubi_id vol_name sz =
     ''ubimkvol /dev/ubi'' @ show_dec (unat ubi_id) @ '' -N '' @ vol_name @ '' -s '' @ show_dec (unat sz)"

text \<open>The partition is found through a pointer: its area is read again in every turn.\<close>

definition part_length :: "string \<Rightarrow> Loader \<Rightarrow> u64" where
  "part_length vol_name w =
     (case FindPartition vol_name (kn_partitions (si_kernel (w_inf w))) of
        None \<Rightarrow> 0
      | Some p \<Rightarrow> area_Length (p_area p))"

partial_function (option) mkvol_loop ::
  "LEnv \<Rightarrow> byte \<Rightarrow> string \<Rightarrow> dyadic \<Rightarrow> Loader \<Rightarrow> Loader attempt" where
  "mkvol_loop e ubi_id vol_name r w =
     (case kVolSize (part_length vol_name w) r of
        Inl x \<Rightarrow> Some (Inl x)
      | Inr sz \<Rightarrow>
          (case SendToShell (f_env e) (ubimkvol ubi_id vol_name sz) True (set_mk_part_fail False w) of
             None \<Rightarrow> None
           | Some (Inl x) \<Rightarrow> Some (Inl x)
           | Some (Inr (_, w)) \<Rightarrow>
               (if si_mk_part_fail (w_inf w) then mkvol_loop e ubi_id vol_name (next_reserve r) w
                else Some (Inr (True, w)))))"

definition MkUbiFsPartition :: "LEnv \<Rightarrow> byte \<Rightarrow> string \<Rightarrow> Loader \<Rightarrow> Loader attempt" where
  "MkUbiFsPartition e ubi_id vol_name w =
     (case FindPartition vol_name (kn_partitions (si_kernel (w_inf w))) of
        None \<Rightarrow> Some (Inr (False, w))
      | Some p \<Rightarrow>
          thenA (doA
            [SendToShell (f_env e) (''ubidetach /dev/ubi_ctrl -d '' @ show_dec (unat ubi_id)) False,
             SendToShell (f_env e) (''ubiformat /dev/mtd'' @ show_dec (unat (p_mtd_id p))) False,
             SendToShell (f_env e) (''ubiattach /dev/ubi_ctrl -m '' @ show_dec (unat (p_mtd_id p))) False] w)
            (\<lambda>_. mkvol_loop e ubi_id vol_name vol_reserve_0))"

text \<open>The path without what follows its last dot.\<close>

definition without_ext :: "string \<Rightarrow> string" where
  "without_ext s =
     (if CHR ''.'' \<in> set s then rev (tl (dropWhile (\<lambda>c. c \<noteq> CHR ''.'') (rev s))) else s)"

definition shells :: "LEnv \<Rightarrow> string list \<Rightarrow> (Loader \<Rightarrow> Loader attempt) list" where
  "shells e cmds = map (\<lambda>c. SendToShell (f_env e) c False) cmds"

definition UnpackRootFs :: "LEnv \<Rightarrow> Loader \<Rightarrow> Loader attempt" where
  "UnpackRootFs e w =
     (let kHwAddr = GetHwAddr (ld_state w) in
      doA ([UpdateListOfPartitions (f_env e)] @
           shells e [''umount /mnt/''] @ [MkUbiFsPartition e 0 ''rootfs''] @
           shells e [''mount -t ubifs ubi0:rootfs /mnt/'', ''umount /mnt/home''] @
           [MkUbiFsPartition e 1 ''storage''] @
           shells e [''mkdir /mnt/home'', ''mount -t ubifs ubi1:storage /mnt/home'',
                     ''gunzip '' @ kRootFsTar,
                     ''cd /mnt && tar xvf '' @ without_ext kRootFsTar] @
           [setA (\<lambda>w. w\<lparr>w_inf := (w_inf w)\<lparr>si_board_hw_addr := kHwAddr\<rparr>\<rparr>)] @
           shells e [''echo '' @ kHwAddr @ '' > /mnt/etc/hwaddr'', ''sync'']) w)"

section \<open>Tools, kernel and boot loader\<close>

definition no_ip :: "Network \<Rightarrow> bool" where
  "no_ip tftpd \<longleftrightarrow> length (nw_ip tftpd) = 0"

definition UploadAndInstallTools :: "LEnv \<Rightarrow> Network \<Rightarrow> Loader \<Rightarrow> Loader attempt" where
  "UploadAndInstallTools e tftpd w =
     (if no_ip tftpd then Some (Inr (False, w))
      else (let kPathGz = ''/tmp/'' @ kMtdUtils in
            orfail (DownloadFromTFtp e tftpd kMtdUtils kPathGz)
              (doA (shells e [''gunzip '' @ kPathGz,
                              ''tar xvf '' @ without_ext kPathGz @ '' -C /''])) w))"

definition UploadKernelModulesAndInstall :: "LEnv \<Rightarrow> Network \<Rightarrow> Loader \<Rightarrow> Loader attempt" where
  "UploadKernelModulesAndInstall e tftpd =
     (let kPathGz = ''/tmp/'' @ kKernelMods in
      orfail (DownloadFromTFtp e tftpd kKernelMods kPathGz)
        (doA (shells e [''gunzip '' @ kPathGz, ''tar xvf '' @ without_ext kPathGz @ '' -C /''])))"

definition hex_low :: "nat \<Rightarrow> string" where
  "hex_low n = map (\<lambda>c. if 65 \<le> (of_char c :: nat) then char_of (of_char c + 32 :: nat) else c) (show_hex n)"

definition UploadAndInstallKernel :: "LEnv \<Rightarrow> Network \<Rightarrow> Loader \<Rightarrow> Loader attempt" where
  "UploadAndInstallKernel e tftpd w =
     (if no_ip tftpd then Some (Inr (False, w))
      else (let kPath = ''/tmp/'' @ kKernelImg in
            orfail (DownloadFromTFtp e tftpd kKernelImg kPath)
              (\<lambda>w. thenA (UpdateListOfPartitions (f_env e) w) (\<lambda>_ w.
                 case FindPartition ''kernel'' (kn_partitions (si_kernel (w_inf w))) of
                   None \<Rightarrow> Some (Inr (False, w))
                 | Some p \<Rightarrow>
                     thenA (doA (shells e
                       [''mtd_debug erase /dev/mtd'' @ show_dec (unat (p_mtd_id p)) @ '' 0 0x'' @
                          hex_low (unat (area_Length (p_area p))),
                        ''nandwrite -p /dev/mtd'' @ show_dec (unat (p_mtd_id p)) @ '' '' @ kPath]) w)
                       (\<lambda>_. UploadKernelModulesAndInstall e tftpd))) w))"

definition uboot_conf_write :: string where
  "uboot_conf_write = ''uboot_conf --of=/dev/mtd1 --if=/tmp/uboot.conf --do=w''"

definition UploadAndInstallUBoot :: "LEnv \<Rightarrow> Network \<Rightarrow> Loader \<Rightarrow> Loader attempt" where
  "UploadAndInstallUBoot e tftpd w =
     (if no_ip tftpd then Some (Inr (False, w))
      else (let kPath = ''/tmp/'' @ kUBootImg @ ''.bin'' in
            orfail (DownloadFromTFtp e tftpd (kUBootImg @ ''.bin'') kPath)
              (\<lambda>w. thenA (UpdateListOfPartitions (f_env e) w) (\<lambda>_ w.
                 case FindPartition ''bootloader'' (kn_partitions (si_kernel (w_inf w))) of
                   None \<Rightarrow> Some (Inr (False, w))
                 | Some p \<Rightarrow>
                     doA (shells e
                            [''flashcp -v '' @ kPath @ '' /dev/mtd'' @ show_dec (unat (p_mtd_id p)),
                             ''uboot_conf --if=/dev/mtd1 --of=/tmp/uboot.conf --lcd='' @
                               ss_lcd_model (ld_state w) @ '' --ts='' @ ss_ts_model (ld_state w) @ '' '',
                             uboot_conf_write] @
                          [\<lambda>w. SendToShell (f_env e)
                                 (''date -s '' @ [CHR 0x27] @ GetTime (f_clock e (ld_calls w)) @ [CHR 0x27])
                                 False (w\<lparr>ld_calls := ld_calls w + 1\<rparr>)] @
                          shells e [''hwclock -w -f /dev/rtc0'']) w)) w))"

section \<open>Packets\<close>

definition UploadAndInstallPacket :: "LEnv \<Rightarrow> Network \<Rightarrow> string \<Rightarrow> Loader \<Rightarrow> Loader attempt" where
  "UploadAndInstallPacket e tftpd ipk_name =
     orfail (DownloadFromTFtp e tftpd ipk_name (''/tmp/'' @ ipk_name))
       (doA (shells e [''ipkg-cl install '' @ ''/tmp/'' @ ipk_name]))"

definition SetupRegigrafLicense :: "LEnv \<Rightarrow> Network \<Rightarrow> string \<Rightarrow> Loader \<Rightarrow> Loader attempt" where
  "SetupRegigrafLicense e tftpd path =
     orfail (DownloadFromTFtp e tftpd kRegigrafLicense (path @ kRegigrafLicense)) (retA True)"

definition UpdateListOfPackets :: "LEnv \<Rightarrow> Loader \<Rightarrow> Loader attempt" where
  "UpdateListOfPackets e =
     doA [setA (\<lambda>w. w\<lparr>w_inf := (w_inf w)\<lparr>si_packets := []\<rparr>\<rparr>),
          SendToShell (f_env e) ''ipkg-cl list_installed'' True]"

definition LoginToRegiboard :: "LEnv \<Rightarrow> Loader \<Rightarrow> Loader attempt" where
  "LoginToRegiboard e = doA [setA (SwitchShell kRegigrafPrompt), SendToShell (f_env e) ''root'' False]"

definition UploadAndInstallRegigraf :: "LEnv \<Rightarrow> Network \<Rightarrow> Loader \<Rightarrow> Loader attempt" where
  "UploadAndInstallRegigraf e tftpd w =
     thenA (doA (shells e [''mount -t ubifs ubi0:rootfs /mnt'', ''mount --move /sys  /mnt/sys'',
                           ''mount --move /proc /mnt/proc'', ''mount --move /dev  /mnt/dev'',
                           ''mount --move /tmp  /mnt/tmp''] @
                 [setA (SendCmd ''exec switch_root /mnt /sbin/init'')]) w)
       (\<lambda>_. orfail (ParseUntil (f_env e) kRegigrafLogin False)
          (\<lambda>w. thenA (doA ([LoginToRegiboard e] @
                           shells e [''mount -t ubifs ubi1:storage /home''] @
                           [UploadAndInstallPacket e tftpd ''++DFB.ipk'',
                            UploadAndInstallPacket e tftpd ''regirfb.ipk'',
                            UploadAndInstallPacket e tftpd ''regisetup.ipk'',
                            UploadAndInstallPacket e tftpd kRegigrafIpk,
                            UpdateListOfPackets e]) w)
                 (\<lambda>_. SetupRegigrafLicense e tftpd ''/home/regigraf/'')))"

definition UploadAndInstallFirmware :: "LEnv \<Rightarrow> Network \<Rightarrow> Loader \<Rightarrow> Loader attempt" where
  "UploadAndInstallFirmware e tftpd =
     (let kPath = ''/tmp/'' @ kRbfName in
      orfail (DownloadFromTFtp e tftpd kRbfName kPath)
        (doA (shells e [''/home/regigraf/regiunpacker --file '' @ kPath @ '' --exe '' @
                          [CHR 0x27] @ ''ipkg-cl update && ipkg-cl upgrade'' @ [CHR 0x27]] @
              [UpdateListOfPackets e])))"

definition SetupBooting :: "LEnv \<Rightarrow> Loader \<Rightarrow> Loader attempt" where
  "SetupBooting e w =
     thenA (doA (shells e [''rb_fuses_imx53v2_spi_flash.sh''] @ [setA (SendCmd ''reboot'')]) w)
       (\<lambda>_. orfail (ParseUntil (f_env e) kRegigrafLogin False) (retA True))"

section \<open>Registration\<close>

text \<open>A file that cannot be written makes \<open>write_json\<close> throw.\<close>

definition write_json :: "LEnv \<Rightarrow> string \<times> ptree \<Rightarrow> Loader \<Rightarrow> Loader attempt" where
  "write_json e f w =
     (if f_json e (fst f) then Some (Inr (True, w\<lparr>ld_json := ld_json w @ [f]\<rparr>)) else Some (Inl Thrown))"

definition save_board :: "LEnv \<Rightarrow> Loader \<Rightarrow> Loader attempt" where
  "save_board e w =
     write_json e (SaveSysInfoToJson (f_host e) (f_clock e (ld_calls w)) ''./tmp/'' (ld_state w) (w_inf w))
       (w\<lparr>ld_calls := ld_calls w + 1\<rparr>)"

definition save_state :: "LEnv \<Rightarrow> Loader \<Rightarrow> Loader attempt" where
  "save_state e w = (case Save (ld_state w) of None \<Rightarrow> Some (Inr (True, w)) | Some f \<Rightarrow> write_json e f w)"

definition RegisterBoard :: "LEnv \<Rightarrow> string \<Rightarrow> Loader \<Rightarrow> Loader attempt" where
  "RegisterBoard e pswd w =
     thenA (doA ([LoginToRegiboard e] @
                 shells e [''uboot_conf --if=/dev/mtd1 --of=/tmp/uboot.conf --board='' @
                             GetDeviceId (ld_state w), uboot_conf_write] @
                 [setA (SendCmd ''passwd root'')]) w)
       (\<lambda>_. orfail (ParseUntil (f_env e) ''New password:'' False)
          (\<lambda>w. orfail (ParseUntil (f_env e) ''Retype password:'' False)
             (doA (shells e [pswd] @
                   [save_board e, setA (\<lambda>w. w\<lparr>ld_state := next_board (ld_state w)\<rparr>), save_state e]))
             (SendCmd pswd w)))"

section \<open>Debugging and testing\<close>

definition UploadKernelAndDebug :: "LEnv \<Rightarrow> Network \<Rightarrow> string \<Rightarrow> Loader \<Rightarrow> Loader attempt" where
  "UploadKernelAndDebug e tftpd uboot_pswd =
     orfail (WaitForWelcomeFromUBoot e uboot_pswd)
       (\<lambda>w. thenA (SendToUBoot (f_env e)
                     (''setenv dyndbg '' @ [CHR 0x27] @ ''file i2c-imx.c +p'' @ [CHR 0x27]) False w)
              (\<lambda>_. orfail (UploadKernelOverEth e uboot_pswd) (UploadKernelModulesAndInstall e tftpd)))"

definition TestHardware :: "Loader \<Rightarrow> Loader attempt" where
  "TestHardware = retA True"

section \<open>Waits leave the rest alone\<close>

text \<open>Nothing but the console changes, and what is known of the board stays.\<close>

definition beside :: "Loader \<Rightarrow> Loader \<Rightarrow> bool" where
  "beside w t \<longleftrightarrow> Console.more t = Console.more w \<and> w_inf t = w_inf w"

interpretation beside: transition beside
  by unfold_locales (simp_all add: beside_def)

lemma beside_simps:
  "beside w t \<Longrightarrow> ld_state t = ld_state w \<and> ld_json t = ld_json w \<and> ld_calls t = ld_calls w \<and>
     ld_srv t = ld_srv w \<and> ld_tftp t = ld_tftp w \<and> w_inf t = w_inf w"
  by (cases w; cases t) (simp add: beside_def)

named_theorems keeps_beside "statements that leave everything beside the console alone"

lemma ParseUntil_beside [keeps_beside]: "keepsA beside (ParseUntil e p False)"
  by (auto simp: keepsA_def beside_def waited_def dest!: ParseUntil_frame only_console_simps)

lemma SendCmd_beside [keeps_beside]: "keepsA beside (setA (SendCmd c))"
  by (rule beside.keeps_setA) (simp add: beside_def SendCmd_def)

lemma SwitchShell_beside [keeps_beside]: "keepsA beside (setA (SwitchShell p))"
  by (rule beside.keeps_setA) (simp add: beside_def SwitchShell_def)

lemma SendToShell_beside [keeps_beside]: "keepsA beside (SendToShell e c False)"
  by (auto simp: keepsA_def SendToShell_def beside_def SendCmd_def waited_def
      dest!: ParseUntil_frame only_console_simps split: if_splits)

lemma shells_beside [keeps_beside]: "list_all (keepsA beside) (shells e cs)"
  by (simp add: shells_def list_all_iff keeps_beside)

lemma Login_beside [keeps_beside]: "keepsA beside (LoginToRegiboard e)"
  unfolding LoginToRegiboard_def by (rule beside.keeps_doA) (simp add: keeps_beside del: setA_simp)

section \<open>What a registration records\<close>

lemma doA_append: "doA (fs @ gs) w = thenA (doA fs w) (\<lambda>_. doA gs)"
  by (induction fs arbitrary: w) (auto simp: thenA_def split: option.splits sum.splits)

lemma thenA_Some: "thenA r k = Some (Inr (ok, t)) \<longleftrightarrow>
    (\<exists>b u. r = Some (Inr (b, u)) \<and> k b u = Some (Inr (ok, t)))"
  by (auto simp: thenA_def split: option.splits sum.splits)

lemma orfail_Some: "orfail f g w = Some (Inr (ok, t)) \<longleftrightarrow>
    (\<exists>u. f w = Some (Inr (True, u)) \<and> g u = Some (Inr (ok, t))) \<or>
    f w = Some (Inr (False, t)) \<and> \<not> ok"
  by (auto simp: orfail_def thenA_Some split: if_splits)

definition board_record :: "LEnv \<Rightarrow> Loader \<Rightarrow> (string \<times> ptree) list" where
  "board_record e w =
     [SaveSysInfoToJson (f_host e) (f_clock e (ld_calls w)) ''./tmp/'' (ld_state w) (w_inf w)] @
     (case Save (next_board (ld_state w)) of None \<Rightarrow> [] | Some f \<Rightarrow> [f])"

lemma registration_end:
  assumes "doA (shells e [pswd] @ [save_board e, setA (\<lambda>w. w\<lparr>ld_state := next_board (ld_state w)\<rparr>), save_state e]) w
    = Some (Inr (ok, t))"
  shows "ok \<and> ld_state t = next_board (ld_state w) \<and> ld_json t = ld_json w @ board_record e w"
proof -
  obtain u where u: "doA (shells e [pswd]) w = Some (Inr (True, u))"
    "doA [save_board e, setA (\<lambda>w. w\<lparr>ld_state := next_board (ld_state w)\<rparr>), save_state e] u = Some (Inr (ok, t))"
    using assms by (auto simp: doA_append thenA_Some shells_def)
  have b: "ld_state u = ld_state w \<and> ld_json u = ld_json w \<and> ld_calls u = ld_calls w \<and> w_inf u = w_inf w"
    using beside_simps [OF keepsA_D [OF beside.keeps_doA [OF shells_beside] u(1)]] by simp
  let ?f = "SaveSysInfoToJson (f_host e) (f_clock e (ld_calls w)) ''./tmp/'' (ld_state w) (w_inf w)"
  define v where "v = u\<lparr>ld_calls := ld_calls u + 1, ld_json := ld_json u @ [?f]\<rparr>"
  define x where "x = v\<lparr>ld_state := next_board (ld_state v)\<rparr>"
  obtain c y where "save_board e u = Some (Inr (c, y))"
    "doA [setA (\<lambda>w. w\<lparr>ld_state := next_board (ld_state w)\<rparr>), save_state e] y = Some (Inr (ok, t))"
    using u(2) by (auto simp: thenA_Some)
  moreover from this(1) b have "y = v"
    by (auto simp: save_board_def write_json_def v_def split: if_splits)
  ultimately obtain d where s: "save_state e x = Some (Inr (d, t))" "ok"
    by (auto simp: thenA_Some x_def)
  have x: "ld_state x = next_board (ld_state w)" "ld_json x = ld_json w @ [?f]"
    using b by (simp_all add: x_def v_def)
  from s x show ?thesis
    by (cases "Save (next_board (ld_state w))")
      (auto simp: save_state_def write_json_def board_record_def split: if_splits)
qed

lemma RegisterBoard_result:
  assumes "RegisterBoard e pswd w = Some (Inr (ok, t))"
  shows "if ok then ld_state t = next_board (ld_state w) \<and> ld_json t = ld_json w @ board_record e w
    else ld_state t = ld_state w \<and> ld_json t = ld_json w"
proof -
  let ?start = "[LoginToRegiboard e] @
     shells e [''uboot_conf --if=/dev/mtd1 --of=/tmp/uboot.conf --board='' @ GetDeviceId (ld_state w),
               uboot_conf_write] @ [setA (SendCmd ''passwd root'')]"
  let ?finish = "shells e [pswd] @
     [save_board e, setA (\<lambda>w. w\<lparr>ld_state := next_board (ld_state w)\<rparr>), save_state e]"
  obtain b u where u: "doA ?start w = Some (Inr (b, u))" and
    r: "orfail (ParseUntil (f_env e) ''New password:'' False)
          (\<lambda>w. orfail (ParseUntil (f_env e) ''Retype password:'' False) (doA ?finish) (SendCmd pswd w)) u
        = Some (Inr (ok, t))"
    using assms unfolding RegisterBoard_def thenA_Some by blast
  have "list_all (keepsA beside) ?start" by (simp add: keeps_beside del: setA_simp)
  from keepsA_D [OF beside.keeps_doA [OF this] u] have bu: "beside w u" .
  from r consider
      v where "ParseUntil (f_env e) ''New password:'' False u = Some (Inr (True, v))"
        "orfail (ParseUntil (f_env e) ''Retype password:'' False) (doA ?finish) (SendCmd pswd v) = Some (Inr (ok, t))"
    | "ParseUntil (f_env e) ''New password:'' False u = Some (Inr (False, t))" "\<not> ok"
    unfolding orfail_Some [where f = "ParseUntil (f_env e) ''New password:'' False"] by blast
  then show ?thesis
  proof cases
    case (1 v)
    have bv: "beside w (SendCmd pswd v)"
      using beside.R_trans [OF bu keepsA_D [OF ParseUntil_beside 1(1)]] by (simp add: beside_def SendCmd_def)
    from 1(2) consider
        x where "ParseUntil (f_env e) ''Retype password:'' False (SendCmd pswd v) = Some (Inr (True, x))"
          "doA ?finish x = Some (Inr (ok, t))"
      | "ParseUntil (f_env e) ''Retype password:'' False (SendCmd pswd v) = Some (Inr (False, t))" "\<not> ok"
      unfolding orfail_Some by blast
    then show ?thesis
    proof cases
      case (1 x)
      from beside_simps [OF beside.R_trans [OF bv keepsA_D [OF ParseUntil_beside 1(1)]]]
        registration_end [OF 1(2)]
      show ?thesis by (simp add: board_record_def)
    next
      case 2
      from beside_simps [OF beside.R_trans [OF bv keepsA_D [OF ParseUntil_beside 2(1)]]] 2(2)
      show ?thesis by simp
    qed
  next
    case 2
    from beside_simps [OF beside.R_trans [OF bu keepsA_D [OF ParseUntil_beside 2(1)]]] 2(2)
    show ?thesis by simp
  qed
qed

text \<open>C21: a registration that succeeds writes the file of the board under the number the board
  got, with what is known of it, moves the numbering on by one, and saves it where it was read
  from; one that fails writes nothing and keeps the number for the next board.\<close>

theorem RegisterBoard_counts:
  assumes "RegisterBoard e pswd w = Some (Inr (ok, t))"
  shows "if ok then ld_state t = next_board (ld_state w) \<and> ld_json t = ld_json w @ board_record e w
    else ld_state t = ld_state w \<and> ld_json t = ld_json w"
  using assms by (rule RegisterBoard_result)

text \<open>A board on which every wait ends at the first character.\<close>

definition any_env :: LEnv where
  "any_env = (plain_env Map.empty)\<lparr>f_env := \<lparr>e_rx = \<lambda>_ str. Some [str], e_mtd = 0, e_resp = 0\<rparr>\<rparr>"

lemma any_wait:
  assumes "w_reads w = arriving [65] @ es"
  shows "ParseUntil (f_env any_env) p False w = Some (Inr (True, w\<lparr>w_reads := es\<rparr>))"
proof -
  have d: "delivers 10 [65] (w_reads w) = Some es"
    unfolding assms by (rule delivers_arriving) simp
  have "scan (prompt_hit (f_env any_env) p) '''' 0 [65] = ([], True, [])"
    by (simp add: prompt_hit_def any_env_def)
  from ParseUntil_match [OF d this fill_lines_False] show ?thesis by simp
qed

lemma any_shell:
  assumes "w_reads w = arriving [65] @ es" "\<not> w_timeout_fail w"
  shows "SendToShell (f_env any_env) c False w = Some (Inr (True, (SendCmd c w)\<lparr>w_reads := es\<rparr>))"
  using assms any_wait [of "SendCmd c w" es] by (simp add: SendToShell_def SendCmd_def)

lemma arriving_step: "arriving (b # bs) = arriving [b] @ arriving bs"
  by (simp add: arriving_def)

definition registering :: Loader where
  "registering = (new_Loader (arriving [65, 65, 65, 65, 65, 65]) [] [])
     \<lparr>ld_state := new_SysState\<lparr>ss_file_path := ''regiloader.json''\<rparr>\<rparr>"

lemma some_registration:
  "\<exists>t. RegisterBoard any_env ''pw'' registering = Some (Inr (True, t)) \<and> ld_keys t = []"
proof -
  have f: "w_reads registering = arriving [65] @ arriving [65] @ arriving [65] @ arriving [65] @ arriving [65] @ arriving [65]"
    "\<not> w_timeout_fail registering" "ld_keys registering = []"
    by (simp_all add: registering_def new_Loader_def new_Console_def Console.defs arriving_def)
  have j: "f_json any_env p" for p by (simp add: any_env_def plain_env_def)
  show ?thesis
    using f
    by (simp add: RegisterBoard_def LoginToRegiboard_def shells_def orfail_def any_shell any_wait
        SendCmd_def SwitchShell_def save_board_def save_state_def write_json_def j split: option.split)
qed

theorem RegisterBoard_counts_witness:
  "\<exists>t. RegisterBoard any_env ''pw'' registering = Some (Inr (True, t)) \<and>
     ld_state t = next_board (ld_state registering) \<and>
     ld_json t = ld_json registering @ board_record any_env registering"
proof -
  obtain t where "RegisterBoard any_env ''pw'' registering = Some (Inr (True, t))"
    using some_registration by blast
  from RegisterBoard_counts [OF this] this show ?thesis by auto
qed

section \<open>Making a volume ends\<close>

lemma mkvol_loop_total: "mkvol_loop e i name r w \<noteq> None"
proof (induction "length (w_reads w)" arbitrary: r w rule: less_induct)
  case less
  show ?case
  proof (cases "kVolSize (part_length name w) r")
    case (Inr sz)
    let ?w = "set_mk_part_fail False w"
    have w: "w_reads ?w = w_reads w" "\<not> si_mk_part_fail (w_inf ?w)"
      by (simp_all add: set_mk_part_fail_def)
    show ?thesis
    proof (cases "SendToShell (f_env e) (ubimkvol i name sz) True ?w")
      case None
      then show ?thesis using SendTo_total by blast
    next
      case (Some x)
      have t: "length (w_reads t) < length (w_reads w)"
        if "x = Inr (ok, t)" "si_mk_part_fail (w_inf t)" for ok t
        using Some that w
        by (auto simp: SendToShell_def waited_def SendCmd_def dest!: ParseUntil_frame split: if_splits)
      show ?thesis
      proof (cases x)
        case x: (Inr p)
        then show ?thesis using Inr Some less t
          by (subst mkvol_loop.simps) (cases p; simp)
      qed (use Inr Some in \<open>simp add: mkvol_loop.simps [of e i name r w]\<close>)
    qed
  qed (simp add: mkvol_loop.simps [of e i name r w])
qed

lemma thenA_total: "r \<noteq> None \<Longrightarrow> (\<And>b t. k b t \<noteq> None) \<Longrightarrow> thenA r k \<noteq> None"
  by (auto simp: thenA_def simp del: not_None_eq split: option.split sum.split)

lemma doA_total: "(\<And>f v. f \<in> set fs \<Longrightarrow> f v \<noteq> None) \<Longrightarrow> doA fs w \<noteq> None"
proof (induction fs arbitrary: w)
  case (Cons f fs)
  then show ?case unfolding doA.simps by (intro thenA_total) auto
qed simp


end
