(* ===== verification/Loader_Recipe.thy ===== *)
theory Loader_Recipe
  imports Loader_Install
begin

text \<open>
  The program itself (regiloader/regiloader.cpp from line 1199 on): its arguments, the recipe,
  the actions, the files that are published, and one board after the other.

  \<open>REnv\<close> adds what the operating system contributes: whether the device can be opened and
  set up (\<open>r_port\<close>), the entries of a directory (\<open>r_dir\<close>, by name, in the order they are
  found; \<open>None\<close> if it is no directory), whether the file of the licence can be written
  (\<open>r_tmp\<close>), and the flag that the constructor of \<open>SysInfo\<close> does not set.  The arguments are
  parsed by a library: \<open>Args\<close> is what it found.
\<close>

record REnv =
  r_env :: LEnv
  r_port :: "nat \<Rightarrow> bool"
  r_dir :: "string \<Rightarrow> string list option"
  r_tmp :: bool
  r_junk :: "nat \<Rightarrow> bool"

section \<open>Arguments\<close>

record Settings =
  st_tty_dev :: string
  st_imx_img :: string
  st_kernel_img :: string
  st_kernel_mods :: string
  st_rootfs_img :: string
  st_mtd_utils :: string
  st_acts :: string
  st_packets :: string
  st_config :: string
  st_rbf :: string
  st_uboot_pswd :: string
  st_use_tftp :: Network

record Args =
  vm_help :: bool
  vm_verbose :: bool
  vm_given :: "string \<Rightarrow> string option"

definition default_values :: "(string \<times> string) list" where
  "default_values =
     [(''tty'', ''/dev/'' @ kTtyDev), (''img'', kUBootImg), (''kernel'', kKernelImg),
      (''kernel_mods'', kKernelMods), (''rootfs'', kRootFsImg), (''utils'', kMtdUtils),
      (''acts'', ''uboot''), (''packets'', kIpkPath), (''tftp'', ''0.0.0.0''), (''conf'', ''./''),
      (''rbf'', kRbfName), (''uboot_pswd'', '''')]"

definition vm :: "Args \<Rightarrow> string \<Rightarrow> string" where
  "vm a name =
     (case vm_given a name of
        Some v \<Rightarrow> v
      | None \<Rightarrow> (case map_of default_values name of Some v \<Rightarrow> v | None \<Rightarrow> ''''))"

text \<open>\<open>find_first_of\<close>; without the character the position is \<open>npos\<close>, and \<open>npos + 1\<close> is 0.\<close>

definition find_first_of :: "char \<Rightarrow> string \<Rightarrow> nat option" where
  "find_first_of c s =
     (let n = length (takeWhile (\<lambda>x. x \<noteq> c) s) in if n < length s then Some n else None)"

definition tftp_ip :: "string \<Rightarrow> string" where
  "tftp_ip arg = (case find_first_of (CHR ''/'') arg of None \<Rightarrow> arg | Some n \<Rightarrow> take n arg)"

definition tftp_mask :: "string \<Rightarrow> string" where
  "tftp_mask arg = (case find_first_of (CHR ''/'') arg of None \<Rightarrow> drop 0 arg | Some n \<Rightarrow> drop (n + 1) arg)"

text \<open>The result is \<open>None\<close> where only the description is printed.\<close>

definition ParseArgs :: "Args \<Rightarrow> SysState \<Rightarrow> (SysState \<times> Settings) option" where
  "ParseArgs a state =
     (if vm_help a then None
      else Some (state\<lparr>ss_verbose := vm_verbose a\<rparr>,
        \<lparr>st_tty_dev = vm a ''tty'', st_imx_img = vm a ''img'', st_kernel_img = vm a ''kernel'',
         st_kernel_mods = vm a ''kernel_mods'', st_rootfs_img = vm a ''rootfs'',
         st_mtd_utils = vm a ''utils'', st_acts = vm a ''acts'', st_packets = vm a ''packets'',
         st_config = vm a ''conf'', st_rbf = vm a ''rbf'', st_uboot_pswd = vm a ''uboot_pswd'',
         st_use_tftp = \<lparr>nw_ip = tftp_ip (vm a ''tftp''), nw_mask = tftp_mask (vm a ''tftp''),
                        nw_port = show_dec kPort\<rparr>\<rparr>))"

section \<open>The recipe\<close>

text \<open>\<open>find\<close> from a position on, for the arrow.\<close>

fun find_arrow :: "string \<Rightarrow> nat \<Rightarrow> nat option" where
  "find_arrow (a # b # cs) pos =
     (if a = CHR ''-'' \<and> b = CHR ''>'' then Some pos else find_arrow (b # cs) (pos + 1))"
| "find_arrow _ pos = None"

definition find_from :: "string \<Rightarrow> nat \<Rightarrow> nat option" where
  "find_from s pos = find_arrow (drop pos s) pos"

lemma find_arrow_bounds: "find_arrow s pos = Some p \<Longrightarrow> pos \<le> p \<and> p + 2 \<le> pos + length s"
  by (induction s pos rule: find_arrow.induct) (fastforce split: if_splits)+

lemma find_from_bounds: "find_from s pos = Some p \<Longrightarrow> pos \<le> p \<and> p + 2 \<le> length s"
  unfolding find_from_def by (cases "pos \<le> length s") (auto dest: find_arrow_bounds)

function recipe_from :: "string \<Rightarrow> nat \<Rightarrow> string list" where
  "recipe_from acts off =
     (case find_from acts off of
        None \<Rightarrow> [drop off acts]
      | Some found \<Rightarrow> take (found - off) (drop off acts) # recipe_from acts (found + 2))"
  by pat_completeness auto
termination
  by (relation "measure (\<lambda>(s, n). length s - n)") (auto dest!: find_from_bounds)

declare recipe_from.simps [simp del]

definition parse_recipe :: "string \<Rightarrow> string list" where
  "parse_recipe acts = recipe_from acts 0"

datatype RecipeAct =
  kUnknown | kUBoot | kEnterUBoot | kSetupNor | kKernelUart | kKernelEth | kKernelDebug
| kKernelOldSys | kRootFs | kMtdUtils | kInstallKernel | kInstallUBoot | kInstallRegigraf
| kInstallFirmware | kUnpackRootFs | kSetupBooting | kRegisterBoard | kValidateHW | kTestHW

definition actions :: "(string \<times> RecipeAct) list" where
  "actions =
     [(''uboot'', kUBoot), (''enter_uboot'', kEnterUBoot), (''setup_nor'', kSetupNor),
      (''kernel_uart'', kKernelUart), (''kernel_eth'', kKernelEth), (''kernel_old_sys'', kKernelOldSys),
      (''rootfs'', kRootFs), (''mtd_utils'', RecipeAct.kMtdUtils), (''install_kernel'', kInstallKernel),
      (''install_uboot'', kInstallUBoot), (''install_regigraf'', kInstallRegigraf),
      (''install_firmware'', kInstallFirmware), (''unpack_rootfs'', kUnpackRootFs),
      (''setup_booting'', kSetupBooting), (''register'', kRegisterBoard), (''validate_hw'', kValidateHW),
      (''test_hw'', kTestHW), (''kernel_dbg'', kKernelDebug)]"

definition Identify :: "string \<Rightarrow> RecipeAct" where
  "Identify act = (case map_of actions act of Some i \<Rightarrow> i | None \<Rightarrow> kUnknown)"

section \<open>Actions\<close>

text \<open>
  Setting up the port; where that fails, boost throws.  The function ends without \<open>return\<close>, which C++ gives
  no meaning; as compiled, its result is whatever is left in a register, and no caller looks at it.
\<close>

definition InitUart :: "REnv \<Rightarrow> Loader \<Rightarrow> Loader attempt" where
  "InitUart e w =
     (if r_port e (ld_calls w) then Some (Inr (r_junk e (ld_calls w), w\<lparr>ld_open := True, ld_calls := ld_calls w + 1\<rparr>))
      else Some (Inl Thrown))"

partial_function (option) uboot_again :: "LEnv \<Rightarrow> string \<Rightarrow> Loader \<Rightarrow> Loader attempt" where
  "uboot_again e file w =
     (case UploadUBoot e file w of
        None \<Rightarrow> None
      | Some (Inl x) \<Rightarrow> Some (Inl x)
      | Some (Inr (ok, w)) \<Rightarrow> (if ok then Some (Inr (True, w)) else uboot_again e file w))"

definition setup_nor :: "REnv \<Rightarrow> Settings \<Rightarrow> Loader \<Rightarrow> Loader attempt" where
  "setup_nor e cfg w =
     thenA (SetupNor (r_env e) (st_uboot_pswd cfg) w) (\<lambda>ok w.
       if ok then doA [setA (\<lambda>w. w\<lparr>ld_open := False\<rparr>), InitUart e,
                       uboot_again (r_env e) (st_imx_img cfg @ ''.imx'')] w
       else Some (Inr (True, w)))"

text \<open>The cases that end without \<open>break\<close> go on with the next one.\<close>

definition DoAction :: "REnv \<Rightarrow> Settings \<Rightarrow> string \<Rightarrow> Loader \<Rightarrow> Loader attempt" where
  "DoAction e cfg act =
     (let l = r_env e; tftp = st_use_tftp cfg; pswd = st_uboot_pswd cfg;
          has_ip = (0 < length (nw_ip tftp)); has_utils = (0 < length (st_mtd_utils cfg));
          unpack_rootfs = (if 0 < length (st_rootfs_img cfg) then UnpackRootFs l else retA False);
          install_firmware = (if has_ip then UploadAndInstallFirmware l tftp else unpack_rootfs);
          install_regigraf = (if has_ip then UploadAndInstallRegigraf l tftp else install_firmware);
          install_uboot =
            (if has_utils \<and> has_ip then UploadAndInstallUBoot l tftp else install_regigraf);
          install_kernel =
            (if has_utils \<and> has_ip then UploadAndInstallKernel l tftp else install_uboot);
          mtd_utils = (if has_utils \<and> has_ip then UploadAndInstallTools l tftp else install_kernel)
      in case Identify act of
           kUBoot \<Rightarrow> UploadUBoot l (st_imx_img cfg @ ''.imx'')
         | kEnterUBoot \<Rightarrow> WaitForWelcomeFromUBoot l pswd
         | kSetupNor \<Rightarrow> setup_nor e cfg
         | kKernelUart \<Rightarrow>
             (if 0 < length (st_kernel_img cfg) then UploadKernelOverUart l (st_kernel_img cfg) pswd
              else retA False)
         | kKernelEth \<Rightarrow>
             (if 0 < length (st_kernel_img cfg) \<and> has_ip then UploadKernelOverEth l pswd else retA False)
         | kKernelDebug \<Rightarrow> (if has_ip then UploadKernelAndDebug l tftp pswd else retA False)
         | kKernelOldSys \<Rightarrow> UploadKernelWithOldSys l pswd
         | kRootFs \<Rightarrow>
             (if 0 < length (st_rootfs_img cfg) \<and> has_ip then UploadRootFsOverEth l tftp else retA False)
         | RecipeAct.kMtdUtils \<Rightarrow> mtd_utils
         | kInstallKernel \<Rightarrow> install_kernel
         | kInstallUBoot \<Rightarrow> install_uboot
         | kInstallRegigraf \<Rightarrow> install_regigraf
         | kInstallFirmware \<Rightarrow> install_firmware
         | kUnpackRootFs \<Rightarrow> unpack_rootfs
         | kSetupBooting \<Rightarrow> SetupBooting l
         | kRegisterBoard \<Rightarrow> RegisterBoard l pswd
         | kValidateHW \<Rightarrow> (\<lambda>w. Some (Inr (ValidateHardware (w_inf w), w)))
         | kTestHW \<Rightarrow> TestHardware
         | kUnknown \<Rightarrow> retA False)"

section \<open>Published files\<close>

definition path_of :: "string \<Rightarrow> string \<Rightarrow> string" where
  "path_of dir name =
     (if dir \<noteq> '''' \<and> last dir = CHR ''/'' then dir @ name else dir @ ''/'' @ name)"

definition path_extension :: "string \<Rightarrow> string" where
  "path_extension name =
     (if CHR ''.'' \<in> set name then CHR ''.'' # rev (takeWhile (\<lambda>c. c \<noteq> CHR ''.'') (rev name)) else '''')"

definition publish_entry :: "regex \<Rightarrow> string \<Rightarrow> string \<Rightarrow> Server \<Rightarrow> Server" where
  "publish_entry rx dir name srv =
     (if path_extension name \<noteq> ''.ipk'' then srv
      else if fst (Parse rx (without_ext name) ''regigraf(.*)'' 0 None)
        then snd (PublishFile kRegigrafIpk (path_of dir name) srv)
      else snd (PublishFile name (path_of dir name) srv))"

definition PublishDir :: "REnv \<Rightarrow> string \<Rightarrow> Server \<Rightarrow> Server" where
  "PublishDir e dir srv =
     (case r_dir e dir of
        None \<Rightarrow> srv
      | Some names \<Rightarrow> fold (publish_entry (e_rx (f_env (r_env e))) dir) names srv)"

definition license_path :: string where
  "license_path = ''/tmp/regigraf_license.xml''"

definition PublishRegigrafLicense :: "License \<Rightarrow> REnv \<times> Server \<Rightarrow> REnv \<times> Server" where
  "PublishRegigrafLicense l = (\<lambda>(e, srv).
     (if r_tmp e
      then e\<lparr>r_env := (r_env e)\<lparr>f_files := (f_files (r_env e))(license_path \<mapsto> of_string (GenXml l))\<rparr>\<rparr>
      else e,
      snd (PublishFile kRegigrafLicense license_path srv)))"

text \<open>Everything that \<open>main\<close> publishes, in its order.\<close>

definition publish_for_boards :: "Settings \<Rightarrow> REnv \<Rightarrow> REnv \<times> Server" where
  "publish_for_boards cfg e =
     (let publish = (\<lambda>name path srv. snd (PublishFile name path srv));
          srv = fold (\<lambda>(name, path). publish name path)
            [(kUBootImg @ ''.bin'', st_imx_img cfg @ ''.bin''), (kKernelImg, st_kernel_img cfg),
             (kKernelMods, st_kernel_mods cfg), (kRootFsImg, st_rootfs_img cfg),
             (Loader_Data.kMtdUtils, st_mtd_utils cfg), (kRbfName, st_rbf cfg)] new_Server
      in PublishRegigrafLicense new_License (e, PublishDir e (st_packets cfg) srv))"

section \<open>One board after the other\<close>

text \<open>The loop of \<open>ExecuteRecipe\<close>; the result says whether it got to the end.\<close>

fun run_recipe :: "REnv \<Rightarrow> Settings \<Rightarrow> string list \<Rightarrow> Loader \<Rightarrow> Loader attempt" where
  "run_recipe e cfg [] w = Some (Inr (True, w))"
| "run_recipe e cfg (act # acts) w =
     thenA (DoAction e cfg act w) (\<lambda>ok w.
       if \<not> ok \<or> w_timeout_fail w then Some (Inr (False, w)) else run_recipe e cfg acts w)"

text \<open>
  The keys are what the operator types; at the end of the input the answer stays 0.  The first
  \<open>get\<close> takes one character, whatever it is.
\<close>

definition ExecuteRecipe :: "REnv \<Rightarrow> Settings \<Rightarrow> string list \<Rightarrow> Loader \<Rightarrow> Loader attempt" where
  "ExecuteRecipe e cfg recipe w =
     thenA (run_recipe e cfg recipe (w\<lparr>ld_keys := drop 1 (ld_keys w), w_timeout_fail := False\<rparr>))
       (\<lambda>_ w. let answer = (case ld_keys w of [] \<Rightarrow> 0 | k # _ \<Rightarrow> k) in
          Some (Inr (answer = 10 \<or> answer = 0x79 \<or> answer = 0x59, w\<lparr>ld_keys := drop 1 (ld_keys w)\<rparr>)))"

definition next_processor :: "REnv \<Rightarrow> Loader \<Rightarrow> Loader attempt" where
  "next_processor e =
     doA [setA (\<lambda>w. w\<lparr>w_inf := new_SysInfo (r_junk e (ld_calls w)), ld_calls := ld_calls w + 1\<rparr>),
          setA (\<lambda>w. w\<lparr>ld_open := False\<rparr>), InitUart e]"

partial_function (option) main_loop ::
  "REnv \<Rightarrow> Settings \<Rightarrow> string list \<Rightarrow> Loader \<Rightarrow> (stop + Loader) option" where
  "main_loop e cfg recipe w =
     (case ExecuteRecipe e cfg recipe w of
        None \<Rightarrow> None
      | Some (Inl x) \<Rightarrow> Some (Inl x)
      | Some (Inr (again, w)) \<Rightarrow>
          (if \<not> again then Some (Inr (w\<lparr>ld_open := False\<rparr>))
           else (case next_processor e w of
                   None \<Rightarrow> None
                 | Some (Inl x) \<Rightarrow> Some (Inl x)
                 | Some (Inr (_, w)) \<Rightarrow> main_loop e cfg recipe w)))"

definition main ::
  "REnv \<Rightarrow> (string \<Rightarrow> 't option) \<Rightarrow> ('t \<Rightarrow> string \<Rightarrow> u32 option) \<Rightarrow> ('t \<Rightarrow> string \<Rightarrow> string option) \<Rightarrow>
   Args \<Rightarrow> Loader \<Rightarrow> (stop + Loader) option" where
  "main e read_json get_num get_str args w =
     (case ParseArgs args (ld_state w) of
        None \<Rightarrow> Some (Inr w)
      | Some (state, cfg) \<Rightarrow>
          (case LoadFrom read_json get_num get_str (st_config cfg @ ''/'' @ kConfName) state of
             Inl x \<Rightarrow> Some (Inl x)
           | Inr (loaded, state) \<Rightarrow>
               (if \<not> loaded then Some (Inr (w\<lparr>ld_state := state\<rparr>))
                else (let recipe = parse_recipe (st_acts cfg); (e, srv) = publish_for_boards cfg e in
                      if r_port e (ld_calls w)
                      then main_loop e cfg recipe
                             (w\<lparr>ld_state := state, ld_srv := srv, ld_ip := nw_ip (st_use_tftp cfg),
                                ld_open := True, ld_calls := ld_calls w + 1\<rparr>)
                      else Some (Inl Thrown)))))"

section \<open>Recipes and their texts\<close>

fun join_arrow :: "string list \<Rightarrow> string" where
  "join_arrow [] = ''''"
| "join_arrow [a] = a"
| "join_arrow (a # as) = a @ ''->'' @ join_arrow as"

definition no_arrow :: "string \<Rightarrow> bool" where
  "no_arrow a \<longleftrightarrow> find_arrow a 0 = None"

lemma find_arrow_shift: "find_arrow s (pos + k) = map_option (\<lambda>p. p + k) (find_arrow s pos)"
  by (induction s pos rule: find_arrow.induct) (simp_all add: add.commute add.left_commute)

lemma find_arrow_None: "find_arrow s pos = None \<longleftrightarrow> no_arrow s"
  using find_arrow_shift [of s 0 pos] by (simp add: no_arrow_def)

lemma no_arrow_simps [simp]:
  "no_arrow ''''" "no_arrow [x]"
  "no_arrow (x # y # cs) \<longleftrightarrow> \<not> (x = CHR ''-'' \<and> y = CHR ''>'') \<and> no_arrow (y # cs)"
  using find_arrow_None [of "y # cs" 1] by (simp_all add: no_arrow_def)

lemma find_arrow_first: "no_arrow a \<Longrightarrow> find_arrow (a @ ''->'' @ s) pos = Some (pos + length a)"
proof (induction a pos rule: find_arrow.induct)
  case (1 x y cs pos)
  then have "\<not> (x = CHR ''-'' \<and> y = CHR ''>'')" "no_arrow (y # cs)"
    by auto
  with 1 show ?case by simp
qed simp_all

lemma find_arrow_Some:
  "find_arrow s pos = Some p \<Longrightarrow>
   \<exists>a b. s = a @ ''->'' @ b \<and> p = pos + length a \<and> no_arrow a"
proof (induction s pos arbitrary: p rule: find_arrow.induct)
  case (1 x y cs pos)
  show ?case
  proof (cases "x = CHR ''-'' \<and> y = CHR ''>''")
    case True
    then show ?thesis using 1(2) by (intro exI [of _ "[]"] exI [of _ cs]) simp
  next
    case False
    then have "find_arrow (y # cs) (pos + 1) = Some p" using 1(2) by (simp split: if_splits)
    from 1(1) [OF False this] obtain a b
      where ab: "y # cs = a @ ''->'' @ b" "p = pos + 1 + length a" "no_arrow a" by blast
    have "no_arrow (x # a)"
    proof (cases a)
      case (Cons z zs)
      then have "z = y" using ab(1) by simp
      then show ?thesis using Cons False ab(3) by simp
    qed simp
    with ab show ?thesis by (intro exI [of _ "x # a"] exI [of _ b]) simp
  qed
qed simp_all

lemma recipe_from_step:
  "recipe_from (pre @ a @ ''->'' @ s) (length pre) = a # recipe_from (pre @ a @ ''->'' @ s) (length (pre @ a @ ''->''))"
  if "no_arrow a"
  by (subst recipe_from.simps) (simp add: find_from_def find_arrow_first [OF that, simplified])

lemma recipe_from_end: "no_arrow a \<Longrightarrow> recipe_from (pre @ a) (length pre) = [a]"
  using find_arrow_None [of a "length pre"]
  by (subst recipe_from.simps) (simp add: find_from_def)

lemma recipe_from_join:
  "as \<noteq> [] \<Longrightarrow> list_all no_arrow as \<Longrightarrow> recipe_from (pre @ join_arrow as) (length pre) = as"
proof (induction as arbitrary: pre rule: join_arrow.induct)
  case (3 a b as)
  then show ?case
    using recipe_from_step [of a pre "join_arrow (b # as)"] 3(1) [of "pre @ a @ ''->''"] by simp
qed (simp_all add: recipe_from_end)

lemma recipe_from_parts:
  "join_arrow (recipe_from acts off) = drop off acts \<and> list_all no_arrow (recipe_from acts off) \<and>
   recipe_from acts off \<noteq> []"
proof (induction acts off rule: recipe_from.induct)
  case (1 acts off)
  show ?case
  proof (cases "find_from acts off")
    case None
    then show ?thesis
      by (simp add: recipe_from.simps [of acts off]) (simp add: find_from_def find_arrow_None)
  next
    case (Some p)
    then obtain a b where ab: "drop off acts = a @ ''->'' @ b" "p = off + length a" "no_arrow a"
      by (auto simp: find_from_def dest: find_arrow_Some)
    have "drop (p + 2) acts = drop (2 + length a) (drop off acts)" by (simp add: ab(2) add.commute add.left_commute)
    then have b: "drop (p + 2) acts = b" unfolding ab(1) by simp
    obtain c cs where "recipe_from acts (p + 2) = c # cs"
      using 1 [OF Some] by (cases "recipe_from acts (p + 2)") auto
    with 1 [OF Some] Some ab b show ?thesis by (simp add: recipe_from.simps [of acts off])
  qed
qed

text \<open>C26: the text of a recipe and its actions determine each other: the actions joined by
  arrows give the text back, and actions that do not contain an arrow are read as they were
  joined.\<close>

theorem recipe_roundtrip:
  assumes "as \<noteq> []" "list_all no_arrow as"
  shows "parse_recipe (join_arrow as) = as \<and>
    join_arrow (parse_recipe acts) = acts \<and> list_all no_arrow (parse_recipe acts)"
  using recipe_from_join [OF assms, of "[]"] recipe_from_parts [of acts 0]
  by (simp_all add: parse_recipe_def)

theorem recipe_roundtrip_witness:
  "parse_recipe (join_arrow [''uboot'', ''setup-nor-'', '''', ''>register'']) =
     [''uboot'', ''setup-nor-'', '''', ''>register'']"
  by (rule recipe_roundtrip [THEN conjunct1]) simp_all

section \<open>What is published\<close>

definition ipk_entries :: "REnv \<Rightarrow> string \<Rightarrow> string list \<Rightarrow> (string \<times> string) list" where
  "ipk_entries e dir names =
     map (\<lambda>n. (if fst (Parse (e_rx (f_env (r_env e))) (without_ext n) ''regigraf(.*)'' 0 None)
              then kRegigrafIpk else n, path_of dir n))
       (filter (\<lambda>n. path_extension n = ''.ipk'') names)"

lemma PublishFile_pub:
  "name \<noteq> '''' \<Longrightarrow> path \<noteq> '''' \<Longrightarrow>
   pub_files (snd (PublishFile name path srv)) = [name \<mapsto> path] ++ pub_files srv"
  by (auto simp: PublishFile_def map_add_def fun_eq_iff split: option.splits)

lemma path_of_not_Nil: "n \<noteq> '''' \<Longrightarrow> path_of dir n \<noteq> ''''"
  by (simp add: path_of_def)

lemma publish_entry_pub:
  "pub_files (publish_entry (e_rx (f_env (r_env e))) dir n srv) = map_of (ipk_entries e dir [n]) ++ pub_files srv"
proof (cases "path_extension n = ''.ipk''")
  case True
  then have "n \<noteq> ''''" by (auto simp: path_extension_def)
  moreover have "kRegigrafIpk \<noteq> ''''" by (simp add: kRegigrafIpk_def)
  ultimately show ?thesis
    using True by (simp add: publish_entry_def ipk_entries_def PublishFile_pub path_of_not_Nil)
qed (simp add: publish_entry_def ipk_entries_def)

lemma publish_entries_pub:
  "pub_files (fold (publish_entry (e_rx (f_env (r_env e))) dir) names srv) =
     map_of (ipk_entries e dir names) ++ pub_files srv"
proof (induction names arbitrary: srv)
  case (Cons n names)
  have "map_of (ipk_entries e dir (n # names)) =
      map_of (ipk_entries e dir names) ++ map_of (ipk_entries e dir [n])"
    by (simp add: ipk_entries_def map_add_def fun_eq_iff)
  with Cons publish_entry_pub [of e dir n srv] show ?case by simp
qed (simp add: ipk_entries_def)

text \<open>A directory publishes exactly its packets under their names, those of regigraf under
  the one name they share; of several packets of one name the first entry counts, and nothing
  replaces what was published before.\<close>

theorem PublishDir_first_wins:
  "pub_files (PublishDir e dir srv) =
     map_of (case r_dir e dir of None \<Rightarrow> [] | Some names \<Rightarrow> ipk_entries e dir names) ++ pub_files srv"
  by (simp add: PublishDir_def publish_entries_pub split: option.split)

section \<open>The numbering over a whole session\<close>

definition board_files :: "SysState \<Rightarrow> string list" where
  "board_files s = board_file ''./tmp/'' s # (if ss_file_path s = '''' then [] else [ss_file_path s])"

text \<open>The files of boards one after the other.\<close>

fun session_files :: "nat \<Rightarrow> SysState \<Rightarrow> string list" where
  "session_files 0 s = []"
| "session_files (Suc k) s = board_files s @ session_files k (next_board s)"

lemma session_files_add:
  "session_files (k + l) s = session_files k s @ session_files l ((next_board ^^ k) s)"
  by (induction k arbitrary: s) (simp_all add: funpow_Suc_right del: funpow.simps(2))

text \<open>Some boards got their numbers and their files, and nothing else.\<close>

definition registered :: "Loader \<Rightarrow> Loader \<Rightarrow> bool" where
  "registered w t \<longleftrightarrow> (\<exists>k. ld_state t = (next_board ^^ k) (ld_state w) \<and>
     map fst (ld_json t) = map fst (ld_json w) @ session_files k (ld_state w))"

lemma registered_same: "ld_state t = ld_state w \<Longrightarrow> ld_json t = ld_json w \<Longrightarrow> registered w t"
  unfolding registered_def by (rule exI [of _ 0]) simp

lemma registered_trans:
  assumes "registered u v" "registered v w"
  shows "registered u w"
proof -
  obtain k where k: "ld_state v = (next_board ^^ k) (ld_state u)"
    "map fst (ld_json v) = map fst (ld_json u) @ session_files k (ld_state u)"
    using assms(1) unfolding registered_def by blast
  obtain l where l: "ld_state w = (next_board ^^ l) (ld_state v)"
    "map fst (ld_json w) = map fst (ld_json v) @ session_files l (ld_state v)"
    using assms(2) unfolding registered_def by blast
  have "ld_state w = (next_board ^^ (k + l)) (ld_state u)"
    unfolding l(1) k(1) by (metis add.commute comp_apply funpow_add)
  then show ?thesis
    unfolding registered_def using k l(2) by (intro exI [of _ "k + l"]) (simp add: session_files_add)
qed

interpretation number: transition registered
  by unfold_locales (auto intro: registered_same registered_trans)

section \<open>Every action registers boards or none\<close>

text \<open>The change that a result stands for, from a given state on.\<close>

definition postA :: "('w \<Rightarrow> 'w \<Rightarrow> bool) \<Rightarrow> 'w \<Rightarrow> 'w attempt \<Rightarrow> bool" where
  "postA R w r \<longleftrightarrow> (\<forall>ok t. r = Some (Inr (ok, t)) \<longrightarrow> R w t)"

lemma postA_keepsA: "keepsA R f \<longleftrightarrow> (\<forall>w. postA R w (f w))"
  by (simp add: keepsA_def postA_def)

lemma postA_simps [simp]:
  "postA R w None" "postA R w (Some (Inl x))" "postA R w (Some (Inr (b, t))) \<longleftrightarrow> R w t"
  by (simp_all add: postA_def)

context transition
begin

lemma post_from: "R w v \<Longrightarrow> postA R v r \<Longrightarrow> postA R w r"
  by (auto simp: postA_def intro: R_trans)

lemma post_thenA: "postA R w r \<Longrightarrow> (\<And>b t. postA R t (k b t)) \<Longrightarrow> postA R w (thenA r k)"
  by (auto simp: postA_def thenA_Some intro: R_trans)

lemma post_orfail: "R w v \<Longrightarrow> postA R v (f v) \<Longrightarrow> (\<And>t. postA R t (g t)) \<Longrightarrow> postA R w (orfail f g v)"
  by (fastforce simp: postA_def orfail_Some intro: R_trans)

lemma post_doA: "R w v \<Longrightarrow> (\<And>f t. f \<in> set fs \<Longrightarrow> postA R t (f t)) \<Longrightarrow> postA R w (doA fs v)"
proof (induction fs arbitrary: w v)
  case (Cons f fs)
  have "postA R w (thenA (f v) (\<lambda>_. doA fs))"
    using Cons by (intro post_thenA) (auto intro: post_from R_refl)
  then show ?case by simp
qed simp

end

named_theorems keeps_number "statements that register no board"

lemmas post_number = number.post_thenA number.post_orfail number.post_doA

lemmas keep = number.post_from

lemmas whole [simp del] = doA.simps setA_simp thenA_simps

declare registered_same [simp]

lemma SendCmd_ld [simp]: "ld_state (SendCmd c w) = ld_state w" "ld_json (SendCmd c w) = ld_json w"
  by (simp_all add: SendCmd_def)

lemma registered_more: "Console.more t = Console.more w \<Longrightarrow> registered w t"
  by (rule registered_same) (cases w; cases t; simp)+

lemma ParseUntil_number [keeps_number]: "registered w v \<Longrightarrow> postA registered w (ParseUntil e p out v)"
  by (erule keep)
    (auto simp: postA_def waited_def dest!: ParseUntil_frame intro!: registered_more dest: only_console_simps)

lemma SendTo_number [keeps_number]:
  "registered w v \<Longrightarrow> postA registered w (SendToUBoot e c out v)"
  "registered w v \<Longrightarrow> postA registered w (SendToShell e c out v)"
  unfolding SendToUBoot_def SendToShell_def by (erule keep, simp add: keeps_number)+

lemma SkipLines_number [keeps_number]: "registered w v \<Longrightarrow> postA registered w (SkipLines k v)"
  by (erule keep) (auto simp: postA_def SkipLines_def intro!: registered_more split: option.splits sum.splits)

lemma setA_number [keeps_number]:
  "registered w v \<Longrightarrow> registered v (f v) \<Longrightarrow> postA registered w (setA f v)"
  by (erule keep) (simp add: setA_def)

lemma retA_number [keeps_number]: "registered w v \<Longrightarrow> postA registered w (retA b v)"
  by simp

lemma sdp_result_number: "postA registered v (sdp_result r v)"
  by (auto simp: postA_def sdp_result_def split: option.splits sum.splits)

lemma pkt_number [keeps_number]:
  "registered w v \<Longrightarrow> postA registered w (pkt_Send e k v)"
  "registered w v \<Longrightarrow> postA registered w (pkt_Send_tries e n k v)"
  unfolding pkt_Send_def pkt_Send_tries_def Let_def by (erule keep, rule sdp_result_number)+

lemma srv_Run_number [keeps_number]: "registered w v \<Longrightarrow> postA registered w (srv_Run e v)"
  by (erule keep) (auto simp: postA_def srv_Run_def Let_def split: option.splits sum.splits)

lemma modem_number [keeps_number]: "registered w v \<Longrightarrow> postA registered w (modem_SendFile e path v)"
  by (erule keep) (auto simp: postA_def modem_SendFile_def split: sum.splits)

lemma UpdateListOfPartitions_number [keeps_number]:
  "registered w v \<Longrightarrow> postA registered w (UpdateListOfPartitions e v)"
  unfolding UpdateListOfPartitions_def by (erule keep) (auto simp: keeps_number intro!: post_number)

lemma UploadDCD_number [keeps_number]: "registered w v \<Longrightarrow> postA registered w (UploadDCD e firm v)"
  unfolding UploadDCD_def dcd_pair_def by (erule keep) (auto simp: keeps_number intro!: post_number)

lemma UploadUBoot_number [keeps_number]: "registered w v \<Longrightarrow> postA registered w (UploadUBoot e file v)"
  unfolding UploadUBoot_def
  by (erule keep) (auto simp: keeps_number intro!: post_number split: option.split sum.split)

lemma shells_number: "f \<in> set (shells e cs) \<Longrightarrow> registered w v \<Longrightarrow> postA registered w (f v)"
  by (auto simp: shells_def keeps_number)

lemma Wait_number [keeps_number]:
  "registered w v \<Longrightarrow> postA registered w (WaitForWelcomeFromUBoot e pswd v)"
  unfolding WaitForWelcomeFromUBoot_def save_if_waiting_def Let_def
  by (erule keep) (auto simp: keeps_number intro!: post_number)

lemma SetupNor_number [keeps_number]: "registered w v \<Longrightarrow> postA registered w (SetupNor e pswd v)"
  unfolding SetupNor_def by (erule keep) (auto simp: keeps_number intro!: post_number)

lemma KernelBegin_number [keeps_number]:
  "registered w v \<Longrightarrow> postA registered w (UploadKernelBegin e pswd v)"
  unfolding UploadKernelBegin_def clear_kernel_def
  by (erule keep) (auto simp: keeps_number intro!: post_number split: if_splits)

lemma KernelEnd_number [keeps_number]: "registered w v \<Longrightarrow> postA registered w (UploadKernelEnd e v)"
  unfolding UploadKernelEnd_def by (erule keep) (auto simp: keeps_number intro!: post_number)

lemma KernelOverUart_number [keeps_number]:
  "registered w v \<Longrightarrow> postA registered w (UploadKernelOverUart e file pswd v)"
  unfolding UploadKernelOverUart_def by (erule keep) (auto simp: keeps_number intro!: post_number)

lemma eth_turn_number [keeps_number]: "registered w v \<Longrightarrow> postA registered w (eth_turn e v)"
  unfolding eth_turn_def set_upload_fail_def
  by (erule keep) (auto simp: keeps_number intro!: post_number)


lemma KernelOverEth_number [keeps_number]:
  "registered w v \<Longrightarrow> postA registered w (UploadKernelOverEth e pswd v)"
proof (erule keep)
  have "postA registered v (Some r)" if "UploadKernelOverEth e pswd v = Some r" for r
    using that
  proof (induction rule: UploadKernelOverEth.raw_induct [rotated, consumes 1, case_names step])
    case (step rec e pswd v r)
    obtain b where b: "UploadKernelBegin e pswd v = Some b"
      using step(2) by (cases "UploadKernelBegin e pswd v") simp_all
    show ?case
    proof (cases b)
      case (Inr p)
      obtain ok u where p: "p = (ok, u)" by (cases p)
      have u: "registered v u" using KernelBegin_number [of v v e pswd] b Inr p by simp
      show ?thesis
      proof (cases "eth_turn e u")
        case (Some d)
        then show ?thesis
        proof (cases d)
          case d: (Inr q)
          obtain ok' t where q: "q = (ok', t)" by (cases q)
          have t: "registered v t" using eth_turn_number [OF u, of e] Some d q by simp
          show ?thesis
            using step(1) [of e pswd t r] step(2) KernelEnd_number [OF t, of e] u t b Inr p Some d q
            by (auto split: if_splits intro: keep)
        qed (use step(2) b Inr p u in \<open>auto split: if_splits\<close>)
      qed (use step(2) b Inr p u in \<open>auto split: if_splits\<close>)
    qed (use step(2) b in auto)
  qed
  then show "postA registered v (UploadKernelOverEth e pswd v)"
    by (cases "UploadKernelOverEth e pswd v") simp_all
qed


lemma OldSys_number [keeps_number]:
  "registered w v \<Longrightarrow> postA registered w (UploadKernelWithOldSys e pswd v)"
  unfolding UploadKernelWithOldSys_def by (erule keep) (auto simp: keeps_number intro!: post_number)

lemma setup_eth_number [keeps_number]: "registered w v \<Longrightarrow> postA registered w (setup_eth e tftpd v)"
  unfolding setup_eth_def by (erule keep) (auto simp: keeps_number intro!: post_number)

lemma Download_number [keeps_number]:
  "registered w v \<Longrightarrow> postA registered w (DownloadFromTFtp e tftpd request path v)"
  unfolding DownloadFromTFtp_def by (erule keep) (auto simp: keeps_number intro!: post_number)

lemma RootFs_number [keeps_number]:
  "registered w v \<Longrightarrow> postA registered w (UploadRootFsOverEth e tftpd v)"
  unfolding UploadRootFsOverEth_def by (rule Download_number)

lemma Modules_number [keeps_number]:
  "registered w v \<Longrightarrow> postA registered w (UploadKernelModulesAndInstall e tftpd v)"
  unfolding UploadKernelModulesAndInstall_def Let_def
  by (erule keep) (auto simp: keeps_number shells_number intro!: post_number)

lemma Tools_number [keeps_number]:
  "registered w v \<Longrightarrow> postA registered w (UploadAndInstallTools e tftpd v)"
  unfolding UploadAndInstallTools_def Let_def
  by (erule keep) (auto simp: keeps_number shells_number intro!: post_number)

lemma InstallKernel_number [keeps_number]:
  "registered w v \<Longrightarrow> postA registered w (UploadAndInstallKernel e tftpd v)"
  unfolding UploadAndInstallKernel_def Let_def
  by (erule keep) (auto simp: keeps_number shells_number intro!: post_number split: option.split)

lemma InstallUBoot_number [keeps_number]:
  "registered w v \<Longrightarrow> postA registered w (UploadAndInstallUBoot e tftpd v)"
  unfolding UploadAndInstallUBoot_def Let_def
  by (erule keep) (auto simp: keeps_number shells_number intro!: post_number split: option.split)

lemma InstallPacket_number [keeps_number]:
  "registered w v \<Longrightarrow> postA registered w (UploadAndInstallPacket e tftpd ipk v)"
  unfolding UploadAndInstallPacket_def
  by (erule keep) (auto simp: keeps_number shells_number intro!: post_number)

lemma License_number [keeps_number]:
  "registered w v \<Longrightarrow> postA registered w (SetupRegigrafLicense e tftpd path v)"
  unfolding SetupRegigrafLicense_def by (erule keep) (auto simp: keeps_number intro!: post_number)

lemma ListOfPackets_number [keeps_number]:
  "registered w v \<Longrightarrow> postA registered w (UpdateListOfPackets e v)"
  unfolding UpdateListOfPackets_def by (erule keep) (auto simp: keeps_number intro!: post_number)

lemma Login_number [keeps_number]: "registered w v \<Longrightarrow> postA registered w (LoginToRegiboard e v)"
  unfolding LoginToRegiboard_def SwitchShell_def
  by (erule keep) (auto simp: keeps_number intro!: post_number)

lemma InstallRegigraf_number [keeps_number]:
  "registered w v \<Longrightarrow> postA registered w (UploadAndInstallRegigraf e tftpd v)"
  unfolding UploadAndInstallRegigraf_def
  by (erule keep) (auto simp: keeps_number shells_number intro!: post_number)

lemma InstallFirmware_number [keeps_number]:
  "registered w v \<Longrightarrow> postA registered w (UploadAndInstallFirmware e tftpd v)"
  unfolding UploadAndInstallFirmware_def Let_def
  by (erule keep) (auto simp: keeps_number shells_number intro!: post_number)

lemma SetupBooting_number [keeps_number]: "registered w v \<Longrightarrow> postA registered w (SetupBooting e v)"
  unfolding SetupBooting_def
  by (erule keep) (auto simp: keeps_number shells_number intro!: post_number)

lemma Debug_number [keeps_number]:
  "registered w v \<Longrightarrow> postA registered w (UploadKernelAndDebug e tftpd pswd v)"
  unfolding UploadKernelAndDebug_def by (erule keep) (auto simp: keeps_number intro!: post_number)

lemma mkvol_number [keeps_number]:
  "registered w v \<Longrightarrow> postA registered w (mkvol_loop e i name r v)"
proof (erule keep)
  have "postA registered v (Some x)" if "mkvol_loop e i name r v = Some x" for x
    using that
  proof (induction rule: mkvol_loop.raw_induct [rotated, consumes 1, case_names step])
    case (step rec e i name r v x)
    show ?case
    proof (cases "kVolSize (part_length name v) r")
      case (Inr sz)
      have y: "postA registered v (SendToShell (f_env e) (ubimkvol i name sz) True (set_mk_part_fail False v))"
        by (rule SendTo_number) (simp add: set_mk_part_fail_def)
      have "postA registered u (Some x)" if "rec e i name (next_reserve r) u = Some x" for u
        using step(1) [OF that] .
      then show ?thesis using step(2) Inr y
        by (auto split: option.splits sum.splits if_splits) (blast intro: keep)
    qed (use step(2) in auto)
  qed
  then show "postA registered v (mkvol_loop e i name r v)"
    by (cases "mkvol_loop e i name r v") simp_all
qed

lemma MkUbi_number [keeps_number]:
  "registered w v \<Longrightarrow> postA registered w (MkUbiFsPartition e i name v)"
  unfolding MkUbiFsPartition_def
  by (erule keep) (auto simp: keeps_number intro!: post_number split: option.split)

lemma UnpackRootFs_number [keeps_number]: "registered w v \<Longrightarrow> postA registered w (UnpackRootFs e v)"
  unfolding UnpackRootFs_def Let_def
  by (erule keep) (auto simp: keeps_number shells_number intro!: post_number)

lemma RegisterBoard_number [keeps_number]:
  "registered w v \<Longrightarrow> postA registered w (RegisterBoard e pswd v)"
proof (erule keep)
  have "registered v t" if "RegisterBoard e pswd v = Some (Inr (ok, t))" for ok t
  proof (cases ok)
    case True
    with RegisterBoard_result [OF that]
    have "ld_state t = next_board (ld_state v)" "ld_json t = ld_json v @ board_record e v" by simp_all
    moreover have "map fst (board_record e v) = board_files (ld_state v)"
      by (auto simp: board_record_def board_files_def SaveSysInfoToJson_def Save_def next_board_def
          CheckBatchCapacity_def)
    ultimately show ?thesis unfolding registered_def by (intro exI [of _ 1]) simp
  qed (use RegisterBoard_result [OF that] in simp)
  then show "postA registered v (RegisterBoard e pswd v)" by (simp add: postA_def)
qed


lemma InitUart_number [keeps_number]: "registered w v \<Longrightarrow> postA registered w (InitUart e v)"
  unfolding InitUart_def by (erule keep) simp

lemma uboot_again_number [keeps_number]:
  "registered w v \<Longrightarrow> postA registered w (uboot_again e img v)"
proof (erule keep)
  have "postA registered v (Some x)" if "uboot_again e img v = Some x" for x
    using that
  proof (induction rule: uboot_again.raw_induct [rotated, consumes 1, case_names step])
    case (step rec e img v x)
    have "postA registered v (UploadUBoot e img v)" by (rule UploadUBoot_number) simp
    then show ?case using step(2,1)
      by (auto split: option.splits sum.splits if_splits) (blast intro: keep)
  qed
  then show "postA registered v (uboot_again e img v)" by (cases "uboot_again e img v") simp_all
qed

lemma setup_nor_number [keeps_number]: "registered w v \<Longrightarrow> postA registered w (setup_nor e cfg v)"
  unfolding setup_nor_def by (erule keep) (auto simp: keeps_number intro!: post_number)

lemma DoAction_number [keeps_number]: "registered w v \<Longrightarrow> postA registered w (DoAction e cfg act v)"
  by (cases "Identify act") (simp_all add: DoAction_def Let_def keeps_number TestHardware_def)

lemma run_recipe_number [keeps_number]:
  "registered w v \<Longrightarrow> postA registered w (run_recipe e cfg acts v)"
proof (erule keep, induction acts arbitrary: v)
  case (Cons act acts)
  then show ?case by (auto simp: keeps_number intro!: post_number)
qed simp

lemma main_loop_number:
  "main_loop e cfg recipe w = Some (Inr t) \<Longrightarrow> registered w t"
proof -
  have "\<forall>t. x = Inr t \<longrightarrow> registered w t" if "main_loop e cfg recipe w = Some x" for x
    using that
  proof (induction rule: main_loop.raw_induct [rotated, consumes 1, case_names step])
    case (step rec e cfg recipe w x)
    have r: "postA registered w (ExecuteRecipe e cfg recipe w)"
      unfolding ExecuteRecipe_def Let_def by (intro number.post_thenA run_recipe_number) simp_all
    have "postA registered v (next_processor e v)" for v
      unfolding next_processor_def by (auto simp: keeps_number intro!: post_number)
    then show ?case using step(2,1) r
      by (fastforce split: option.splits sum.splits if_splits intro: registered_trans simp: postA_def)
  qed
  then show "main_loop e cfg recipe w = Some (Inr t) \<Longrightarrow> registered w t" by blast
qed

text \<open>C24: whatever the recipe, the boards and the answers of the operator are, a session leaves
  the numbering where the successful registrations moved it, one step each, and writes the files
  of exactly these boards, in their order, each under its own number.\<close>

theorem session_numbers_boards:
  assumes "main_loop e cfg recipe w = Some (Inr t)"
  shows "\<exists>k. ld_state t = (next_board ^^ k) (ld_state w) \<and>
    map fst (ld_json t) = map fst (ld_json w) @ session_files k (ld_state w)"
  using main_loop_number [OF assms] unfolding registered_def .

definition any_renv :: REnv where
  "any_renv = \<lparr>r_env = any_env, r_port = \<lambda>_. True, r_dir = Map.empty, r_tmp = True, r_junk = \<lambda>_. False\<rparr>"

definition any_cfg :: Settings where
  "any_cfg =
     \<lparr>st_tty_dev = ''/dev/ttyUSB0'', st_imx_img = ''u-boot'', st_kernel_img = ''uImage'',
      st_kernel_mods = '''', st_rootfs_img = ''rootfs.tar.gz'', st_mtd_utils = '''',
      st_acts = ''register'', st_packets = '''', st_config = ''./'', st_rbf = '''',
      st_uboot_pswd = ''pw'', st_use_tftp = \<lparr>nw_ip = ''10.0.0.1'', nw_mask = '''', nw_port = ''6969''\<rparr>\<rparr>"

theorem session_numbers_boards_witness:
  "\<exists>t k. main_loop any_renv any_cfg [''register''] registering = Some (Inr t) \<and>
     ld_state t = (next_board ^^ k) (ld_state registering) \<and>
     map fst (ld_json t) = map fst (ld_json registering) @ session_files k (ld_state registering)"
proof -
  obtain u where u: "RegisterBoard any_env ''pw'' registering = Some (Inr (True, u))" "ld_keys u = []"
    using some_registration by blast
  have r: "registering\<lparr>ld_keys := drop (Suc 0) (ld_keys registering), w_timeout_fail := False\<rparr> = registering"
    by (simp add: registering_def new_Loader_def new_Console_def Console.defs)
  have a: "DoAction any_renv any_cfg ''register'' registering = Some (Inr (True, u))"
    using u by (simp add: DoAction_def Identify_def actions_def any_renv_def any_cfg_def)
  have "\<exists>t. main_loop any_renv any_cfg [''register''] registering = Some (Inr t)"
    by (subst main_loop.simps) (simp add: ExecuteRecipe_def r a u(2) thenA_simps Let_def)
  then obtain t where t: "main_loop any_renv any_cfg [''register''] registering = Some (Inr t)" by blast
  from session_numbers_boards [OF t] t show ?thesis by blast
qed

lemma numbered_next: "numbered s \<Longrightarrow> numbered (next_board s)"
proof -
  assume n: "numbered s"
  then have "unat (ss_device s + 1) = unat (ss_device s) + 1"
    by (simp add: numbered_unat unat_add_lem [THEN iffD1])
  with n show "numbered (next_board s)"
    by (auto simp: numbered_unat next_board_def CheckBatchCapacity_def word_less_nat_alt)
qed

lemma numbered_boards: "numbered s \<Longrightarrow> numbered ((next_board ^^ k) s)"
  by (induction k) (simp_all add: numbered_next)

text \<open>C25: the numbering stays well formed over every session: the number of the board within its
  batch is between 1 and 255, so that the last group of its address has two digits.\<close>

theorem session_stays_numbered:
  assumes "numbered (ld_state w)" "main_loop e cfg recipe w = Some (Inr t)"
  shows "numbered (ld_state t) \<and> length (setw2 (show_hex (unat (ss_device (ld_state t))))) = 2"
proof -
  have "numbered (ld_state t)"
    using main_loop_number [OF assms(2)] numbered_boards [OF assms(1)] by (auto simp: registered_def)
  then show ?thesis by (simp add: numbered_unat length_hex_two)
qed

theorem session_stays_numbered_witness:
  "\<exists>t. main_loop any_renv any_cfg [''test_hw''] registering = Some (Inr t) \<and> numbered (ld_state t)"
proof -
  have "DoAction any_renv any_cfg ''test_hw'' v = Some (Inr (True, v))" for v
    by (simp add: DoAction_def Identify_def actions_def TestHardware_def)
  then have "\<exists>t. main_loop any_renv any_cfg [''test_hw''] registering = Some (Inr t)"
    by (subst main_loop.simps)
      (simp add: ExecuteRecipe_def thenA_simps Let_def registering_def new_Loader_def new_Console_def
        Console.defs)
  then obtain t where t: "main_loop any_renv any_cfg [''test_hw''] registering = Some (Inr t)"
    by blast
  have "numbered (ld_state registering)"
    by (simp add: registering_def new_SysState_def numbered_def new_Loader_def new_Console_def Console.defs)
  from session_stays_numbered [OF this t] t show ?thesis by blast
qed

section \<open>The next board\<close>

definition still_been :: "Loader \<Rightarrow> Loader \<Rightarrow> bool" where
  "still_been w t \<longleftrightarrow> (w_already_has_been w \<longrightarrow> w_already_has_been t)"

interpretation been: transition still_been
  by unfold_locales (simp_all add: still_been_def)

lemma ParseUntil_been: "postA still_been w (ParseUntil e p out w)"
  by (auto simp: postA_def waited_def still_been_def dest!: ParseUntil_frame dest: only_console_simps)

lemma SendToUBoot_been: "postA still_been w (SendToUBoot e c out w)"
  unfolding SendToUBoot_def
  by (auto simp: still_been_def SendCmd_def intro!: been.post_from [OF _ ParseUntil_been])

lemma Wait_been:
  assumes "WaitForWelcomeFromUBoot e pswd w = Some (Inr (True, t))"
  shows "w_already_has_been t"
proof (cases "w_already_has_been w \<and> \<not> si_wait_for_reboot (w_inf w)")
  case True
  with assms show ?thesis by (simp add: WaitForWelcomeFromUBoot_def)
next
  case False
  obtain u where u: "(let v = u\<lparr>w_already_has_been := True\<rparr> in
     if 0 < length pswd
     then orfail (ParseUntil (f_env e) kUBootPswdPrompt False)
            (doA [SendToUBoot (f_env e) pswd False, save_if_waiting e]) (SendCmd '''' v)
     else doA [SendToUBoot (f_env e) '''' False, save_if_waiting e] v) = Some (Inr (True, t))"
    using assms False by (auto simp: WaitForWelcomeFromUBoot_def dest!: orfail_True)
  let ?v = "u\<lparr>w_already_has_been := True\<rparr>"
  have s: "postA still_been x (doA [SendToUBoot (f_env e) c False, save_if_waiting e] x)" for x c
    unfolding save_if_waiting_def
    by (auto intro!: been.post_doA SendToUBoot_been simp: been.R_refl)
  have "postA still_been ?v (orfail (ParseUntil (f_env e) kUBootPswdPrompt False)
      (doA [SendToUBoot (f_env e) pswd False, save_if_waiting e]) (SendCmd '''' ?v))"
    by (intro been.post_orfail ParseUntil_been s) (simp add: still_been_def SendCmd_def)
  with u s [of ?v] show ?thesis by (auto simp: postA_def still_been_def Let_def split: if_splits)
qed

text \<open>That the console of the boot loader was reached is not forgotten when the next
  processor board is put in: there the action succeeds at once, without a byte read or written.\<close>

theorem next_board_not_waited_for:
  assumes "DoAction e cfg ''enter_uboot'' w = Some (Inr (True, t))"
    and "next_processor e t = Some (Inr (b, u))"
  shows "DoAction e cfg ''enter_uboot'' u = Some (Inr (True, u))"
proof -
  have "w_already_has_been t"
    using assms(1) by (intro Wait_been) (simp add: DoAction_def Identify_def actions_def)
  then have "w_already_has_been u \<and> \<not> si_wait_for_reboot (w_inf u)"
    using assms(2)
    by (auto simp: next_processor_def InitUart_def new_SysInfo_def doA.simps thenA_simps setA_simp
        split: if_splits)
  then show ?thesis
    by (simp add: DoAction_def Identify_def actions_def WaitForWelcomeFromUBoot_def)
qed

lemma any_wait_out:
  assumes "w_reads w = arriving [65] @ es"
  shows "ParseUntil (f_env any_env) p out w = Some (Inr (True, w\<lparr>w_reads := es\<rparr>))"
proof -
  have d: "delivers 10 [65] (w_reads w) = Some es"
    unfolding assms by (rule delivers_arriving) simp
  have "scan (prompt_hit (f_env any_env) p) '''' 0 [65] = ([], True, [])"
    by (simp add: prompt_hit_def any_env_def)
  from ParseUntil_match [OF d this] show ?thesis by simp
qed

theorem next_board_not_waited_for_witness:
  "\<exists>t u. next_processor any_renv t = Some (Inr (True, u)) \<and> w_reads u \<noteq> [] \<and>
     DoAction any_renv (any_cfg\<lparr>st_uboot_pswd := ''''\<rparr>) ''enter_uboot'' registering = Some (Inr (True, t)) \<and>
     DoAction any_renv (any_cfg\<lparr>st_uboot_pswd := ''''\<rparr>) ''enter_uboot'' u = Some (Inr (True, u))"
proof -
  let ?cfg = "any_cfg\<lparr>st_uboot_pswd := ''''\<rparr>"
  have f: "w_reads registering = arriving [65] @ arriving [65] @ arriving [65, 65, 65, 65]"
    "\<not> w_timeout_fail registering" "\<not> w_already_has_been registering"
    "\<not> si_wait_for_reboot (w_inf registering)"
    by (simp_all add: registering_def new_Loader_def new_Console_def Console.defs arriving_def new_SysInfo_def)
  have p: "st_uboot_pswd ?cfg = ''''" "r_env any_renv = any_env" "r_port any_renv n"
    for n by (simp_all add: any_cfg_def any_renv_def)
  obtain t where t: "DoAction any_renv ?cfg ''enter_uboot'' registering = Some (Inr (True, t))"
    "w_reads t = arriving [65, 65, 65, 65]"
    using f by (simp add: DoAction_def Identify_def actions_def p WaitForWelcomeFromUBoot_def orfail_def
        any_wait_out save_if_waiting_def SendToUBoot_def SendCmd_def doA.simps thenA_simps Let_def)
  obtain u where u: "next_processor any_renv t = Some (Inr (True, u))" "w_reads u = w_reads t"
    by (simp add: next_processor_def InitUart_def p doA.simps thenA_simps setA_simp)
  have "w_reads u \<noteq> []" using u(2) t(2) by (simp add: arriving_def)
  with u(1) t(1) next_board_not_waited_for [OF t(1) u(1)] show ?thesis by blast
qed

section \<open>Missing files and missing addresses\<close>

text \<open>
  What the cases of the switch need, and the order of those that have no \<open>break\<close> of their own; the
  last of these ends with one.
\<close>

definition needs :: "(string \<times> (Settings \<Rightarrow> string) list) list" where
  "needs =
     [(''kernel_uart'', [st_kernel_img]),
      (''kernel_eth'', [st_kernel_img, \<lambda>cfg. nw_ip (st_use_tftp cfg)]),
      (''kernel_dbg'', [\<lambda>cfg. nw_ip (st_use_tftp cfg)]),
      (''rootfs'', [st_rootfs_img, \<lambda>cfg. nw_ip (st_use_tftp cfg)]),
      (''mtd_utils'', [st_mtd_utils, \<lambda>cfg. nw_ip (st_use_tftp cfg)]),
      (''install_kernel'', [st_mtd_utils, \<lambda>cfg. nw_ip (st_use_tftp cfg)]),
      (''install_uboot'', [st_mtd_utils, \<lambda>cfg. nw_ip (st_use_tftp cfg)]),
      (''install_regigraf'', [\<lambda>cfg. nw_ip (st_use_tftp cfg)]),
      (''install_firmware'', [\<lambda>cfg. nw_ip (st_use_tftp cfg)]),
      (''unpack_rootfs'', [st_rootfs_img])]"

definition missing :: "Settings \<Rightarrow> string \<Rightarrow> bool" where
  "missing cfg act \<longleftrightarrow> (case map_of needs act of None \<Rightarrow> False | Some fs \<Rightarrow> \<exists>f \<in> set fs. f cfg = '''')"

definition next_case :: "string \<Rightarrow> string option" where
  "next_case = map_of
     [(''mtd_utils'', ''install_kernel''), (''install_kernel'', ''install_uboot''),
      (''install_uboot'', ''install_regigraf''), (''install_regigraf'', ''install_firmware''),
      (''install_firmware'', ''unpack_rootfs'')]"

lemma Identify_needing:
  "Identify ''kernel_uart'' = kKernelUart" "Identify ''kernel_eth'' = kKernelEth"
  "Identify ''kernel_dbg'' = kKernelDebug" "Identify ''rootfs'' = kRootFs"
  "Identify ''mtd_utils'' = RecipeAct.kMtdUtils" "Identify ''install_kernel'' = kInstallKernel"
  "Identify ''install_uboot'' = kInstallUBoot" "Identify ''install_regigraf'' = kInstallRegigraf"
  "Identify ''install_firmware'' = kInstallFirmware" "Identify ''unpack_rootfs'' = kUnpackRootFs"
  by (simp_all add: Identify_def actions_def)

lemma next_case_of:
  "next_case ''kernel_uart'' = None" "next_case ''kernel_eth'' = None" "next_case ''kernel_dbg'' = None"
  "next_case ''rootfs'' = None" "next_case ''unpack_rootfs'' = None"
  "next_case ''mtd_utils'' = Some ''install_kernel''" "next_case ''install_kernel'' = Some ''install_uboot''"
  "next_case ''install_uboot'' = Some ''install_regigraf''"
  "next_case ''install_regigraf'' = Some ''install_firmware''"
  "next_case ''install_firmware'' = Some ''unpack_rootfs''"
  by (simp_all add: next_case_def)

lemma missing_act:
  "missing cfg act \<Longrightarrow> act \<in> {''kernel_uart'', ''kernel_eth'', ''kernel_dbg'', ''rootfs'', ''mtd_utils'',
     ''install_kernel'', ''install_uboot'', ''install_regigraf'', ''install_firmware'', ''unpack_rootfs''}"
proof -
  assume "missing cfg act"
  then have "act \<in> fst ` set needs"
    by (auto simp: missing_def split: option.splits dest!: map_of_SomeD intro: rev_image_eqI)
  then show ?thesis by (simp add: needs_def)
qed

lemma missing_of:
  "missing cfg ''kernel_uart'' \<longleftrightarrow> st_kernel_img cfg = ''''"
  "missing cfg ''kernel_eth'' \<longleftrightarrow> st_kernel_img cfg = '''' \<or> nw_ip (st_use_tftp cfg) = ''''"
  "missing cfg ''kernel_dbg'' \<longleftrightarrow> nw_ip (st_use_tftp cfg) = ''''"
  "missing cfg ''rootfs'' \<longleftrightarrow> st_rootfs_img cfg = '''' \<or> nw_ip (st_use_tftp cfg) = ''''"
  "missing cfg ''mtd_utils'' \<longleftrightarrow> st_mtd_utils cfg = '''' \<or> nw_ip (st_use_tftp cfg) = ''''"
  "missing cfg ''install_kernel'' \<longleftrightarrow> st_mtd_utils cfg = '''' \<or> nw_ip (st_use_tftp cfg) = ''''"
  "missing cfg ''install_uboot'' \<longleftrightarrow> st_mtd_utils cfg = '''' \<or> nw_ip (st_use_tftp cfg) = ''''"
  "missing cfg ''install_regigraf'' \<longleftrightarrow> nw_ip (st_use_tftp cfg) = ''''"
  "missing cfg ''install_firmware'' \<longleftrightarrow> nw_ip (st_use_tftp cfg) = ''''"
  "missing cfg ''unpack_rootfs'' \<longleftrightarrow> st_rootfs_img cfg = ''''"
  by (simp_all add: missing_def needs_def)

lemma missing_falls:
  assumes "missing cfg act"
  shows "DoAction e cfg act w =
    (case next_case act of Some act' \<Rightarrow> DoAction e cfg act' w | None \<Rightarrow> Some (Inr (False, w)))"
  using missing_act [OF assms] assms unfolding DoAction_def Let_def
  by (elim insertE emptyE; hypsubst) (simp_all only: next_case_of option.case Identify_needing
      RecipeAct.case missing_of length_greater_0_conv, auto)

text \<open>C27: an action of the recipe for which a file or the address was not given.  The actions
  \<open>mtd_utils\<close>, \<open>install_kernel\<close>, \<open>install_uboot\<close>, \<open>install_regigraf\<close> and \<open>install_firmware\<close> then do what
  the next of them in this order does, and the last of them what \<open>unpack_rootfs\<close> does; the other
  five that need something fail and do nothing.\<close>

theorem actions_fall_through:
  assumes "missing cfg act"
  shows "DoAction e cfg act w =
    (case next_case act of Some act' \<Rightarrow> DoAction e cfg act' w | None \<Rightarrow> Some (Inr (False, w)))"
  using assms by (rule missing_falls)

theorem actions_fall_through_witness:
  "DoAction any_renv any_cfg ''install_uboot'' registering =
     DoAction any_renv any_cfg ''install_regigraf'' registering \<and>
   DoAction any_renv (any_cfg\<lparr>st_kernel_img := ''''\<rparr>) ''kernel_uart'' registering = Some (Inr (False, registering))"
  using actions_fall_through [of any_cfg "''install_uboot''" any_renv registering]
    actions_fall_through [of "any_cfg\<lparr>st_kernel_img := ''''\<rparr>" "''kernel_uart''" any_renv registering]
  by (simp add: missing_def needs_def next_case_def any_cfg_def)

text \<open>Without an archive of tools the three actions that need it install the program instead, and
  without an address as well they unpack the root file system, which formats the partitions.\<close>

lemma without_tools:
  assumes "st_mtd_utils cfg = ''''"
    and "act \<in> {''mtd_utils'', ''install_kernel'', ''install_uboot''}"
  shows "DoAction e cfg act w =
    (if nw_ip (st_use_tftp cfg) \<noteq> '''' then UploadAndInstallRegigraf (r_env e) (st_use_tftp cfg) w
     else if st_rootfs_img cfg \<noteq> '''' then UnpackRootFs (r_env e) w
     else Some (Inr (False, w)))"
proof -
  from assms(2) consider "act = ''mtd_utils''" | "act = ''install_kernel''" | "act = ''install_uboot''" by blast
  then have "Identify act = RecipeAct.kMtdUtils \<or> Identify act = kInstallKernel \<or> Identify act = kInstallUBoot"
    by cases (simp_all add: Identify_def actions_def)
  with assms(1) show ?thesis unfolding DoAction_def Let_def by (elim disjE) simp_all
qed

text \<open>The argument of \<open>--tftp\<close> is split at its first slash into address and mask; without a
  slash the mask is the address, not empty, so that \<open>DownloadFromTFtp\<close> passes the address to
  the board as its netmask.\<close>

theorem ParseArgs_tftp:
  assumes "ParseArgs a s = Some (s', cfg)" "CHR ''/'' \<notin> set ip"
  shows "vm a ''tftp'' = ip @ ''/'' @ nm \<longrightarrow>
      nw_ip (st_use_tftp cfg) = ip \<and> nw_mask (st_use_tftp cfg) = nm"
    "vm a ''tftp'' = ip \<longrightarrow> nw_ip (st_use_tftp cfg) = ip \<and> nw_mask (st_use_tftp cfg) = ip"
proof -
  have 1: "takeWhile (\<lambda>x. x \<noteq> CHR ''/'') (ip @ CHR ''/'' # nm) = ip @ takeWhile (\<lambda>x. x \<noteq> CHR ''/'') (CHR ''/'' # nm)"
    by (rule takeWhile_append2) (use assms(2) in auto)
  have "takeWhile (\<lambda>x. x \<noteq> CHR ''/'') ip = ip"
    using assms(2) by (auto simp: takeWhile_eq_all_conv)
  then have 2: "length (takeWhile (\<lambda>x. x \<noteq> CHR ''/'') ip) = length ip" by (rule arg_cong)
  have "find_first_of (CHR ''/'') (ip @ ''/'' @ nm) = Some (length ip)"
    using 1 by (simp add: find_first_of_def)
  moreover have "find_first_of (CHR ''/'') ip = None"
    unfolding find_first_of_def 2 by simp
  ultimately show "vm a ''tftp'' = ip @ ''/'' @ nm \<longrightarrow>
      nw_ip (st_use_tftp cfg) = ip \<and> nw_mask (st_use_tftp cfg) = nm"
    "vm a ''tftp'' = ip \<longrightarrow> nw_ip (st_use_tftp cfg) = ip \<and> nw_mask (st_use_tftp cfg) = ip"
    using assms(1) by (auto simp: ParseArgs_def tftp_ip_def tftp_mask_def split: if_splits)
qed

theorem ParseArgs_tftp_witness:
  "\<exists>s cfg. ParseArgs \<lparr>vm_help = False, vm_verbose = False, vm_given = [''tftp'' \<mapsto> ''10.0.0.1'']\<rparr> new_SysState =
     Some (s, cfg) \<and> nw_mask (st_use_tftp cfg) = ''10.0.0.1''"
proof -
  let ?a = "\<lparr>vm_help = False, vm_verbose = False, vm_given = [''tftp'' \<mapsto> ''10.0.0.1'']\<rparr> :: Args"
  obtain s cfg where p: "ParseArgs ?a new_SysState = Some (s, cfg)" by (simp add: ParseArgs_def)
  have "nw_mask (st_use_tftp cfg) = ''10.0.0.1''"
    using ParseArgs_tftp(2) [OF p, of "''10.0.0.1''"] by (simp add: vm_def)
  with p show ?thesis by blast
qed

section \<open>The licence\<close>

lemma publish_keeps:
  "pub_files srv n = Some p \<Longrightarrow> pub_files (snd (PublishFile name path srv)) n = Some p"
  by (auto simp: PublishFile_def split: option.split)

lemma PublishFile_other:
  "n \<noteq> name \<Longrightarrow> pub_files (snd (PublishFile name path srv)) n = pub_files srv n"
  by (auto simp: PublishFile_def split: option.split)

lemma ipk_entries_names: "(n, p) \<in> set (ipk_entries e dir names) \<Longrightarrow> n \<noteq> kRegigrafLicense"
  by (auto simp: ipk_entries_def kRegigrafIpk_def kRegigrafLicense_def path_extension_def split: if_splits)

text \<open>Whatever the arguments and the directory of packets are, the server offers the licence
  under its name, and what it sends for it is the document that \<open>GenXml\<close> makes.\<close>

theorem license_is_offered:
  assumes "r_tmp e" "publish_for_boards cfg e = (e', srv)"
  shows "pub_files srv kRegigrafLicense = Some license_path \<and>
    f_files (r_env e') license_path = Some (of_string (GenXml new_License))"
proof -
  define base where "base = snd (PublishFile kRbfName (st_rbf cfg)
    (snd (PublishFile Loader_Data.kMtdUtils (st_mtd_utils cfg)
    (snd (PublishFile kRootFsImg (st_rootfs_img cfg)
    (snd (PublishFile kKernelMods (st_kernel_mods cfg)
    (snd (PublishFile kKernelImg (st_kernel_img cfg)
    (snd (PublishFile (kUBootImg @ ''.bin'') (st_imx_img cfg @ ''.bin'') new_Server)))))))))))"
  have "pub_files base kRegigrafLicense = None"
    by (simp add: base_def PublishFile_other kRegigrafLicense_def kRbfName_def kMtdUtils_def
        kRootFsImg_def kKernelMods_def kKernelImg_def kUBootImg_def new_Server_def)
  moreover have "map_of (case r_dir e (st_packets cfg) of None \<Rightarrow> []
      | Some names \<Rightarrow> ipk_entries e (st_packets cfg) names) kRegigrafLicense = None"
    by (auto simp: map_of_eq_None_iff dest: ipk_entries_names split: option.split)
  ultimately have "pub_files (PublishDir e (st_packets cfg) base) kRegigrafLicense = None"
    by (simp add: PublishDir_def publish_entries_pub map_add_None split: option.splits)
  moreover have "(e', srv) = PublishRegigrafLicense new_License (e, PublishDir e (st_packets cfg) base)"
    using assms(2) by (simp add: publish_for_boards_def base_def Let_def)
  ultimately show "pub_files srv kRegigrafLicense = Some license_path \<and>
      f_files (r_env e') license_path = Some (of_string (GenXml new_License))"
    using assms(1)
    by (simp add: PublishRegigrafLicense_def PublishFile_pub kRegigrafLicense_def license_path_def
        map_add_def)
qed

theorem license_is_offered_witness:
  "pub_files (snd (publish_for_boards any_cfg any_renv)) kRegigrafLicense = Some license_path"
  using license_is_offered [of any_renv any_cfg "fst (publish_for_boards any_cfg any_renv)"
      "snd (publish_for_boards any_cfg any_renv)"]
  by (simp add: any_renv_def)

end
