(* ===== verification/C_Library.thy ===== *)
theory C_Library
  imports Regi_Prelude
begin

text \<open>
  What the tools take from the C library: the options of a command line (\<open>getopt\<close> of the GNU library,
  which moves the operands behind the options), the numbers in a text (\<open>strtol\<close>, \<open>strtoul\<close>, \<open>strtod\<close>,
  with what they leave unread and whether they set \<open>errno\<close>), numbers of the types \<open>float\<close> and \<open>double\<close>
  and the texts that \<open>printf\<close> makes of numbers.  The locale is always the one named C, since no tool sets
  another, and \<open>POSIXLY_CORRECT\<close> is not in the environment.  The number of bits of a \<open>long\<close> is the
  argument \<open>L\<close>.
\<close>

section \<open>Options\<close>

text \<open>Whether a character is an option, and whether it has an argument.\<close>

fun opt_lookup :: "string \<Rightarrow> char \<Rightarrow> bool option" where
  "opt_lookup [] c = None"
| "opt_lookup (x # xs) c =
     (if c = CHR '':'' then None
      else if x = c then Some (case xs of y # _ \<Rightarrow> y = CHR '':'' | [] \<Rightarrow> False)
      else opt_lookup xs c)"

text \<open>The options in one word, with what follows the word; a question mark stands for one that is not
  known or has no argument.\<close>

fun getopt_word :: "string \<Rightarrow> string \<Rightarrow> string list \<Rightarrow> (char \<times> string) list \<times> string list" where
  "getopt_word spec [] args = ([], args)"
| "getopt_word spec (c # cs) args =
     (case opt_lookup spec c of
        None \<Rightarrow> (let (os, args) = getopt_word spec cs args in ((CHR ''?'', []) # os, args))
      | Some False \<Rightarrow> (let (os, args) = getopt_word spec cs args in ((c, []) # os, args))
      | Some True \<Rightarrow>
          (if cs \<noteq> [] then ([(c, cs)], args)
           else (case args of
                   [] \<Rightarrow> ([(CHR ''?'', [])], [])
                 | a # args \<Rightarrow> ([(c, a)], args))))"

lemma getopt_word_rest: "length (snd (getopt_word spec w args)) \<le> length args"
  by (induction spec w args rule: getopt_word.induct)
    (auto simp: case_prod_unfold Let_def split: option.splits bool.splits list.splits)

text \<open>The options in their order, and the operands in theirs.\<close>

function getopt :: "string \<Rightarrow> string list \<Rightarrow> (char \<times> string) list \<times> string list" where
  "getopt spec [] = ([], [])"
| "getopt spec (a # args) =
     (if a = ''--'' then ([], args)
      else if length a < 2 \<or> hd a \<noteq> CHR ''-''
      then (let (os, rest) = getopt spec args in (os, a # rest))
      else (let os1 = fst (getopt_word spec (tl a) args);
                (os, rest) = getopt spec (snd (getopt_word spec (tl a) args)) in (os1 @ os, rest)))"
  by pat_completeness auto
termination
  by (relation "measure (\<lambda>(_, args). length args)") (auto simp: le_imp_less_Suc getopt_word_rest)

section \<open>Whole numbers in a text\<close>

definition isspace :: "char \<Rightarrow> bool" where
  "isspace c = (c \<in> {CHR '' '', CHR 0x09, CHR 0x0A, CHR 0x0B, CHR 0x0C, CHR 0x0D})"

text \<open>The value of a digit or letter; any other character is no digit of any base.\<close>

definition digit_value :: "char \<Rightarrow> nat" where
  "digit_value c =
     (let n = of_char c in
      if 48 \<le> n \<and> n \<le> 57 then n - 48
      else if 65 \<le> n \<and> n \<le> 90 then n - 55
      else if 97 \<le> n \<and> n \<le> 122 then n - 87
      else 99)"

text \<open>The number read so far and all digits that follow, how many these are, and the rest.\<close>

fun digits :: "nat \<Rightarrow> nat \<Rightarrow> string \<Rightarrow> nat \<times> nat \<times> string" where
  "digits b v [] = (v, 0, [])"
| "digits b v (c # cs) =
     (if digit_value c < b then (let (v, n, rest) = digits b (v * b + digit_value c) cs in (v, Suc n, rest))
      else (v, 0, c # cs))"

fun take_sign :: "string \<Rightarrow> bool \<times> string" where
  "take_sign [] = (False, [])"
| "take_sign (c # cs) =
     (if c = CHR ''-'' then (True, cs) else if c = CHR ''+'' then (False, cs) else (False, c # cs))"

fun hex_prefix :: "string \<Rightarrow> bool" where
  "hex_prefix (z # x # d # _) = (z = CHR ''0'' \<and> (x = CHR ''x'' \<or> x = CHR ''X'') \<and> digit_value d < 16)"
| "hex_prefix _ = False"

text \<open>Sign and digits in a base, where 0 leaves it to the text; \<^theory_text>\<open>None\<close> if there are no digits.\<close>

definition int_scan :: "nat \<Rightarrow> string \<Rightarrow> (bool \<times> nat \<times> string) option" where
  "int_scan base s =
     (let (neg, t) = take_sign (dropWhile isspace s);
          hex = ((base = 0 \<or> base = 16) \<and> hex_prefix t);
          b = (if base \<noteq> 0 then base
               else if hex then 16
               else if t \<noteq> [] \<and> hd t = CHR ''0'' then 8
               else 10);
          (v, n, rest) = digits b 0 (if hex then drop 2 t else t)
      in if n = 0 then None else Some (neg, v, rest))"

text \<open>The value, whether \<open>errno\<close> is set, and the text that was not read.\<close>

definition strtol :: "nat \<Rightarrow> nat \<Rightarrow> string \<Rightarrow> int \<times> bool \<times> string" where
  "strtol L base s =
     (case int_scan base s of
        None \<Rightarrow> (0, False, s)
      | Some (neg, v, rest) \<Rightarrow>
          (let x = (if neg then - int v else int v) in
           if x < - (2 ^ (L - 1)) then (- (2 ^ (L - 1)), True, rest)
           else if 2 ^ (L - 1) \<le> x then (2 ^ (L - 1) - 1, True, rest)
           else (x, False, rest)))"

definition strtoul :: "nat \<Rightarrow> nat \<Rightarrow> string \<Rightarrow> int \<times> bool \<times> string" where
  "strtoul L base s =
     (case int_scan base s of
        None \<Rightarrow> (0, False, s)
      | Some (neg, v, rest) \<Rightarrow>
          (if 2 ^ L \<le> v then (2 ^ L - 1, True, rest)
           else ((if neg then - int v else int v) mod 2 ^ L, False, rest)))"

text \<open>The conversion to \<open>int\<close>, which keeps the lower 32 bits.\<close>

definition to_int :: "int \<Rightarrow> int" where
  "to_int x = sint (word_of_int x :: u32)"

section \<open>Floating-point numbers\<close>

text \<open>Not a number, infinity, or a number \<open>m * 2 ^ e\<close>, each with a sign.\<close>

datatype flt = FNan bool | FInf bool | Fin bool nat int

text \<open>
  The nearest number with \<open>p\<close> binary digits and an exponent between \<open>lo\<close> and \<open>hi\<close> to a fraction, ties to
  even, and whether the fraction is too large or, if it is not met exactly, too small for the type.
\<close>

definition flt_round :: "nat \<Rightarrow> int \<Rightarrow> int \<Rightarrow> bool \<Rightarrow> nat \<Rightarrow> nat \<Rightarrow> flt \<times> bool" where
  "flt_round p lo hi neg num den =
     (if num = 0 then (Fin neg 0 lo, False)
      else
        let parts = (\<lambda>e::int. (num * 2 ^ nat (- e), den * 2 ^ nat e));
            e0 = int (bitlen num) - int (bitlen den) - int p;
            (n0, d0) = parts e0;
            e1 = (if 2 ^ p \<le> n0 div d0 then e0 + 1 else e0);
            e2 = max lo e1;
            (n, d) = parts e2;
            q = n div d; r = n mod d;
            q = (if d < 2 * r \<or> (2 * r = d \<and> odd q) then q + 1 else q);
            (m, e) = (if q = 2 ^ p then (2 ^ (p - 1), e2 + 1) else (q, e2))
        in if hi < e then (FInf neg, True) else (Fin neg m e, e1 < lo \<and> r \<noteq> 0))"

definition flt_double :: "bool \<Rightarrow> nat \<Rightarrow> nat \<Rightarrow> flt \<times> bool" where
  "flt_double = flt_round 53 (- 1074) 971"

definition flt_float :: "bool \<Rightarrow> nat \<Rightarrow> nat \<Rightarrow> flt \<times> bool" where
  "flt_float = flt_round 24 (- 149) 104"

text \<open>The conversion of a \<open>double\<close> to a \<open>float\<close>, the product of two numbers as a \<open>double\<close>, the conversion
  to \<open>int\<close>, which has no value outside of the type, and the comparison of a magnitude.\<close>

fun to_float :: "flt \<Rightarrow> flt" where
  "to_float (Fin neg m e) = fst (flt_float neg (m * 2 ^ nat e) (2 ^ nat (- e)))"
| "to_float x = x"

fun times_double :: "nat \<Rightarrow> flt \<Rightarrow> flt" where
  "times_double k (Fin neg m e) = fst (flt_double neg (k * m * 2 ^ nat e) (2 ^ nat (- e)))"
| "times_double k x = x"

fun flt_to_int :: "flt \<Rightarrow> int option" where
  "flt_to_int (Fin neg m e) =
     (let a = int (m * 2 ^ nat e div 2 ^ nat (- e)); x = (if neg then - a else a)
      in if - (2 ^ 31) \<le> x \<and> x < 2 ^ 31 then Some x else None)"
| "flt_to_int _ = None"

fun abs_exceeds :: "flt \<Rightarrow> nat \<Rightarrow> bool" where
  "abs_exceeds (Fin _ m e) k = (k * 2 ^ nat (- e) < m * 2 ^ nat e)"
| "abs_exceeds (FInf _) k = True"
| "abs_exceeds (FNan _) k = False"

section \<open>Floating-point numbers in a text\<close>

definition lower :: "char \<Rightarrow> char" where
  "lower c = (let n = of_char c :: nat in if 65 \<le> n \<and> n \<le> 90 then char_of (n + 32) else c)"

definition has_prefix :: "string \<Rightarrow> string \<Rightarrow> bool" where
  "has_prefix p s = (map lower (take (length p) s) = p)"

text \<open>The characters in the parentheses that may follow \<open>nan\<close>.\<close>

definition nan_rest :: "string \<Rightarrow> string" where
  "nan_rest s =
     (case s of
        c # cs \<Rightarrow>
          (let rest = dropWhile (\<lambda>c. digit_value c < 36 \<or> c = CHR ''_'') cs in
           if c = CHR ''('' \<and> rest \<noteq> [] \<and> hd rest = CHR '')'' then tl rest else s)
      | [] \<Rightarrow> [])"

text \<open>The exponent behind the mark, which belongs to the number only if it has digits.\<close>

definition exponent_scan :: "char \<Rightarrow> string \<Rightarrow> int \<times> string" where
  "exponent_scan mark s =
     (case s of
        c # cs \<Rightarrow>
          (if lower c = mark
           then (let (neg, t) = take_sign cs; (v, n, rest) = digits 10 0 t
                 in if n = 0 then (0, s) else (if neg then - int v else int v, rest))
           else (0, s))
      | [] \<Rightarrow> (0, s))"

text \<open>All digits as one number, the number of them behind the point, and the exponent.\<close>

definition flt_scan :: "nat \<Rightarrow> char \<Rightarrow> string \<Rightarrow> (nat \<times> nat \<times> int \<times> string) option" where
  "flt_scan b mark s =
     (let (v1, n1, r1) = digits b 0 s;
          (v2, n2, r2) = (case r1 of
                            c # cs \<Rightarrow> if c = CHR ''.'' then digits b v1 cs else (v1, 0, r1)
                          | [] \<Rightarrow> (v1, 0, r1));
          (x, rest) = exponent_scan mark r2
      in if n1 + n2 = 0 then None else Some (v2, n2, x, rest))"

fun hex_flt_prefix :: "string \<Rightarrow> bool" where
  "hex_flt_prefix (z # x # s) =
     (z = CHR ''0'' \<and> (x = CHR ''x'' \<or> x = CHR ''X'') \<and> flt_scan 16 CHR ''p'' s \<noteq> None)"
| "hex_flt_prefix _ = False"

definition strtod :: "string \<Rightarrow> flt \<times> bool \<times> string" where
  "strtod s =
     (let (neg, t) = take_sign (dropWhile isspace s) in
      if has_prefix ''inf'' t
      then (FInf neg, False, drop (if has_prefix ''infinity'' t then 8 else 3) t)
      else if has_prefix ''nan'' t then (FNan neg, False, nan_rest (drop 3 t))
      else if hex_flt_prefix t
      then (case flt_scan 16 CHR ''p'' (drop 2 t) of
              Some (v, n, x, rest) \<Rightarrow>
                (let k = x - 4 * int n; (d, err) = flt_double neg (v * 2 ^ nat k) (2 ^ nat (- k)) in (d, err, rest))
            | None \<Rightarrow> (Fin False 0 0, False, s))
      else (case flt_scan 10 CHR ''e'' t of
              Some (v, n, x, rest) \<Rightarrow>
                (let k = x - int n; (d, err) = flt_double neg (v * 10 ^ nat k) (10 ^ nat (- k)) in (d, err, rest))
            | None \<Rightarrow> (Fin False 0 0, False, s)))"

section \<open>Numbers that are printed\<close>

definition show_signed :: "int \<Rightarrow> string" where
  "show_signed x = (if x < 0 then ''-'' @ show_dec (nat (- x)) else show_dec (nat x))"

definition zero_padded :: "nat \<Rightarrow> string \<Rightarrow> string" where
  "zero_padded w s = replicate (w - length s) CHR ''0'' @ s"

text \<open>\<open>%.nf\<close>: the nearest decimal number with so many digits behind the point, ties to even.\<close>

fun show_fixed :: "nat \<Rightarrow> flt \<Rightarrow> string" where
  "show_fixed n (FNan neg) = (if neg then ''-nan'' else ''nan'')"
| "show_fixed n (FInf neg) = (if neg then ''-inf'' else ''inf'')"
| "show_fixed n (Fin neg m e) =
     (let num = m * 2 ^ nat e * 10 ^ n; d = 2 ^ nat (- e);
          q = num div d; r = num mod d;
          q = (if d < 2 * r \<or> (2 * r = d \<and> odd q) then q + 1 else q)
      in (if neg then ''-'' else []) @ show_dec (q div 10 ^ n) @
         (if n = 0 then [] else ''.'' @ zero_padded n (show_dec (q mod 10 ^ n))))"

section \<open>Numbers that are printed and read again\<close>

lemma digits_snoc:
  "snd (snd (digits b v s)) = [] \<Longrightarrow> digit_value c < b \<Longrightarrow>
    digits b v (s @ [c]) = (fst (digits b v s) * b + digit_value c, Suc (fst (snd (digits b v s))), [])"
  by (induction b v s rule: digits.induct) (auto simp: case_prod_unfold Let_def split: if_splits)

lemma of_char_digit: "d < 10 \<Longrightarrow> (of_char (char_of (48 + d)) :: nat) = 48 + d"
  by (simp add: of_char_of)

lemma digit_value_digit: "d < 10 \<Longrightarrow> digit_value (char_of (48 + d)) = d"
  by (simp add: digit_value_def Let_def of_char_digit)

lemma show_dec_step: "\<not> n < 10 \<Longrightarrow> show_dec n = show_dec (n div 10) @ [char_of (48 + n mod 10)]"
  by (simp add: show_dec.simps [of n])

lemma digits_show_dec: "\<exists>k. digits 10 0 (show_dec n) = (n, Suc k, [])"
proof (induction n rule: show_dec.induct)
  case (1 n)
  show ?case
  proof (cases "n < 10")
    case True
    then show ?thesis by (simp add: show_dec.simps [of n] digit_value_digit)
  next
    case False
    with 1 obtain k where "digits 10 0 (show_dec (n div 10)) = (n div 10, Suc k, [])" by blast
    with False digits_snoc [of 10 0 "show_dec (n div 10)" "char_of (48 + n mod 10)"]
    show ?thesis by (simp add: show_dec_step [of n] digit_value_digit)
  qed
qed

lemma show_dec_chars: "c \<in> set (show_dec n) \<Longrightarrow> \<exists>d < 10. c = char_of (48 + d :: nat)"
proof (induction n rule: show_dec.induct)
  case (1 n)
  show ?case
  proof (cases "n < 10")
    case True
    then have "c = char_of (48 + n :: nat)" using 1 by (simp add: show_dec.simps [of n])
    with True show ?thesis by blast
  next
    case False
    then have "c \<in> set (show_dec (n div 10)) \<or> c = char_of (48 + n mod 10 :: nat)"
      using 1(2) by (auto simp: show_dec_step)
    moreover have "n mod 10 < 10" by simp
    ultimately show ?thesis using 1(1) [OF False] by blast
  qed
qed

lemma show_dec_range: "c \<in> set (show_dec n) \<Longrightarrow> 48 \<le> (of_char c :: nat) \<and> (of_char c :: nat) \<le> 57"
  using show_dec_chars [of c n] by (auto simp: of_char_digit)

lemma show_dec_inj: "show_dec m = show_dec n \<Longrightarrow> m = n"
proof -
  assume *: "show_dec m = show_dec n"
  obtain k l where "digits 10 0 (show_dec m) = (m, Suc k, [])" "digits 10 0 (show_dec n) = (n, Suc l, [])"
    using digits_show_dec by metis
  with * show "m = n" by (metis prod.inject)
qed

lemma hd_show_dec: "\<exists>(d::nat) cs. show_dec n = char_of (48 + d) # cs \<and> d < 10 \<and> (0 < n \<longrightarrow> 0 < d)"
proof (induction n rule: show_dec.induct)
  case (1 n)
  show ?case
  proof (cases "n < 10")
    case False
    with 1 obtain d :: nat and cs where "show_dec (n div 10) = char_of (48 + d) # cs" "d < 10" "0 < d"
      by (force simp: div_greater_zero_iff)
    then show ?thesis unfolding show_dec_step [OF False] by (intro exI [of _ d] exI) simp
  next
    case True
    then show ?thesis by (intro exI [of _ n] exI [of _ "[]"]) (simp add: show_dec.simps [of n])
  qed
qed

lemma digit_char:
  assumes "(d::nat) < 10"
  shows "\<not> isspace (char_of (48 + d))" "char_of (48 + d) \<noteq> CHR ''-''" "char_of (48 + d) \<noteq> CHR ''+''"
    "char_of (48 + d) = CHR ''0'' \<longleftrightarrow> d = 0"
proof -
  have "char_of (48 + d) = c \<longleftrightarrow> 48 + d = of_char c" for c
    using of_char_digit [OF assms] by (metis char_of_char)
  then show "\<not> isspace (char_of (48 + d))" "char_of (48 + d) \<noteq> CHR ''-''" "char_of (48 + d) \<noteq> CHR ''+''"
    "char_of (48 + d) = CHR ''0'' \<longleftrightarrow> d = 0"
    using assms by (simp_all add: isspace_def)
qed

lemma int_scan_show: "int_scan 0 ((if neg then ''-'' else []) @ show_dec n) = Some (neg, n, [])"
proof -
  obtain d :: nat and cs where s: "show_dec n = char_of (48 + d) # cs" "d < 10" "0 < n \<longrightarrow> 0 < d"
    using hd_show_dec by blast
  note c = digit_char [OF s(2)]
  obtain k where ds: "digits 10 0 (show_dec n) = (n, Suc k, [])" using digits_show_dec by blast
  have "take_sign (dropWhile isspace ((if neg then ''-'' else []) @ show_dec n)) = (neg, show_dec n)"
    using c by (auto simp: s(1) isspace_def)
  moreover have "\<not> hex_prefix (show_dec n)"
  proof (cases "n = 0")
    case False
    then show ?thesis using s c by (cases "show_dec n" rule: hex_prefix.cases) auto
  qed (simp add: show_dec.simps)
  moreover have "digits (if hd (show_dec n) = CHR ''0'' then 8 else 10) 0 (show_dec n) = (n, Suc k, [])"
  proof (cases "n = 0")
    case True
    with ds show ?thesis by (simp add: show_dec.simps digit_value_def split: if_splits)
  next
    case False
    with s c have "hd (show_dec n) \<noteq> CHR ''0''" by simp
    with ds show ?thesis by simp
  qed
  ultimately show ?thesis using s(1) by (simp add: int_scan_def Let_def)
qed

lemma int_scan_dec: "int_scan 10 (show_dec n) = Some (False, n, [])"
proof -
  obtain d :: nat and cs where s: "show_dec n = char_of (48 + d) # cs" "d < 10"
    using hd_show_dec by blast
  obtain k where "digits 10 0 (show_dec n) = (n, Suc k, [])" using digits_show_dec by blast
  moreover have "take_sign (dropWhile isspace (show_dec n)) = (False, show_dec n)"
    using digit_char [OF s(2)] by (simp add: s(1))
  ultimately show ?thesis by (simp add: int_scan_def)
qed

lemma last_show_dec: "\<exists>d::nat < 10. last (show_dec n) = char_of (48 + d)"
  using show_dec_chars [of "last (show_dec n)" n] by (metis hd_show_dec last_in_set list.distinct(1))

lemma of_char_last: "48 \<le> (of_char (last (show_dec n)) :: nat)" "(of_char (last (show_dec n)) :: nat) \<le> 57"
  using last_show_dec [of n] by (auto simp: of_char_digit)

lemma strtol_show:
  assumes "- (2 ^ (L - 1)) \<le> x" "x < 2 ^ (L - 1)"
  shows "strtol L 0 (show_signed x) = (x, False, [])"
  using assms int_scan_show [of "x < 0" "nat \<bar>x\<bar>"]
  by (auto simp: strtol_def show_signed_def Let_def split: if_splits)


text \<open>Arguments that are no options.\<close>

definition operand :: "string \<Rightarrow> bool" where
  "operand s = (length s < 2 \<or> hd s \<noteq> CHR ''-'')"

lemma getopt_operands: "\<forall>a \<in> set args. operand a \<Longrightarrow> getopt spec args = ([], args)"
  by (induction args) (auto simp: operand_def)

lemma operand_show_dec: "operand (show_dec n)"
proof -
  obtain d :: nat and cs where "show_dec n = char_of (48 + d) # cs" "d < 10" using hd_show_dec by blast
  then show ?thesis using digit_char(2) [of d] by (simp add: operand_def)
qed

end
