(* ===== verification/Loader_Boards.thy ===== *)
theory Loader_Boards
  imports Loader_Recipe C_Library
begin

text \<open>The records of the boards of a session (regiloader/regiloader.cpp, SysState). The
  successful registrations of a session go through the numbers of the boards in their order, and
  the name of a record determines the number of its board: no record of a session replaces another
  one of it. The order of the boards is the order of the pairs that the class keeps, batches before
  devices.\<close>

section \<open>Boards in their order\<close>

datatype BoardNo = BoardNo (no_stand: nat) (no_batch: nat) (no_device: nat)

text \<open>Batches count before devices, stands before both.\<close>

instantiation BoardNo :: linorder
begin

definition less_eq_BoardNo :: "BoardNo \<Rightarrow> BoardNo \<Rightarrow> bool" where
  "less_eq_BoardNo a b \<longleftrightarrow>
     (if no_stand a \<noteq> no_stand b then no_stand a < no_stand b
      else if no_batch a \<noteq> no_batch b then no_batch a < no_batch b
      else no_device a \<le> no_device b)"

definition less_BoardNo :: "BoardNo \<Rightarrow> BoardNo \<Rightarrow> bool" where
  "less_BoardNo a b \<longleftrightarrow> a \<le> b \<and> \<not> b \<le> a"

instance
  by standard (auto simp: less_eq_BoardNo_def less_BoardNo_def split: if_splits intro: BoardNo.expand)

end

definition board_no :: "SysState \<Rightarrow> BoardNo" where
  "board_no s = BoardNo (unat (ss_stand s)) (unat (ss_batch s)) (unat (ss_device s))"

lemma div_mod_order:
  fixes a b k :: nat
  assumes "0 < k"
  shows "a div k < b div k \<or> a div k = b div k \<and> a mod k < b mod k \<longleftrightarrow> a < b"
proof (cases "a div k = b div k")
  case True
  then show ?thesis using div_mult_mod_eq [of a k] div_mult_mod_eq [of b k]
    by (metis less_irrefl nat_add_left_cancel_less)
next
  case False
  moreover have "a div k \<le> b div k" if "a < b" using that by (simp add: div_le_mono)
  moreover have "a < b" if "a div k < b div k" using that div_le_mono [of b a k] by (metis leD leI)
  ultimately show ?thesis by (metis le_neq_implies_less)
qed

lemma board_no_serial:
  assumes "numbered s" "numbered t" "ss_stand s = ss_stand t"
  shows "board_no s < board_no t \<longleftrightarrow> serial s < serial t"
proof -
  have "unat (ss_batch s) = serial s div 255" "unat (ss_device s) = serial s mod 255 + 1"
    "unat (ss_batch t) = serial t div 255" "unat (ss_device t) = serial t mod 255 + 1"
    using serial_parts [OF assms(1)] serial_parts [OF assms(2)] by simp_all
  moreover note div_mod_order [of 255 "serial s" "serial t"]
  ultimately show ?thesis
    using assms(3) by (auto simp: board_no_def less_BoardNo_def less_eq_BoardNo_def not_le)
qed

lemma boards_ascend:
  assumes "numbered s" "serial s + n < 255 * 2 ^ 32"
  shows "sorted_wrt (<) (map (\<lambda>i. board_no ((next_board ^^ i) s)) [0..<n])"
proof -
  have "board_no ((next_board ^^ i) s) < board_no ((next_board ^^ j) s)" if "i < j" "j < n" for i j
    using next_boards [OF assms(1), of i] next_boards [OF assms(1), of j] assms(2) that
    by (subst board_no_serial) simp_all
  then show ?thesis by (auto simp: sorted_wrt_iff_nth_less)
qed

lemma board_file_inj:
  assumes "board_file path s = board_file path t"
  shows "board_no s = board_no t"
proof -
  have cut: "a = b \<and> x = y" if "show_dec a @ CHR ''.'' # x = show_dec b @ CHR ''.'' # y" for a b x y
  proof -
    have "takeWhile (\<lambda>c. c \<noteq> CHR ''.'') (show_dec k @ CHR ''.'' # z) = show_dec k" for k z
    proof (subst takeWhile_append2)
      show "c \<noteq> CHR ''.''" if c: "c \<in> set (show_dec k)" for c
      proof
        assume "c = CHR ''.''"
        with show_dec_range [OF c] show False by simp
      qed
    qed simp
    with that show ?thesis by (metis show_dec_inj list.inject same_append_eq)
  qed
  from assms have "show_dec (unat (ss_stand s)) @ CHR ''.'' # show_dec (unat (ss_batch s)) @ CHR ''.'' # show_dec (unat (ss_device s)) @ ''.json'' =
      show_dec (unat (ss_stand t)) @ CHR ''.'' # show_dec (unat (ss_batch t)) @ CHR ''.'' # show_dec (unat (ss_device t)) @ ''.json''"
    by (simp add: board_file_def)
  from cut [OF this] have "unat (ss_stand s) = unat (ss_stand t)" and rest: "show_dec (unat (ss_batch s)) @ CHR ''.'' # show_dec (unat (ss_device s)) @ ''.json'' =
      show_dec (unat (ss_batch t)) @ CHR ''.'' # show_dec (unat (ss_device t)) @ ''.json''" by simp_all
  moreover from cut [OF rest] have "unat (ss_batch s) = unat (ss_batch t)" "show_dec (unat (ss_device s)) = show_dec (unat (ss_device t))"
    by simp_all
  moreover from this(2) have "unat (ss_device s) = unat (ss_device t)" by (rule show_dec_inj)
  ultimately show ?thesis by (simp add: board_no_def)
qed

lemma filter_heads:
  "(\<And>i. filter P (g i) = []) \<Longrightarrow> filter P (concat (map (\<lambda>i. f i # g i) xs)) = filter P (map f xs)"
  by (induction xs) simp_all

text \<open>The files of a session, those of the numbering apart.\<close>

lemma session_board_files:
  assumes "numbered s" "serial s + n < 255 * 2 ^ 32"
  shows "distinct (filter (\<lambda>f. f \<noteq> ss_file_path s) (session_files n s))"
proof -
  have path: "ss_file_path ((next_board ^^ i) s) = ss_file_path s" for i
    by (induction i) (simp_all add: next_board_def CheckBatchCapacity_def)
  have all: "session_files n s = concat (map (\<lambda>i. board_files ((next_board ^^ i) s)) [0..<n])"
  proof (induction n)
    case (Suc n)
    then show ?case using session_files_add [of n 1 s] by simp
  qed simp
  have files: "filter (\<lambda>f. f \<noteq> ss_file_path s) (session_files n s) =
      filter (\<lambda>f. f \<noteq> ss_file_path s) (map (\<lambda>i. board_file ''./tmp/'' ((next_board ^^ i) s)) [0..<n])"
    unfolding all board_files_def path by (rule filter_heads) simp
  have "distinct (map (\<lambda>i. board_file ''./tmp/'' ((next_board ^^ i) s)) [0..<n])"
  proof -
    have "distinct (map (\<lambda>i. board_no ((next_board ^^ i) s)) [0..<n])"
      using boards_ascend [OF assms] strict_sorted_iff by blast
    then show ?thesis by (auto simp: distinct_map inj_on_def dest!: board_file_inj)
  qed
  then show ?thesis unfolding files by (rule distinct_filter)
qed

lemma session_files_at_least: "n \<le> length (session_files n s)"
proof (induction n arbitrary: s)
  case (Suc n)
  from Suc [of "next_board s"] show ?case by (auto simp: board_files_def)
qed simp

text \<open>C12: no record of a board is lost in a session: whatever the recipe, the boards and the
  answers of the operator are, every registration writes its record under a name of its own, until
  the number of the batch leaves its 32 bits. Only the file of the numbering is written again.\<close>

theorem session_keeps_records:
  assumes "main_loop e cfg recipe w = Some (Inr t)"
    and "numbered (ld_state w)"
    and "serial (ld_state w) + length (ld_json t) < 255 * 2 ^ 32"
  shows "distinct (filter (\<lambda>f. f \<noteq> ss_file_path (ld_state w))
    (drop (length (ld_json w)) (map fst (ld_json t))))"
proof -
  obtain k where files: "map fst (ld_json t) = map fst (ld_json w) @ session_files k (ld_state w)"
    using main_loop_number [OF assms(1)] unfolding registered_def by blast
  then have "length (ld_json t) = length (ld_json w) + length (session_files k (ld_state w))"
    by (metis length_append length_map)
  then have "serial (ld_state w) + k < 255 * 2 ^ 32"
    using session_files_at_least [of k "ld_state w"] assms(3) by linarith
  with session_board_files [OF assms(2)] files show ?thesis by simp
qed

theorem session_keeps_records_witness:
  "\<exists>t. main_loop any_renv any_cfg [''register''] registering = Some (Inr t) \<and>
     ss_file_path (ld_state registering) = ''regiloader.json'' \<and>
     map fst (ld_json t) = [''./tmp//board-1.3.1.json'', ''regiloader.json''] \<and>
     distinct (filter (\<lambda>f. f \<noteq> ''regiloader.json'') (map fst (ld_json t)))"
proof -
  obtain u where u: "RegisterBoard any_env ''pw'' registering = Some (Inr (True, u))" "ld_keys u = []"
    using some_registration by blast
  have r: "registering\<lparr>ld_keys := drop (Suc 0) (ld_keys registering), w_timeout_fail := False\<rparr> = registering"
    by (simp add: registering_def new_Loader_def new_Console_def Console.defs)
  have a: "DoAction any_renv any_cfg ''register'' registering = Some (Inr (True, u))"
    using u by (simp add: DoAction_def Identify_def actions_def any_renv_def any_cfg_def)
  let ?t = "u\<lparr>ld_keys := [], ld_open := False\<rparr>"
  have t: "main_loop any_renv any_cfg [''register''] registering = Some (Inr ?t)"
    by (subst main_loop.simps) (simp add: ExecuteRecipe_def r a u(2) thenA_simps Let_def)
  have n: "ss_file_path (ld_state registering) = ''regiloader.json''" "ld_json registering = []"
    "ss_stand (ld_state registering) = 1" "ss_batch (ld_state registering) = 3" "ss_device (ld_state registering) = 1"
    by (simp_all add: registering_def new_SysState_def new_Loader_def new_Console_def Console.defs)
  have d: "show_dec 1 = ''1''" "show_dec 3 = ''3''" by code_simp+
  with n have f: "map fst (ld_json ?t) = [''./tmp//board-1.3.1.json'', ''regiloader.json'']"
    using RegisterBoard_counts [OF u(1)] d [unfolded One_nat_def]
    by (simp add: board_record_def next_board_def CheckBatchCapacity_def board_file_def
        SaveSysInfoToJson_def Save_def d)
  have "numbered (ld_state registering)" "serial (ld_state registering) + length (ld_json ?t) < 255 * 2 ^ 32"
    using n arg_cong [OF f, of length] by (simp_all add: numbered_def serial_def)
  from session_keeps_records [OF t this] n f t show ?thesis by (metis drop0 list.size(3))
qed

end
