(* ===== verification/Uboot_Conf.thy ===== *)
theory Uboot_Conf
  imports Regi_Stream Loader_Parse
begin

text \<open>
  The configuration of the boot loader as a text (regisetup/uboot_conf/uboot_conf.cpp): the
  environment of U-Boot is a check sum followed by a segment of fixed size, in which every
  setting ends with a zero byte and the last one with two.  The loader runs the program on the
  board to write the model of the display and the number of the board into the environment.

  The size of the segment and the check sum come from the sources of U-Boot and are the
  parameters \<open>n\<close> and \<open>crc32\<close>; regular expressions are the parameter \<open>rx\<close>, as in
  \<open>Loader_Parse\<close>.  \<open>seg\<close> is at first what the memory holds that the program allocates.
\<close>

section \<open>Arguments\<close>

datatype Operation = kRead | kWrite | kUnknown

record Arguments =
  cf_in :: string
  cf_out :: string
  cf_oper :: Operation
  cf_board_id :: string
  cf_lcd_model :: string
  cf_ts_model :: string

definition kBinDef :: string where "kBinDef = ''uboot.bin''"
definition kTxtDef :: string where "kTxtDef = ''uboot.conf''"
definition kUndef :: string where "kUndef = ''X''"

text \<open>The options that were given are a map; \<open>help\<close> is true if the description was asked for.\<close>

definition conf_ParseArgs :: "bool \<Rightarrow> (string \<rightharpoonup> string) \<Rightarrow> Arguments" where
  "conf_ParseArgs help given =
     (let vm = (\<lambda>name def. case given name of Some v \<Rightarrow> v | None \<Rightarrow> def) in
      if help
      then \<lparr>cf_in = '''', cf_out = '''', cf_oper = kUnknown, cf_board_id = '''', cf_lcd_model = '''',
            cf_ts_model = ''''\<rparr>
      else \<lparr>cf_in = vm ''if'' kBinDef, cf_out = vm ''of'' kTxtDef,
            cf_oper = (if vm ''do'' ''r'' = ''w'' then kWrite else kRead),
            cf_board_id = vm ''board'' kUndef, cf_lcd_model = vm ''lcd'' kUndef,
            cf_ts_model = vm ''ts'' kUndef\<rparr>)"

section \<open>From the segment to the text\<close>

definition ApplyFilter :: "regex \<Rightarrow> Arguments \<Rightarrow> byte list \<Rightarrow> byte list" where
  "ApplyFilter rx args row =
     (case rx ''([^=]+)=(.*)'' (to_string row) of
        None \<Rightarrow> row
      | Some res \<Rightarrow>
          (if res ! 1 = ''board_id'' \<and> cf_board_id args \<noteq> kUndef
           then of_string (''board_id='' @ cf_board_id args)
           else if res ! 1 = ''lcd_model'' \<and> cf_lcd_model args \<noteq> kUndef
           then of_string (''lcd_model='' @ cf_lcd_model args)
           else if res ! 1 = ''ts_model'' \<and> cf_ts_model args \<noteq> kUndef
           then of_string (''ts_model='' @ cf_ts_model args)
           else row))"

text \<open>
  One segment: what is written, and the row that is left if the end of the configuration was
  not met.  \<open>eoc\<close> counts the zero bytes in a row.
\<close>

fun bin_rows ::
  "(byte list \<Rightarrow> byte list) \<Rightarrow> byte list \<Rightarrow> nat \<Rightarrow> byte list \<Rightarrow> byte list \<times> byte list option" where
  "bin_rows f row eoc [] = ([], Some row)"
| "bin_rows f row eoc (b # bs) =
     (let eoc = (if b = 0 then eoc + 1 else 0) in
      if eoc = 0 then bin_rows f (row @ [b]) 0 bs
      else if eoc = 1 then (let (out, left) = bin_rows f [] 1 bs in (f row @ [0x0A] @ out, left))
      else ([], None))"

partial_function (option) bin_loop ::
  "nat \<Rightarrow> (byte list \<Rightarrow> byte list) \<Rightarrow> byte list \<Rightarrow> byte list \<Rightarrow> FStream \<Rightarrow> byte list option" where
  "bin_loop n f seg out s =
     (let (got, s) = fs_read n s; seg = got @ drop (length got) seg; (rows, left) = bin_rows f [] 0 seg
      in case left of
           None \<Rightarrow> Some (out @ rows)
         | Some row \<Rightarrow>
             (let out = out @ rows @ (if row = [] then [] else f row) in
              if fs_good s then bin_loop n f seg out s else Some out))"

definition BinToText :: "nat \<Rightarrow> regex \<Rightarrow> byte list \<Rightarrow> Arguments \<Rightarrow> FStream \<Rightarrow> byte list option" where
  "BinToText n rx seg args s = bin_loop n (ApplyFilter rx args) seg [] (s\<lparr>fs_pos := 4\<rparr>)"

section \<open>From the text to the segment\<close>

definition kMaxRowLen :: nat where
  "kMaxRowLen = 255"

text \<open>
  \<open>istream::getline\<close> and the \<open>gcount\<close> bytes it counts: the line with a zero for its end, or what is
  left at the end of the file, or as much as there is room for; the stream stays good only
  in the first case.
\<close>

definition getline :: "FStream \<Rightarrow> byte list \<times> FStream" where
  "getline s =
     (let rest = fs_rest s; line = takeWhile (\<lambda>b. b \<noteq> 0x0A) rest in
      if length line < length rest \<and> length line \<le> kMaxRowLen - 1
      then (line @ [0], s\<lparr>fs_pos := fs_pos s + length line + 1\<rparr>)
      else if length rest \<le> kMaxRowLen - 1
      then (rest, s\<lparr>fs_pos := fs_pos s + length rest, fs_good := False\<rparr>)
      else (take (kMaxRowLen - 1) rest, s\<lparr>fs_pos := fs_pos s + (kMaxRowLen - 1), fs_good := False\<rparr>))"

lemma getline_shorter:
  assumes "fs_good (snd (getline s))" "fs_good s"
  shows "length (fs_rest (snd (getline s))) < length (fs_rest s)"
  using assms by (auto simp: getline_def Let_def fs_rest_length split: if_splits)

function text_loop :: "nat \<Rightarrow> byte list \<Rightarrow> nat \<Rightarrow> FStream \<Rightarrow> stop + (byte list \<times> nat)" where
  "text_loop n seg seg_off s =
     (let (row, t) = getline s in
      if n < seg_off + length row then Inl OutOfBounds
      else (let seg = overwrite seg seg_off row; seg_off = seg_off + length row in
            if fs_good s \<and> fs_good t then text_loop n seg seg_off t else Inr (seg, seg_off)))"
  by pat_completeness auto
termination
  by (relation "measure (\<lambda>(n, seg, off, s). length (fs_rest s))")
    (auto dest: getline_shorter simp: prod_eq_iff)

declare text_loop.simps [simp del]

definition TextToBin :: "nat \<Rightarrow> (byte list \<Rightarrow> u32) \<Rightarrow> FStream \<Rightarrow> stop + byte list" where
  "TextToBin n crc32 s =
     (case text_loop n (replicate n 0) 0 s of
        Inl x \<Rightarrow> Inl x
      | Inr (seg, _) \<Rightarrow> Inr (le32 (crc32 seg) @ seg))"

section \<open>The program\<close>

text \<open>
  The result is the exit status and the files.  Opening the output empties it, and that happens
  before the first read; \<open>writable\<close> says for which paths it succeeds.
\<close>

definition conf_main ::
  "nat \<Rightarrow> (byte list \<Rightarrow> u32) \<Rightarrow> regex \<Rightarrow> byte list \<Rightarrow> (string \<Rightarrow> bool) \<Rightarrow> Arguments \<Rightarrow> files \<Rightarrow>
   (stop + (nat \<times> files)) option" where
  "conf_main n crc32 rx seg writable args files =
     (if cf_oper args = kUnknown then Some (Inr (0, files))
      else if \<not> fs_good (fs_opened files (cf_in args)) then Some (Inr (1, files))
      else if \<not> writable (cf_out args) then Some (Inr (1, files))
      else (let s = fs_opened (files(cf_out args \<mapsto> [])) (cf_in args) in
            if cf_oper args = kRead
            then (case BinToText n rx seg args s of
                    None \<Rightarrow> None
                  | Some text \<Rightarrow> Some (Inr (0, files(cf_out args \<mapsto> text))))
            else (case TextToBin n crc32 s of
                    Inl x \<Rightarrow> Some (Inl x)
                  | Inr bin \<Rightarrow> Some (Inr (0, files(cf_out args \<mapsto> bin))))))"

section \<open>The environment and its text\<close>

text \<open>The list of rows that a segment, and a text, stand for.\<close>

definition env_seg :: "nat \<Rightarrow> byte list list \<Rightarrow> byte list" where
  "env_seg n rows =
     (let bs = concat (map (\<lambda>r. r @ [0]) rows) in bs @ replicate (n - length bs) 0)"

definition env_image :: "nat \<Rightarrow> (byte list \<Rightarrow> u32) \<Rightarrow> byte list list \<Rightarrow> byte list" where
  "env_image n crc32 rows = le32 (crc32 (env_seg n rows)) @ env_seg n rows"

definition env_text :: "byte list list \<Rightarrow> byte list" where
  "env_text rows = concat (map (\<lambda>r. r @ [0x0A]) rows)"

definition env_length :: "byte list list \<Rightarrow> nat" where
  "env_length rows = (\<Sum>r\<leftarrow>rows. length r + 1)"

definition row_ok :: "byte list \<Rightarrow> bool" where
  "row_ok r \<longleftrightarrow> r \<noteq> [] \<and> 0 \<notin> set r \<and> 0x0A \<notin> set r \<and> length r < kMaxRowLen"

lemma env_length_seg: "length (concat (map (\<lambda>r. r @ [b]) rows)) = env_length rows"
  by (induction rows) (simp_all add: env_length_def)

lemma length_env_seg: "env_length rows \<le> n \<Longrightarrow> length (env_seg n rows) = n"
  by (simp add: env_seg_def Let_def env_length_seg)

lemma bin_rows_nonzero:
  "0 \<notin> set r \<Longrightarrow> r \<noteq> [] \<Longrightarrow> bin_rows f row eoc (r @ bs) = bin_rows f (row @ r) 0 bs"
proof (induction r arbitrary: row eoc)
  case (Cons b r)
  then show ?case using Cons.IH [of "row @ [b]" 0] by (cases r) (auto simp: Let_def)
qed simp

lemma bin_rows_env:
  assumes "list_all row_ok rows" "rows \<noteq> [] \<or> 0 < eoc" "0 < k"
  shows "bin_rows f [] eoc (concat (map (\<lambda>r. r @ [0]) rows) @ replicate k 0) =
    (env_text (map f rows), None)"
  using assms
proof (induction rows arbitrary: eoc)
  case Nil
  then show ?case by (cases k) (auto simp: env_text_def Let_def)
next
  case (Cons r rows)
  then have "bin_rows f [] eoc (r @ [0] @ bs) = bin_rows f r 0 ([0] @ bs)" for bs
    by (subst bin_rows_nonzero) (simp_all add: row_ok_def)
  with Cons show ?case by (simp add: env_text_def)
qed

lemma BinToText_env:
  assumes "list_all row_ok rows" "rows \<noteq> []" "env_length rows < n" "length seg = n"
    and "fs_good s" "fs_data s = le32 c @ env_seg n rows @ rest"
  shows "BinToText n rx seg args s = Some (env_text (map (ApplyFilter rx args) rows))"
proof -
  let ?s = "s\<lparr>fs_pos := 4\<rparr>"
  have len: "length (env_seg n rows) = n" using assms(3) by (simp add: length_env_seg)
  have "fs_rest ?s = env_seg n rows @ rest" by (simp add: fs_rest_def assms(6))
  then obtain t where t: "fs_read n ?s = (env_seg n rows, t)"
    using fs_read_fst [of ?s n] assms(5) len by (cases "fs_read n ?s") simp
  have "bin_rows (ApplyFilter rx args) [] 0 (env_seg n rows) =
      (env_text (map (ApplyFilter rx args) rows), None)"
    unfolding env_seg_def Let_def env_length_seg by (rule bin_rows_env) (use assms(1-3) in auto)
  then show ?thesis
    unfolding BinToText_def by (subst bin_loop.simps) (simp add: t len assms(4) Let_def)
qed

lemma getline_row:
  assumes "row_ok r" "fs_rest s = r @ [0x0A] @ bs" "fs_good s"
  shows "\<exists>t. getline s = (r @ [0], t) \<and> fs_rest t = bs \<and> fs_good t"
proof -
  have "takeWhile (\<lambda>b. b \<noteq> 0x0A) (r @ 0x0A # bs) = r @ takeWhile (\<lambda>b. b \<noteq> 0x0A) (0x0A # bs)"
    by (rule takeWhile_append2) (use assms(1) in \<open>auto simp: row_ok_def\<close>)
  then have w: "takeWhile (\<lambda>b. b \<noteq> 0x0A) (r @ 0x0A # bs) = r" by simp
  have "length r \<le> kMaxRowLen - 1" using assms(1) by (simp add: row_ok_def kMaxRowLen_def)
  moreover have "drop (length r + 1) (drop (fs_pos s) (fs_data s)) = bs"
    using assms(2) by (simp add: fs_rest_def del: drop_drop)
  then have "drop (fs_pos s + length r + 1) (fs_data s) = bs" by (simp add: add.commute add.left_commute)
  ultimately show ?thesis
    using assms(2,3) w by (simp add: getline_def Let_def fs_rest_def)
qed

lemma overwrite_zeros:
  "length row \<le> k \<Longrightarrow>
   overwrite (bs @ replicate k 0) (length bs) row = (bs @ row) @ replicate (k - length row) 0"
  by (simp add: overwrite_def)

lemma text_loop_rows:
  assumes "list_all row_ok rows" "fs_rest s = env_text rows @ rest" "fs_good s"
    "length bs + env_length rows \<le> n"
  shows "\<exists>t. fs_rest t = rest \<and> fs_good t \<and>
    text_loop n (bs @ replicate (n - length bs) 0) (length bs) s =
    text_loop n ((bs @ concat (map (\<lambda>r. r @ [0]) rows)) @ replicate (n - length bs - env_length rows) 0)
      (length bs + env_length rows) t"
  using assms
proof (induction rows arbitrary: s bs)
  case Nil
  then show ?case by (intro exI [of _ s]) (simp add: env_text_def env_length_def)
next
  case (Cons r rows)
  obtain t where t: "getline s = (r @ [0], t)" "fs_rest t = env_text rows @ rest" "fs_good t"
    using getline_row [of r s "env_text rows @ rest"] Cons.prems by (auto simp: env_text_def)
  have l: "env_length (r # rows) = length r + 1 + env_length rows" by (simp add: env_length_def)
  have "text_loop n (bs @ replicate (n - length bs) 0) (length bs) s =
      text_loop n ((bs @ r @ [0]) @ replicate (n - length (bs @ r @ [0])) 0) (length (bs @ r @ [0])) t"
    using Cons.prems(3,4) t(1,3) l
    by (subst text_loop.simps) (simp add: Let_def overwrite_zeros [of "r @ [0]" "n - length bs" bs, simplified])
  moreover have "length (bs @ r @ [0]) + env_length rows \<le> n" using Cons.prems(4) l by simp
  from Cons.IH [OF _ t(2,3) this] Cons.prems(1) obtain u where
    "fs_rest u = rest" "fs_good u"
    "text_loop n ((bs @ r @ [0]) @ replicate (n - length (bs @ r @ [0])) 0) (length (bs @ r @ [0])) t =
     text_loop n (((bs @ r @ [0]) @ concat (map (\<lambda>r. r @ [0]) rows)) @
       replicate (n - length (bs @ r @ [0]) - env_length rows) 0) (length (bs @ r @ [0]) + env_length rows) u"
    by auto
  ultimately show ?case using l by (intro exI [of _ u]) (simp add: algebra_simps)
qed

lemma TextToBin_env:
  assumes "list_all row_ok rows" "fs_rest s = env_text rows" "fs_good s" "env_length rows \<le> n"
  shows "TextToBin n crc32 s = Inr (env_image n crc32 rows)"
proof -
  obtain t where t: "fs_rest t = []" "fs_good t"
    "text_loop n (replicate n 0) 0 s =
     text_loop n (concat (map (\<lambda>r. r @ [0]) rows) @ replicate (n - env_length rows) 0) (env_length rows) t"
    using text_loop_rows [of rows s "[]" "[]" n] assms by auto
  have "overwrite xs k [] = xs" for xs :: "byte list" and k by simp
  then have "text_loop n seg k t = Inr (seg, k)" if "k \<le> n" for seg k
    using t(1) that by (subst text_loop.simps) (simp add: getline_def kMaxRowLen_def)
  with t(3) assms(4) show ?thesis
    by (simp add: TextToBin_def env_image_def env_seg_def Let_def env_length_seg)
qed


section \<open>Settings\<close>

text \<open>A setting is a name and a value; \<open>rx_splits\<close> is what the expression of \<open>ApplyFilter\<close> means.\<close>

definition setting :: "string \<times> string \<Rightarrow> byte list" where
  "setting = (\<lambda>(k, v). of_string (k @ ''='' @ v))"

definition rx_splits :: "regex \<Rightarrow> bool" where
  "rx_splits rx \<longleftrightarrow> (\<forall>k v. k \<noteq> '''' \<and> CHR ''='' \<notin> set k \<longrightarrow>
     rx ''([^=]+)=(.*)'' (k @ ''='' @ v) = Some [k @ ''='' @ v, k, v])"

text \<open>The value that the arguments give for a name.\<close>

definition given :: "Arguments \<Rightarrow> string \<rightharpoonup> string" where
  "given args =
     [''board_id'' \<mapsto> cf_board_id args, ''lcd_model'' \<mapsto> cf_lcd_model args, ''ts_model'' \<mapsto> cf_ts_model args]"

definition updated :: "Arguments \<Rightarrow> string \<times> string \<Rightarrow> string \<times> string" where
  "updated args = (\<lambda>(k, v). (k, case given args k of Some u \<Rightarrow> (if u = kUndef then v else u) | None \<Rightarrow> v))"

definition setting_ok :: "string \<times> string \<Rightarrow> bool" where
  "setting_ok kv \<longleftrightarrow> fst kv \<noteq> '''' \<and> CHR ''='' \<notin> set (fst kv) \<and> row_ok (setting kv)"

lemma ApplyFilter_setting:
  assumes "rx_splits rx" "setting_ok kv"
  shows "ApplyFilter rx args (setting kv) = setting (updated args kv)"
proof -
  obtain k v where kv: "kv = (k, v)" by (cases kv)
  have "rx ''([^=]+)=(.*)'' (to_string (setting kv)) = Some [k @ ''='' @ v, k, v]"
    using assms by (simp add: rx_splits_def setting_ok_def setting_def kv)
  then show ?thesis
    by (auto simp: ApplyFilter_def updated_def given_def setting_def kv)
qed

lemma conf_read:
  assumes "cf_oper args = kRead" "files (cf_in args) = Some (env_image n crc32 rows)"
    "cf_in args \<noteq> cf_out args" "writable (cf_out args)" "list_all row_ok rows" "rows \<noteq> []"
    "env_length rows < n" "length seg = n"
  shows "conf_main n crc32 rx seg writable args files =
    Some (Inr (0, files(cf_out args \<mapsto> env_text (map (ApplyFilter rx args) rows))))"
proof -
  have "BinToText n rx seg args (fs_opened (files(cf_out args \<mapsto> [])) (cf_in args)) =
      Some (env_text (map (ApplyFilter rx args) rows))"
    using assms by (intro BinToText_env [where rest = "[]"]) (simp_all add: fs_opened_def env_image_def)
  then show ?thesis using assms by (simp add: conf_main_def fs_opened_def)
qed

lemma conf_write:
  assumes "cf_oper args = kWrite" "files (cf_in args) = Some (env_text rows)"
    "cf_in args \<noteq> cf_out args" "writable (cf_out args)" "list_all row_ok rows" "env_length rows \<le> n"
  shows "conf_main n crc32 rx seg writable args files =
    Some (Inr (0, files(cf_out args \<mapsto> env_image n crc32 rows)))"
proof -
  have "TextToBin n crc32 (fs_opened (files(cf_out args \<mapsto> [])) (cf_in args)) = Inr (env_image n crc32 rows)"
    using assms by (intro TextToBin_env) (simp_all add: fs_opened_def fs_rest_def)
  then show ?thesis using assms by (simp add: conf_main_def fs_opened_def)
qed

text \<open>C28: reading the environment into a text with new values and writing the text back leaves
  an environment with a valid check sum and the same settings in the same order, of which exactly
  those that the arguments name have their new values.\<close>

theorem settings_updated:
  assumes "rx_splits rx" "length seg = n"
    and "list_all setting_ok kvs" "kvs \<noteq> []" "env_length (map setting kvs) < n"
    and "list_all row_ok (map setting (map (updated args) kvs))"
    and "env_length (map setting (map (updated args) kvs)) \<le> n"
    and "cf_oper args = kRead" "cf_oper back = kWrite"
    and "cf_in back = cf_out args" "cf_out back = cf_in args" "cf_in args \<noteq> cf_out args"
    and "writable (cf_in args)" "writable (cf_out args)"
    and "files (cf_in args) = Some (env_image n crc32 (map setting kvs))"
  shows "\<exists>files'. conf_main n crc32 rx seg writable args files = Some (Inr (0, files')) \<and>
    conf_main n crc32 rx seg writable back files' = Some (Inr (0, files'(cf_in args \<mapsto>
      env_image n crc32 (map setting (map (updated args) kvs)))))"
proof -
  let ?rows = "map setting (map (updated args) kvs)"
  have rows: "map (ApplyFilter rx args) (map setting kvs) = ?rows"
    using assms(1,3) by (simp add: ApplyFilter_setting list_all_iff)
  have "list_all row_ok (map setting kvs)"
    using assms(3) by (simp add: setting_ok_def list_all_iff)
  from conf_read [of args files n crc32 "map setting kvs" writable seg rx] this assms(2,4,5,8,12,14,15)
  have "conf_main n crc32 rx seg writable args files =
      Some (Inr (0, files(cf_out args \<mapsto> env_text ?rows)))"
    unfolding rows by (simp del: map_map)
  moreover have "conf_main n crc32 rx seg writable back (files(cf_out args \<mapsto> env_text ?rows)) =
      Some (Inr (0, (files(cf_out args \<mapsto> env_text ?rows))(cf_out back \<mapsto> env_image n crc32 ?rows)))"
    using assms by (intro conf_write) simp_all
  ultimately show ?thesis using assms(11) by auto
qed

definition some_splits :: regex where
  "some_splits exp str =
     (if exp = ''([^=]+)=(.*)'' \<and> CHR ''='' \<in> set str \<and> str \<noteq> '''' \<and> hd str \<noteq> CHR ''=''
      then Some [str, takeWhile (\<lambda>c. c \<noteq> CHR ''='') str, tl (dropWhile (\<lambda>c. c \<noteq> CHR ''='') str)] else None)"

lemma some_splits: "rx_splits some_splits"
  unfolding rx_splits_def
proof (intro allI impI)
  fix k v :: string
  assume k: "k \<noteq> '''' \<and> CHR ''='' \<notin> set k"
  have "takeWhile (\<lambda>c. c \<noteq> CHR ''='') (k @ CHR ''='' # v) = k @ takeWhile (\<lambda>c. c \<noteq> CHR ''='') (CHR ''='' # v)"
    by (rule takeWhile_append2) (use k in auto)
  moreover have "dropWhile (\<lambda>c. c \<noteq> CHR ''='') (k @ CHR ''='' # v) = dropWhile (\<lambda>c. c \<noteq> CHR ''='') (CHR ''='' # v)"
    by (rule dropWhile_append2) (use k in auto)
  ultimately show "some_splits ''([^=]+)=(.*)'' (k @ ''='' @ v) = Some [k @ ''='' @ v, k, v]"
    using k by (cases k) (auto simp: some_splits_def)
qed

theorem settings_updated_witness:
  "\<exists>files'. conf_main 64 (\<lambda>_. 7) some_splits (replicate 64 0) (\<lambda>_. True)
       (conf_ParseArgs False [''if'' \<mapsto> ''/dev/mtd1'', ''of'' \<mapsto> ''/tmp/uboot.conf'', ''board'' \<mapsto> ''1.3.5''])
       [''/dev/mtd1'' \<mapsto> env_image 64 (\<lambda>_. 7) (map setting [(''bootdelay'', ''3''), (''board_id'', ''0'')])] =
     Some (Inr (0, files')) \<and>
   conf_main 64 (\<lambda>_. 7) some_splits (replicate 64 0) (\<lambda>_. True)
       (conf_ParseArgs False [''if'' \<mapsto> ''/tmp/uboot.conf'', ''of'' \<mapsto> ''/dev/mtd1'', ''do'' \<mapsto> ''w'']) files' =
     Some (Inr (0, files'(''/dev/mtd1'' \<mapsto>
       env_image 64 (\<lambda>_. 7) (map setting [(''bootdelay'', ''3''), (''board_id'', ''1.3.5'')]))))"
proof -
  let ?args = "conf_ParseArgs False [''if'' \<mapsto> ''/dev/mtd1'', ''of'' \<mapsto> ''/tmp/uboot.conf'', ''board'' \<mapsto> ''1.3.5'']"
  let ?wr = "conf_ParseArgs False [''if'' \<mapsto> ''/tmp/uboot.conf'', ''of'' \<mapsto> ''/dev/mtd1'', ''do'' \<mapsto> ''w'']"
  let ?kvs = "[(''bootdelay'', ''3''), (''board_id'', ''0'')]"
  have u: "map (updated ?args) ?kvs = [(''bootdelay'', ''3''), (''board_id'', ''1.3.5'')]"
    by (simp add: updated_def given_def conf_ParseArgs_def kUndef_def)
  have ok: "list_all setting_ok ?kvs" "list_all row_ok (map setting (map (updated ?args) ?kvs))"
    unfolding u by (simp_all add: setting_ok_def row_ok_def setting_def of_string_def kMaxRowLen_def)
  have len: "env_length (map setting ?kvs) < 64" "env_length (map setting (map (updated ?args) ?kvs)) \<le> 64"
    unfolding u by (simp_all add: env_length_def setting_def)
  from settings_updated [OF some_splits _ ok(1) _ len(1) ok(2) len(2), of "replicate 64 0" ?wr "\<lambda>_. True"
      "[''/dev/mtd1'' \<mapsto> env_image 64 (\<lambda>_. 7) (map setting ?kvs)]" "\<lambda>_. 7"]
  show ?thesis unfolding u by (simp add: conf_ParseArgs_def)
qed

section \<open>Long lines and full segments\<close>

lemma getline_long:
  assumes "fs_rest s = l @ rest" "0x0A \<notin> set l" "kMaxRowLen \<le> length l"
  shows "\<exists>t. getline s = (take (kMaxRowLen - 1) l, t) \<and> \<not> fs_good t"
proof -
  have "takeWhile (\<lambda>b. b \<noteq> 0x0A) (l @ rest) = l @ takeWhile (\<lambda>b. b \<noteq> 0x0A) rest"
    by (rule takeWhile_append2) (use assms(2) in auto)
  then show ?thesis using assms(1,3) by (simp add: getline_def Let_def kMaxRowLen_def)
qed

text \<open>A line of 255 characters or more ends the conversion: of the line the first 254
  characters are kept, and whatever follows it in the text is lost without an error.\<close>

theorem long_line_loses_rest:
  assumes "list_all row_ok rows" "fs_good s" "fs_rest s = env_text rows @ l @ rest"
    and "0x0A \<notin> set l" "kMaxRowLen \<le> length l" "env_length rows + (kMaxRowLen - 1) \<le> n"
  shows "\<exists>seg. TextToBin n crc32 s = Inr (le32 (crc32 seg) @ seg) \<and>
    seg = concat (map (\<lambda>r. r @ [0]) rows) @ take (kMaxRowLen - 1) l @
      replicate (n - env_length rows - (kMaxRowLen - 1)) 0"
proof -
  let ?bs = "concat (map (\<lambda>r. r @ [0]) rows)" and ?k = "n - env_length rows"
  obtain t where t: "fs_rest t = l @ rest" "fs_good t"
    "text_loop n (replicate n 0) 0 s = text_loop n (?bs @ replicate ?k 0) (env_length rows) t"
    using text_loop_rows [of rows s "l @ rest" "[]" n] assms(1-3,6) by auto
  obtain u where u: "getline t = (take (kMaxRowLen - 1) l, u)" "\<not> fs_good u"
    using getline_long [OF t(1) assms(4,5)] by blast
  have len: "length (take (kMaxRowLen - 1) l) = kMaxRowLen - 1" using assms(5) by (simp add: kMaxRowLen_def)
  have "overwrite (?bs @ replicate ?k 0) (length ?bs) (take (kMaxRowLen - 1) l) =
      (?bs @ take (kMaxRowLen - 1) l) @ replicate (?k - (kMaxRowLen - 1)) 0"
    using assms(6) len by (subst overwrite_zeros) simp_all
  then have "text_loop n (?bs @ replicate ?k 0) (env_length rows) t =
      Inr (?bs @ take (kMaxRowLen - 1) l @ replicate (?k - (kMaxRowLen - 1)) 0,
        env_length rows + (kMaxRowLen - 1))"
    using u len assms(6) by (subst text_loop.simps) (simp add: Let_def env_length_seg)
  with t(3) show ?thesis by (simp add: TextToBin_def)
qed

theorem long_line_loses_rest_witness:
  "TextToBin 300 (\<lambda>_. 7) \<lparr>fs_open = True, fs_good = True,
       fs_data = env_text [[0x61]] @ replicate 255 0x62 @ [0x0A, 0x63, 0x0A], fs_pos = 0\<rparr> =
     Inr (le32 7 @ [0x61, 0] @ replicate 254 0x62 @ replicate 44 0)"
  using long_line_loses_rest [of "[[0x61]]" "\<lparr>fs_open = True, fs_good = True,
      fs_data = env_text [[0x61]] @ replicate 255 0x62 @ [0x0A, 0x63, 0x0A], fs_pos = 0\<rparr>"
      "replicate 255 0x62" "[0x0A, 0x63, 0x0A]" 300 "\<lambda>_. 7"]
  by (simp add: row_ok_def fs_rest_def kMaxRowLen_def env_length_def)

lemma bin_rows_full:
  assumes "list_all row_ok rows"
  shows "rows \<noteq> [] \<Longrightarrow> bin_rows f [] eoc (concat (map (\<lambda>r. r @ [0]) rows)) = (env_text (map f rows), Some [])"
  using assms
proof (induction rows arbitrary: eoc)
  case (Cons r rows)
  then have "bin_rows f [] eoc (r @ [0] @ bs) = bin_rows f r 0 ([0] @ bs)" for bs
    by (subst bin_rows_nonzero) (simp_all add: row_ok_def)
  with Cons show ?case by (cases "rows = []") (simp_all add: env_text_def)
qed simp

text \<open>An environment that fills its segment exactly is written twice: the end is looked for in the
  next segment, which the file does not have, so that the old contents are scanned again.\<close>

lemma full_environment_twice:
  assumes "list_all row_ok rows" "rows \<noteq> []" "env_length rows = n" "length seg = n"
    and "fs_good s" "fs_data s = le32 c @ concat (map (\<lambda>r. r @ [0]) rows)"
  shows "BinToText n rx seg args s =
    (let text = env_text (map (ApplyFilter rx args) rows) in Some (text @ text))"
proof -
  let ?s = "s\<lparr>fs_pos := 4\<rparr>" and ?seg = "concat (map (\<lambda>r. r @ [0]) rows)"
  have len: "length ?seg = n" using assms(3) by (simp add: env_length_seg)
  have "fs_rest ?s = ?seg" by (simp add: fs_rest_def assms(6))
  then obtain t where t: "fs_read n ?s = (?seg, t)" "fs_rest t = []" "fs_good t"
    using fs_read_fst [of ?s n] fs_read_rest [of ?s n] fs_read_good [of n ?s] assms(5) len
    by (cases "fs_read n ?s") simp
  have n: "0 < n" using assms(2,3) by (cases rows) (simp_all add: env_length_def)
  obtain u where u: "fs_read n t = ([], u)" "\<not> fs_good u"
    using fs_read_fst [of t n] fs_read_good [of n t] t(2,3) n by (cases "fs_read n t") simp
  note rows = bin_rows_full [OF assms(1,2)]
  have "bin_loop n (ApplyFilter rx args) ?seg out t =
      Some (out @ env_text (map (ApplyFilter rx args) rows))" for out
    by (subst bin_loop.simps) (simp add: u rows Let_def)
  then show ?thesis
    unfolding BinToText_def by (subst bin_loop.simps) (simp add: t len assms(4) rows Let_def)
qed

end
