(* ===== verification/Fcb_Gen.thy ===== *)
theory Fcb_Gen
  imports Regi_Stream
begin

text \<open>
  The control block from which the boot ROM learns where the boot loader is in the NAND memory
  (imx-fcb-gen/fcb_gen.cpp): words at fixed addresses, the most significant byte first, in a
  block of zeros.  \<open>Lit2Big\<close> is not called and shifts by negative amounts; it is left out.
\<close>

definition kFCBSizeKb :: u32 where "kFCBSizeKb = 4"
definition kPageSizeKb :: u32 where "kPageSizeKb = 4"
definition kImagePage :: u32 where
  "kImagePage = (kFCBSizeKb div kPageSizeKb) * (kPageSizeKb * 1024)"

definition fcb_entries :: "(u32 \<times> u32) list" where
  "fcb_entries =
     [(0x00, 0x00000000), (0x04, 0x46434220), (0x08, 0x01000000), (0x68, kImagePage),
      (0x6C, kImagePage), (0x78, 0x00000000), (0x7C, 0x00000000), (0xAC, 0x00000000),
      (0xB0, 0x00000000)]"

definition put_entry :: "u32 \<times> u32 \<Rightarrow> byte list \<Rightarrow> byte list" where
  "put_entry = (\<lambda>(addr, val) img.
     (if length img \<le> unat (addr + 3) then img
      else img[unat addr := ucast (drop_bit 24 val), unat addr + 1 := ucast (drop_bit 16 val),
               unat addr + 2 := ucast (drop_bit 8 val), unat addr + 3 := ucast val]))"

definition fcbimage :: "byte list" where
  "fcbimage = fold put_entry fcb_entries (replicate (unat (kFCBSizeKb * 1024) + 0x400) 0)"

text \<open>The status is that of the process; \<open>writable\<close> says whether the file can be opened.\<close>

definition fcb_main :: "bool \<Rightarrow> files \<Rightarrow> int \<times> files" where
  "fcb_main writable files = (if \<not> writable then (- 1, files) else (0, files(''fcb.bin'' \<mapsto> fcbimage)))"

section \<open>The fields\<close>

definition be32 :: "u32 \<Rightarrow> byte list" where
  "be32 w = [ucast (drop_bit 24 w), ucast (drop_bit 16 w), ucast (drop_bit 8 w), ucast w]"

definition entry_at :: "u32 \<times> u32 \<Rightarrow> nat" where
  "entry_at e = unat (fst e)"

lemma put_entry_overwrite:
  assumes "unat (fst e) + 3 < 2 ^ 32" "unat (fst e) + 4 \<le> length img"
  shows "put_entry e img = overwrite img (entry_at e) (be32 (snd e))"
proof -
  have "unat (fst e + 3) = unat (fst e) + 3" using assms(1) by (simp add: unat_word_ariths)
  moreover have "img[n := a, n + 1 := b, n + 2 := c, n + 3 := d] = overwrite img n [a, b, c, d]"
    if "n + 4 \<le> length img" for n a b c and d :: byte
    using that overwrite_Cons [of n img a "[b, c, d]"] overwrite_Cons [of "n + 1" "img[n := a]" b "[c, d]"]
      overwrite_Cons [of "n + 2" "img[n := a, n + 1 := b]" c "[d]"]
      overwrite_Cons [of "n + 3" "img[n := a, n + 1 := b, n + 2 := c]" d "[]"]
    by (simp add: numeral_3_eq_3)
  ultimately show ?thesis
    using assms(2) by (cases e) (simp add: put_entry_def be32_def entry_at_def)
qed

text \<open>Entries that fit and do not overlap.\<close>

fun apart :: "(u32 \<times> u32) list \<Rightarrow> nat \<Rightarrow> bool" where
  "apart [] n \<longleftrightarrow> True"
| "apart (e # es) n \<longleftrightarrow> entry_at e + 4 \<le> n \<and>
     list_all (\<lambda>e'. entry_at e + 4 \<le> entry_at e' \<or> entry_at e' + 4 \<le> entry_at e) es \<and> apart es n"

lemma fold_put_entry:
  assumes "apart es (length img)" "length img < 2 ^ 32" "i < length img"
  shows "length (fold put_entry es img) = length img \<and>
    (\<forall>e \<in> set es. entry_at e \<le> i \<longrightarrow> i < entry_at e + 4 \<longrightarrow>
       fold put_entry es img ! i = be32 (snd e) ! (i - entry_at e)) \<and>
    ((\<forall>e \<in> set es. i < entry_at e \<or> entry_at e + 4 \<le> i) \<longrightarrow> fold put_entry es img ! i = img ! i)"
  using assms
proof (induction es arbitrary: img)
  case (Cons e es)
  define img' where "img' = overwrite img (entry_at e) (be32 (snd e))"
  have l4: "length (be32 w) = 4" for w by (simp add: be32_def)
  have p: "put_entry e img = img'"
    unfolding img'_def using Cons.prems by (intro put_entry_overwrite) (simp_all add: entry_at_def)
  have l: "length img' = length img" using Cons.prems(1) l4 by (simp add: img'_def)
  have n: "img' ! i = (if entry_at e \<le> i \<and> i < entry_at e + 4 then be32 (snd e) ! (i - entry_at e) else img ! i)"
    using nth_overwrite [of "entry_at e" "be32 (snd e)" img i] Cons.prems l4 by (simp add: img'_def)
  have far: "\<forall>e' \<in> set es. i < entry_at e' \<or> entry_at e' + 4 \<le> i" if "entry_at e \<le> i" "i < entry_at e + 4"
    using Cons.prems(1) that by (fastforce simp: list_all_iff)
  from Cons.IH [of img'] Cons.prems l have
    IH: "length (fold put_entry es img') = length img"
      "\<forall>e \<in> set es. entry_at e \<le> i \<longrightarrow> i < entry_at e + 4 \<longrightarrow>
         fold put_entry es img' ! i = be32 (snd e) ! (i - entry_at e)"
      "(\<forall>e \<in> set es. i < entry_at e \<or> entry_at e + 4 \<le> i) \<longrightarrow> fold put_entry es img' ! i = img' ! i"
    by simp_all
  show ?case
    using IH n far by (auto simp: p)
qed simp

lemma fcb_apart: "apart fcb_entries 5120"
  by (simp add: fcb_entries_def entry_at_def)

text \<open>C40: the block that is written has every word of the table at its address, the most
  significant byte first, and zeros everywhere else.\<close>

theorem fcb_fields:
  "fst (fcb_main True files) = 0 \<and> (\<exists>img. snd (fcb_main True files) ''fcb.bin'' = Some img \<and> length img = 5120 \<and>
     (\<forall>i < 5120. img ! i =
        (case find (\<lambda>e. entry_at e \<le> i \<and> i < entry_at e + 4) fcb_entries of
           Some e \<Rightarrow> be32 (snd e) ! (i - entry_at e) | None \<Rightarrow> 0)))"
proof -
  let ?z = "replicate 5120 (0 :: byte)"
  have z: "replicate (unat (kFCBSizeKb * 1024) + 0x400) 0 = ?z" by (simp add: kFCBSizeKb_def)
  have f: "length fcbimage = 5120 \<and> fcbimage ! i =
      (case find (\<lambda>e. entry_at e \<le> i \<and> i < entry_at e + 4) fcb_entries of
         Some e \<Rightarrow> be32 (snd e) ! (i - entry_at e) | None \<Rightarrow> 0)" if i: "i < 5120" for i
  proof (cases "find (\<lambda>e. entry_at e \<le> i \<and> i < entry_at e + 4) fcb_entries")
    case None
    then have "\<forall>e \<in> set fcb_entries. i < entry_at e \<or> entry_at e + 4 \<le> i" by (fastforce simp: find_None_iff not_le not_less)
    with fold_put_entry [of fcb_entries ?z i] fcb_apart i None show ?thesis
      unfolding fcbimage_def z by simp
  next
    case (Some e)
    then have "e \<in> set fcb_entries" "entry_at e \<le> i" "i < entry_at e + 4" by (auto simp: find_Some_iff in_set_conv_nth)
    with fold_put_entry [of fcb_entries ?z i] fcb_apart i Some show ?thesis
      unfolding fcbimage_def z by simp
  qed
  from f [of 0] f show ?thesis by (simp add: fcb_main_def)
qed

theorem fcb_fields_witness:
  "\<exists>img. snd (fcb_main True Map.empty) ''fcb.bin'' = Some img \<and> img ! 4 = 0x46 \<and> img ! 5 = 0x43 \<and> img ! 12 = 0"
proof -
  obtain img where img: "snd (fcb_main True Map.empty) ''fcb.bin'' = Some img"
    and fields: "\<And>i. i < 5120 \<Longrightarrow> img ! i =
      (case find (\<lambda>e. entry_at e \<le> i \<and> i < entry_at e + 4) fcb_entries of
         Some e \<Rightarrow> be32 (snd e) ! (i - entry_at e) | None \<Rightarrow> 0)"
    using fcb_fields [of Map.empty] by blast
  have "img ! 4 = 0x46" "img ! 5 = 0x43" "img ! 12 = 0"
    using fields [of 4] fields [of 5] fields [of 12]
    by (simp_all add: fcb_entries_def entry_at_def be32_def)
  with img show ?thesis by blast
qed

end
