(* ===== verification/Rfb_Frame.thy ===== *)
theory Rfb_Frame
  imports Regi_Prelude
begin

text \<open>
  The picture of the screen (regirfb/framebuf.cpp): the frame buffer of the device is reduced to
  256 colours and put behind the header of a bitmap file, in one of two buffers while the other
  is being sent.

  The conversion is written for the vector unit of the processor: eight pixels at a time are
  read with their colours apart, weighted, added up in 16 bits and cut to the upper 8.  Reading
  or writing outside of a buffer is \<open>None\<close>.
\<close>

unbundle bit_operations_syntax

section \<open>Colours\<close>

record RGBQuad =
  q_r :: byte
  q_g :: byte
  q_b :: byte
  q_reserved :: byte

definition kRGBWeight :: "byte list" where
  "kRGBWeight = [28, 151, 77]"

text \<open>The constructor without arguments counts in a byte; the other one is given blue first.\<close>

definition grey_quad :: "byte \<Rightarrow> RGBQuad \<times> byte" where
  "grey_quad iter = (\<lparr>q_r = iter, q_g = iter, q_b = iter, q_reserved = 0\<rparr>, iter + 1)"

definition new_quad :: "byte \<Rightarrow> byte \<Rightarrow> byte \<Rightarrow> RGBQuad" where
  "new_quad b g r = \<lparr>q_r = r, q_g = g, q_b = b, q_reserved = 0\<rparr>"

definition quad_bytes :: "RGBQuad \<Rightarrow> byte list" where
  "quad_bytes q = [q_r q, q_g q, q_b q, q_reserved q]"

text \<open>The colours of a pixel in memory; the fourth byte stays.\<close>

definition quad_assign :: "byte list \<Rightarrow> RGBQuad \<Rightarrow> RGBQuad option" where
  "quad_assign bm q =
     (if length bm < 3 then None else Some (q\<lparr>q_r := bm ! 0, q_g := bm ! 1, q_b := bm ! 2\<rparr>))"

definition GetId :: "RGBQuad \<Rightarrow> byte" where
  "GetId q =
     ucast (drop_bit 8 (ucast (q_r q) * ucast (kRGBWeight ! 0) + ucast (q_g q) * ucast (kRGBWeight ! 1) +
                        ucast (q_b q) * ucast (kRGBWeight ! 2) :: u32))"

definition kPaletteColors :: nat where
  "kPaletteColors = 256"

definition kColors :: "RGBQuad list" where
  "kColors =
     [new_quad 0 0 0, new_quad 255 255 255, new_quad 189 195 199, new_quad 236 240 241,
      new_quad 127 140 141, new_quad 149 165 166, new_quad 225 225 225, new_quad 150 75 0,
      new_quad 231 76 60, new_quad 225 129 128, new_quad 255 153 0, new_quad 255 218 0,
      new_quad 255 255 156, new_quad 85 187 119, new_quad 153 255 119, new_quad 41 128 185,
      new_quad 0 191 255, new_quad 210 0 255, new_quad 199 103 219, new_quad 52 73 94,
      new_quad 44 62 80, new_quad 99 225 255, new_quad 246 165 0]"

text \<open>The array of a new \<open>Screen\<close>, and the colours put over it.\<close>

fun grey_quads :: "nat \<Rightarrow> byte \<Rightarrow> RGBQuad list" where
  "grey_quads 0 iter = []"
| "grey_quads (Suc n) iter = (let (q, iter) = grey_quad iter in q # grey_quads n iter)"

definition GeneratePalette :: "RGBQuad list \<Rightarrow> RGBQuad list" where
  "GeneratePalette pal = fold (\<lambda>c pal. pal[unat (GetId c) := c]) kColors pal"

section \<open>The conversion\<close>

text \<open>\<open>vmull.u8\<close>, two times \<open>vmlal.u8\<close>, \<open>vshrn.u16\<close>.\<close>

definition lane :: "byte \<Rightarrow> byte \<Rightarrow> byte \<Rightarrow> byte" where
  "lane d0 d1 d2 =
     (let q = ucast d0 * ucast (kRGBWeight ! 0) :: u16;
          q = q + ucast d1 * ucast (kRGBWeight ! 1);
          q = q + ucast d2 * ucast (kRGBWeight ! 2)
      in ucast (drop_bit 8 q))"

text \<open>One turn: \<open>stride\<close> bytes a pixel, \<open>so\<close> and \<open>d\<close> the registers with the addresses.\<close>

fun conv_loop :: "nat \<Rightarrow> nat \<Rightarrow> byte list \<Rightarrow> nat \<Rightarrow> byte list \<Rightarrow> nat \<Rightarrow> byte list option" where
  "conv_loop stride 0 src so dst d = Some dst"
| "conv_loop stride (Suc n) src so dst d =
     (case mem_read src so (8 * stride) of
        None \<Rightarrow> None
      | Some v \<Rightarrow>
          (if length dst < d + 8 then None
           else conv_loop stride n src (so + 8 * stride)
                  (overwrite dst d (map (\<lambda>i. lane (v ! (stride * i)) (v ! (stride * i + 1))
                                              (v ! (stride * i + 2))) [0..<8])) (d + 8)))"

text \<open>The counter is decreased before it is compared with zero: from 0 it goes all the way round.\<close>

definition conv_turns :: "u32 \<Rightarrow> nat" where
  "conv_turns body_sz = (let n = unat (drop_bit 3 body_sz) in if n = 0 then 2 ^ 32 else n)"

definition Convert24ToPalette :: "byte list \<Rightarrow> nat \<Rightarrow> byte list \<Rightarrow> u32 \<Rightarrow> byte list option" where
  "Convert24ToPalette dst d src body_sz =
     (if body_sz = 0 then Some dst else conv_loop 3 (conv_turns body_sz) src 0 dst d)"

definition Convert32ToPalette :: "byte list \<Rightarrow> nat \<Rightarrow> byte list \<Rightarrow> u32 \<Rightarrow> byte list option" where
  "Convert32ToPalette dst d src body_sz =
     (if body_sz = 0 then Some dst else conv_loop 4 (conv_turns body_sz) src 0 dst d)"

section \<open>The screen\<close>

text \<open>
  \<open>sc_static\<close> are the constants of \<open>PrepareBMPFrame\<close> that keep the value of the first call.
  \<open>sc_size\<close> has the 32 bits of the \<open>int\<close> \<open>_size\<close>, which is negative from 2 GiB on.
  What the memory of the device shows is an argument of the functions that read it.
\<close>

record Screen =
  sc_width :: u32
  sc_height :: u32
  sc_depth :: byte
  sc_size :: u32
  sc_frame_0 :: "byte list"
  sc_frame_1 :: "byte list"
  sc_size_0 :: u32
  sc_size_1 :: u32
  sc_frame_off :: u32
  sc_palette :: "RGBQuad list"
  sc_cur_frame :: byte
  sc_static :: "(u32 \<times> u32 \<times> byte) option"

definition new_Screen :: Screen where
  "new_Screen =
     \<lparr>sc_width = 0, sc_height = 0, sc_depth = 0, sc_size = 0, sc_frame_0 = [], sc_frame_1 = [],
      sc_size_0 = 0, sc_size_1 = 0, sc_frame_off = 0,
      sc_palette = GeneratePalette (grey_quads kPaletteColors 0), sc_cur_frame = 0, sc_static = None\<rparr>"

text \<open>A screen of a given size has the palette of its constructors, without the colours of \<open>kColors\<close>; \<open>it\<close>
  is the number of quads that were made before.\<close>

definition new_Screen_of :: "byte \<Rightarrow> u32 \<Rightarrow> u32 \<Rightarrow> byte \<Rightarrow> Screen" where
  "new_Screen_of it w h d =
     new_Screen\<lparr>sc_width := w, sc_height := h, sc_depth := d, sc_palette := grey_quads kPaletteColors it\<rparr>"

text \<open>What the device answers: width, height and bits of a pixel, or an error.\<close>

type_synonym VideoMode = "(u32 \<times> u32 \<times> u32) option"

definition GetVideoMode :: "VideoMode \<Rightarrow> Screen \<Rightarrow> bool \<times> Screen" where
  "GetVideoMode m s =
     (case m of
        None \<Rightarrow> (False, s)
      | Some (w, h, bits) \<Rightarrow>
          (True, s\<lparr>sc_width := w, sc_height := h, sc_depth := ucast (bits div 8)\<rparr>))"

fun try_modes :: "nat \<Rightarrow> (nat \<Rightarrow> VideoMode) \<Rightarrow> nat \<Rightarrow> Screen \<Rightarrow> bool \<times> Screen" where
  "try_modes 0 modes try_n s = (False, s)"
| "try_modes (Suc n) modes try_n s =
     (let (_, s) = GetVideoMode (modes try_n) s in
      if sc_depth s \<noteq> 3 \<and> sc_depth s \<noteq> 4 then try_modes n modes (try_n + 1) s else (True, s))"

definition UnBind :: "Screen \<Rightarrow> Screen" where
  "UnBind s = (if sc_size s = 0 then s else s\<lparr>sc_size := 0\<rparr>)"

text \<open>
  \<open>new Byte[_size + 1024]\<close>: the sum is an \<open>int\<close>, which must not overflow; a negative one throws.
  \<open>garbage\<close> is what the new buffers hold, without end.
\<close>

definition new_bytes :: "(nat \<Rightarrow> byte) \<Rightarrow> u32 \<Rightarrow> stop + byte list" where
  "new_bytes garbage sz =
     (let n = sint sz + 1024 in
      if 2 ^ 31 \<le> n then Inl OutOfRange
      else if n < 0 then Inl Thrown
      else Inr (map garbage [0..<nat n]))"

definition BindToFbDev :: "(nat \<Rightarrow> VideoMode) \<Rightarrow> (nat \<Rightarrow> byte) \<Rightarrow> Screen \<Rightarrow> stop + (bool \<times> Screen)" where
  "BindToFbDev modes garbage s =
     (let (ok, s) = try_modes 29 modes 1 (UnBind s) in
      if \<not> ok then Inr (False, s)
      else (let s = s\<lparr>sc_size := sc_width s * sc_height s * ucast (sc_depth s)\<rparr> in
            case new_bytes garbage (sc_size s) of
              Inl x \<Rightarrow> Inl x
            | Inr buf \<Rightarrow> Inr (True, s\<lparr>sc_frame_0 := buf, sc_frame_1 := buf\<rparr>)))"

definition GetNextFrameId :: "Screen \<Rightarrow> byte" where
  "GetNextFrameId s = (if sc_cur_frame s = 0 then 1 else 0)"

text \<open>The two statements of \<open>SwitchToNextFrame\<close>.\<close>

definition count_frame :: "Screen \<Rightarrow> Screen" where
  "count_frame s = s\<lparr>sc_cur_frame := sc_cur_frame s + 1\<rparr>"

definition wrap_frame :: "Screen \<Rightarrow> Screen" where
  "wrap_frame s = (if sc_cur_frame s > 1 then s\<lparr>sc_cur_frame := 0\<rparr> else s)"

definition SwitchToNextFrame :: "Screen \<Rightarrow> Screen" where
  "SwitchToNextFrame s = wrap_frame (count_frame s)"

text \<open>There are two frames; the one of the number \<open>sc_cur_frame\<close>, if there is one of that number.\<close>

definition GetFrame :: "Screen \<Rightarrow> (byte list \<times> u32) option" where
  "GetFrame s =
     (if sc_cur_frame s = 0 then Some (sc_frame_0 s, sc_size_0 s)
      else if sc_cur_frame s = 1 then Some (sc_frame_1 s, sc_size_1 s) else None)"

definition GetFrameData :: "Screen \<Rightarrow> byte list option" where
  "GetFrameData s = map_option fst (GetFrame s)"

definition GetFrameSize :: "Screen \<Rightarrow> u32 option" where
  "GetFrameSize s = map_option snd (GetFrame s)"

definition frame_data :: "byte \<Rightarrow> Screen \<Rightarrow> byte list" where
  "frame_data i s = (if i = 0 then sc_frame_0 s else sc_frame_1 s)"

definition set_frame :: "byte \<Rightarrow> byte list \<Rightarrow> Screen \<Rightarrow> Screen" where
  "set_frame i bs s = (if i = 0 then s\<lparr>sc_frame_0 := bs\<rparr> else s\<lparr>sc_frame_1 := bs\<rparr>)"

definition set_frame_size :: "byte \<Rightarrow> u32 \<Rightarrow> Screen \<Rightarrow> Screen" where
  "set_frame_size i n s = (if i = 0 then s\<lparr>sc_size_0 := n\<rparr> else s\<lparr>sc_size_1 := n\<rparr>)"

section \<open>The bitmap\<close>

definition Header_Size :: u32 where "Header_Size = 14"
definition Info_Size :: u32 where "Info_Size = 40"
definition kHeadSize :: u32 where "kHeadSize = Header_Size + Info_Size"
definition kPaletteSize :: u32 where "kPaletteSize = 1024"

definition bmp_header :: "u32 \<Rightarrow> byte list" where
  "bmp_header kBodySize =
     le16 (0x42 OR push_bit 8 0x4D) @ le32 (kHeadSize + kPaletteSize + kBodySize) @ le16 0 @ le16 0 @
     le32 (kHeadSize + kPaletteSize)"

definition bmp_info :: "u32 \<Rightarrow> u32 \<Rightarrow> byte \<Rightarrow> u32 \<Rightarrow> byte list" where
  "bmp_info kWidth kHeight kDepth kBodySize =
     le32 Info_Size @ le32 kWidth @ le32 (kHeight * (- 1)) @ le16 1 @ le16 (ucast kDepth * 8) @
     le32 0 @ le32 kBodySize @ le32 0 @ le32 0 @ le32 kPaletteSize @ le32 0"

definition copy_to :: "nat \<Rightarrow> byte list \<Rightarrow> byte list \<Rightarrow> byte list option" where
  "copy_to off src dst = (if off + length src \<le> length dst then Some (overwrite dst off src) else None)"

text \<open>\<open>PrepareBMPFrame\<close> up to the switch, and all of it.\<close>

definition fill_frame :: "byte \<Rightarrow> byte list \<Rightarrow> Screen \<Rightarrow> (bool \<times> Screen) option" where
  "fill_frame kBmpDepth fb s =
     (let consts = (case sc_static s of None \<Rightarrow> (sc_width s, sc_height s, kBmpDepth) | Some c \<Rightarrow> c);
          (kWidth, kHeight, kDepth) = consts;
          s = s\<lparr>sc_static := Some consts\<rparr>;
          kBodySize = kWidth * ucast kDepth * kHeight;
          nxt = GetNextFrameId s;
          head = bmp_header kBodySize @ bmp_info kWidth kHeight kDepth kBodySize @
                 concat (map quad_bytes (sc_palette s));
          dst_row = unat (kHeadSize + kPaletteSize)
      in case copy_to 0 head (frame_data nxt s) of
           None \<Rightarrow> None
         | Some buf \<Rightarrow>
             (if sc_depth s \<noteq> 3 \<and> sc_depth s \<noteq> 4 then Some (False, set_frame nxt buf s)
              else (case (if sc_depth s = 3 then Convert24ToPalette buf dst_row fb kBodySize
                          else Convert32ToPalette buf dst_row fb kBodySize) of
                      None \<Rightarrow> None
                    | Some buf \<Rightarrow>
                        (let off = kHeadSize + kPaletteSize + kBodySize in
                         Some (True, set_frame_size nxt off
                                       (set_frame nxt buf (s\<lparr>sc_frame_off := off\<rparr>)))))))"

definition PrepareBMPFrame :: "byte \<Rightarrow> byte list \<Rightarrow> Screen \<Rightarrow> (bool \<times> Screen) option" where
  "PrepareBMPFrame kBmpDepth fb s =
     (case fill_frame kBmpDepth fb s of
        None \<Rightarrow> None
      | Some (ok, s) \<Rightarrow> Some (ok, if ok then SwitchToNextFrame s else s))"

section \<open>Weights\<close>

text \<open>The sum of the weights is 256, so that nothing overflows, and both sums are the same.\<close>

definition grey :: "byte \<Rightarrow> byte \<Rightarrow> byte \<Rightarrow> nat" where
  "grey a b c = (28 * unat a + 151 * unat b + 77 * unat c) div 256"

lemma weighted:
  "28 * unat (a :: byte) + 151 * unat (b :: byte) + 77 * unat (c :: byte) \<le> 65280"
  using unat_lt [of a] unat_lt [of b] unat_lt [of c] by simp

lemma upper_byte:
  assumes "unat (w :: 'a :: len word) \<le> 65535"
  shows "unat (ucast (drop_bit 8 w) :: byte) = unat w div 256"
proof -
  have "unat w div 256 < 256" using assms by simp
  then show ?thesis
    unfolding unsigned_ucast_eq unat_drop_bit_eq by (simp add: drop_bit_eq_div take_bit_eq_mod)
qed

lemma unat_lane: "unat (lane a b c) = grey a b c"
proof -
  have "unat (ucast a * 28 + ucast b * 151 + ucast c * 77 :: u16) =
      28 * unat a + 151 * unat b + 77 * unat c"
    using weighted [of a b c] by (simp add: unat_word_ariths unsigned_ucast_eq take_bit_eq_mod)
  then show ?thesis
    using weighted [of a b c] upper_byte [of "ucast a * 28 + ucast b * 151 + ucast c * 77 :: u16"]
    by (simp add: lane_def kRGBWeight_def grey_def Let_def)
qed

lemma unat_GetId: "unat (GetId q) = grey (q_r q) (q_g q) (q_b q)"
proof -
  let ?w = "ucast (q_r q) * 28 + ucast (q_g q) * 151 + ucast (q_b q) * 77 :: u32"
  have "unat ?w = 28 * unat (q_r q) + 151 * unat (q_g q) + 77 * unat (q_b q)"
    using weighted [of "q_r q" "q_g q" "q_b q"]
    by (simp add: unat_word_ariths unsigned_ucast_eq take_bit_eq_mod)
  then show ?thesis
    using weighted [of "q_r q" "q_g q" "q_b q"] upper_byte [of ?w]
    by (simp add: GetId_def kRGBWeight_def grey_def)
qed

lemma lane_GetId: "lane (q_r q) (q_g q) (q_b q) = GetId q"
  by (simp add: word_unat_eq_iff unat_lane unat_GetId)


section \<open>The pixels\<close>

definition pixel :: "nat \<Rightarrow> byte list \<Rightarrow> nat \<Rightarrow> RGBQuad" where
  "pixel stride fb i = \<lparr>q_r = fb ! (stride * i), q_g = fb ! (stride * i + 1), q_b = fb ! (stride * i + 2),
     q_reserved = 0\<rparr>"

lemma overwrite_append:
  "off + length xs + length ys \<le> length dst \<Longrightarrow>
   overwrite (overwrite dst off xs) (off + length xs) ys = overwrite dst off (xs @ ys)"
  by (simp add: overwrite_def add.commute add.left_commute)

lemma conv_loop_pixels:
  assumes "3 \<le> stride" "stride * (8 * (k + n)) \<le> length src" "d + 8 * n \<le> length dst"
  shows "conv_loop stride n src (stride * (8 * k)) dst d =
    Some (overwrite dst d (map (\<lambda>i. GetId (pixel stride src i)) [8 * k..<8 * (k + n)]))"
  using assms
proof (induction n arbitrary: k dst d)
  case (Suc n)
  let ?so = "stride * (8 * k)" and ?f = "\<lambda>i. GetId (pixel stride src i)"
  have le: "?so + 8 * stride \<le> length src" using Suc.prems(2) by (simp add: algebra_simps)
  define v where "v = take (8 * stride) (drop ?so src)"
  have r: "mem_read src ?so (8 * stride) = Some v" using le by (simp add: mem_read_def v_def)
  have "v ! (stride * i + j) = src ! (stride * (8 * k + i) + j)" if "i < 8" "j < 3" for i j
  proof -
    have "stride * i + j < stride * (i + 1)" using that(2) Suc.prems(1) by simp
    also have "\<dots> \<le> stride * 8" using that(1) by (intro mult_le_mono) simp_all
    finally show ?thesis using le by (simp add: v_def algebra_simps)
  qed
  from this [of _ 0] this [of _ 1] this [of _ 2]
  have "map (\<lambda>i. lane (v ! (stride * i)) (v ! (stride * i + 1)) (v ! (stride * i + 2))) [0..<8] =
      map (\<lambda>i. ?f (8 * k + i)) [0..<8]"
    by (intro map_cong refl) (simp add: pixel_def lane_GetId [symmetric])
  also have "\<dots> = map ?f [8 * k..<8 * k + 8]"
    by (rule nth_equalityI) simp_all
  finally have step: "conv_loop stride (Suc n) src ?so dst d =
      conv_loop stride n src (stride * (8 * (k + 1))) (overwrite dst d (map ?f [8 * k..<8 * k + 8])) (d + 8)"
    using Suc.prems(3) r by (simp add: algebra_simps)
  have l: "length (overwrite dst d (map ?f [8 * k..<8 * k + 8])) = length dst"
    using Suc.prems(3) by (intro length_overwrite) simp
  have "conv_loop stride n src (stride * (8 * (k + 1))) (overwrite dst d (map ?f [8 * k..<8 * k + 8])) (d + 8) =
      Some (overwrite (overwrite dst d (map ?f [8 * k..<8 * k + 8])) (d + 8)
        (map ?f [8 * (k + 1)..<8 * (k + 1 + n)]))"
    using Suc.prems l by (intro Suc.IH) simp_all
  also have "\<dots> = Some (overwrite dst d (map ?f ([8 * k..<8 * k + 8] @ [8 * (k + 1)..<8 * (k + 1 + n)])))"
    using overwrite_append [of d "map ?f [8 * k..<8 * k + 8]" "map ?f [8 * (k + 1)..<8 * (k + 1 + n)]" dst]
      Suc.prems(3) by simp
  also have "[8 * k..<8 * k + 8] @ [8 * (k + 1)..<8 * (k + 1 + n)] = [8 * k..<8 * (k + Suc n)]"
    using upt_add_eq_append [of "8 * k" "8 * k + 8" "8 * n"] by (simp add: algebra_simps)
  finally show ?case using step by simp
qed simp

section \<open>The palette\<close>

lemma length_fold_update: "length (fold (\<lambda>c pal. pal[f c := c]) cs pal) = length pal"
  by (induction cs arbitrary: pal) simp_all

lemma nth_fold_update:
  assumes "distinct (map f cs)" "c \<in> set cs" "f c < length pal"
  shows "fold (\<lambda>c pal. pal[f c := c]) cs pal ! f c = c"
  using assms
proof (induction cs arbitrary: pal)
  case (Cons a cs)
  have "fold (\<lambda>c pal. pal[f c := c]) cs pal' ! f a = pal' ! f a" if "f a \<notin> f ` set cs" for pal'
    using that by (induction cs arbitrary: pal') auto
  with Cons show ?case by auto
qed simp

lemma length_grey_quads [simp]: "length (grey_quads n iter) = n"
  by (induction n arbitrary: iter) (simp_all add: grey_quad_def)

lemma kColors_ids: "distinct (map (\<lambda>c. unat (GetId c)) kColors)"
  by (simp add: kColors_def new_quad_def unat_GetId grey_def)

lemma palette_colors:
  assumes "c \<in> set kColors"
  shows "sc_palette new_Screen ! unat (GetId c) = c"
  using nth_fold_update [OF kColors_ids assms, of "grey_quads kPaletteColors 0"] unat_lt [of "GetId c"]
  by (simp add: new_Screen_def GeneratePalette_def kPaletteColors_def)


section \<open>A whole picture\<close>

lemma length_quads: "length (concat (map quad_bytes qs)) = 4 * length qs"
  by (induction qs) (simp_all add: quad_bytes_def)

lemma length_header: "length (bmp_header n) = 14" "length (bmp_info w h d n) = 40"
  by (simp_all add: bmp_header_def bmp_info_def)

lemma conv_whole:
  assumes "8 dvd n" "0 < n" "n < 2 ^ 32" "3 \<le> stride" "stride * n \<le> length fb" "d + n \<le> length dst"
  shows "conv_loop stride (conv_turns (word_of_nat n)) fb 0 dst d =
    Some (overwrite dst d (map (\<lambda>i. GetId (pixel stride fb i)) [0..<n]))"
proof -
  obtain m where m: "n = 8 * m" using assms(1) by blast
  have "unat (word_of_nat n :: u32) = n" using assms(3) by (simp add: unat_of_nat take_bit_eq_mod)
  then have "unat (drop_bit 3 (word_of_nat n :: u32)) = m"
    unfolding unat_drop_bit_eq by (simp add: m drop_bit_eq_div)
  then have "conv_turns (word_of_nat n) = m" using assms(2) m by (simp add: conv_turns_def)
  then show ?thesis using conv_loop_pixels [of stride 0 m fb d dst] assms(4-6) m by simp
qed

text \<open>A picture of \<open>w\<close> times \<open>h\<close> pixels as the file that shows it.\<close>

definition bmp_file :: "RGBQuad list \<Rightarrow> nat \<Rightarrow> nat \<Rightarrow> byte list \<Rightarrow> byte list" where
  "bmp_file pal w h ids =
     bmp_header (word_of_nat (w * h)) @ bmp_info (word_of_nat w) (word_of_nat h) 1 (word_of_nat (w * h)) @
     concat (map quad_bytes pal) @ ids"

text \<open>A screen that is bound to a device of this size, before its first picture or after some.\<close>

definition bound :: "nat \<Rightarrow> nat \<Rightarrow> nat \<Rightarrow> Screen \<Rightarrow> bool" where
  "bound w h d s \<longleftrightarrow> (d = 3 \<or> d = 4) \<and> w * h * d < 2 ^ 32 \<and> 54 \<le> w * h \<and>
     sc_width s = word_of_nat w \<and> sc_height s = word_of_nat h \<and> sc_depth s = word_of_nat d \<and>
     length (sc_frame_0 s) = w * h * d + 1024 \<and> length (sc_frame_1 s) = w * h * d + 1024 \<and>
     length (sc_palette s) = kPaletteColors \<and>
     (sc_static s = None \<or> sc_static s = Some (word_of_nat w, word_of_nat h, 1)) \<and> sc_cur_frame s \<le> 1"

lemma word_cases_01: "(c :: byte) \<le> 1 \<Longrightarrow> c = 0 \<or> c = 1"
  by (simp add: word_le_nat_alt word_unat_eq_iff) linarith

lemma word_of_nat_nonzero: "0 < n \<Longrightarrow> n < 2 ^ 32 \<Longrightarrow> (word_of_nat n :: u32) \<noteq> 0"
  by (simp add: word_unat_eq_iff unat_of_nat take_bit_eq_mod)

text \<open>A frame that holds a picture.\<close>

definition frame_size :: "byte \<Rightarrow> Screen \<Rightarrow> u32" where
  "frame_size i s = (if i = 0 then sc_size_0 s else sc_size_1 s)"

lemma frame_of_others [simp]:
  "frame_data i (set_frame j bs s) = (if (i = 0) = (j = 0) then bs else frame_data i s)"
  "frame_size i (set_frame j bs s) = frame_size i s"
  "frame_data i (set_frame_size j n s) = frame_data i s"
  "frame_size i (set_frame_size j n s) = (if (i = 0) = (j = 0) then n else frame_size i s)"
  "frame_data i (s\<lparr>sc_frame_off := off\<rparr>) = frame_data i s" "frame_size i (s\<lparr>sc_frame_off := off\<rparr>) = frame_size i s"
  "frame_data i (s\<lparr>sc_static := st\<rparr>) = frame_data i s" "frame_size i (s\<lparr>sc_static := st\<rparr>) = frame_size i s"
  "frame_data i (s\<lparr>sc_cur_frame := c\<rparr>) = frame_data i s" "frame_size i (s\<lparr>sc_cur_frame := c\<rparr>) = frame_size i s"
  by (simp_all add: frame_data_def frame_size_def set_frame_def set_frame_size_def)

lemma frame_kept [simp]:
  "sc_palette (set_frame j bs s) = sc_palette s" "sc_palette (set_frame_size j n s) = sc_palette s"
  "sc_cur_frame (set_frame j bs s) = sc_cur_frame s" "sc_cur_frame (set_frame_size j n s) = sc_cur_frame s"
  by (simp_all add: set_frame_def set_frame_size_def)

lemma bound_changes [simp]:
  "bound w h d (set_frame_size j n s) \<longleftrightarrow> bound w h d s"
  "bound w h d (s\<lparr>sc_frame_off := off\<rparr>) \<longleftrightarrow> bound w h d s"
  by (simp_all add: bound_def set_frame_size_def)

lemma bound_set_frame:
  "bound w h d s \<Longrightarrow> length bs = w * h * d + 1024 \<Longrightarrow> bound w h d (set_frame j bs s)"
  by (simp add: bound_def set_frame_def)

definition picture_of :: "nat \<Rightarrow> nat \<Rightarrow> nat \<Rightarrow> RGBQuad list \<Rightarrow> byte list \<Rightarrow> byte list" where
  "picture_of w h d pal fb = bmp_file pal w h (map (\<lambda>i. GetId (pixel d fb i)) [0..<w * h])"

lemma converted_frame:
  assumes "d = 3 \<or> d = 4" "0 < N" "N < 2 ^ 32" "1078 + N \<le> length old" "length fb = N * d" "8 dvd N"
    and head: "length head = 1078"
  shows "\<exists>out. conv_loop d (conv_turns (word_of_nat N)) fb 0 (overwrite old 0 head) 1078 = Some out \<and>
    take (1078 + N) out = head @ map (\<lambda>i. GetId (pixel d fb i)) [0..<N] \<and> length out = length old"
proof -
  let ?buf = "overwrite old 0 head" and ?pix = "map (\<lambda>i. GetId (pixel d fb i)) [0..<N]"
  have "1078 \<le> length old" using assms(4) by linarith
  then have buf: "length ?buf = length old" using head by simp
  have "conv_loop d (conv_turns (word_of_nat N)) fb 0 ?buf 1078 = Some (overwrite ?buf 1078 ?pix)"
  proof (rule conv_whole)
    show "3 \<le> d" using assms(1) by auto
    show "d * N \<le> length fb" unfolding assms(5) by (simp only: mult.commute order_refl)
    show "1078 + N \<le> length ?buf" unfolding buf by (rule assms(4))
  qed (use assms in simp_all)
  then show ?thesis
    using take_overwrite [of 1078 ?pix ?buf] take_overwrite [of 0 head old] buf assms(4) head by simp
qed

lemma fill_frame_picture:
  assumes b: "bound w h d s" and fb: "length fb = w * h * d" and dvd: "8 dvd w * h"
  shows "\<exists>t. fill_frame 1 fb s = Some (True, t) \<and> bound w h d t \<and>
    take (1078 + w * h) (frame_data (GetNextFrameId s) t) = picture_of w h d (sc_palette s) fb \<and>
    frame_size (GetNextFrameId s) t = word_of_nat (1078 + w * h) \<and>
    frame_data (sc_cur_frame s) t = frame_data (sc_cur_frame s) s \<and>
    frame_size (sc_cur_frame s) t = frame_size (sc_cur_frame s) s \<and>
    sc_palette t = sc_palette s \<and> sc_cur_frame t = sc_cur_frame s"
proof -
  let ?N = "w * h" and ?pix = "map (\<lambda>i. GetId (pixel d fb i)) [0..<w * h]"
  have d: "d = 3 \<or> d = 4" "54 \<le> ?N" "?N * d < 2 ^ 32" using b by (simp_all add: bound_def)
  have small: "2 * ?N \<le> ?N * d" using d(1) by auto
  then have N: "?N < 2 ^ 32" using d(3) by linarith
  then have fit: "1078 + ?N \<le> ?N * d + 1024" "1078 \<le> ?N * d + 1024" using small d(2) by linarith+
  define head where "head = bmp_header (word_of_nat ?N) @ bmp_info (word_of_nat w) (word_of_nat h) 1 (word_of_nat ?N) @
    concat (map quad_bytes (sc_palette s))"
  have head: "length head = 1078"
    using b by (simp add: head_def length_header length_quads bound_def kPaletteColors_def)
  let ?nxt = "GetNextFrameId s" and ?old = "frame_data (GetNextFrameId s) s"
  have old: "length ?old = ?N * d + 1024" using b by (simp add: frame_data_def bound_def)
  define buf where "buf = overwrite ?old 0 head"
  have copy: "copy_to 0 head ?old = Some buf"
    using head old fit(2) by (simp add: copy_to_def buf_def)
  have "0 < ?N" "1078 + ?N \<le> length ?old" using d(2) fit(1) old by linarith+
  from converted_frame [OF d(1) this(1) N this(2) fb dvd head] old obtain out where
    conv: "conv_loop d (conv_turns (word_of_nat ?N)) fb 0 buf 1078 = Some out"
    and out: "take (1078 + ?N) out = head @ ?pix" "length out = ?N * d + 1024"
    unfolding buf_def by auto
  define off where "off = kHeadSize + kPaletteSize + word_of_nat ?N"
  have off: "off = word_of_nat (1078 + ?N)"
    by (simp add: off_def kHeadSize_def Header_Size_def Info_Size_def kPaletteSize_def)
  define s1 where "s1 = s\<lparr>sc_static := Some (word_of_nat w, word_of_nat h, 1)\<rparr>"
  define t where "t = set_frame_size ?nxt off (set_frame ?nxt out (s1\<lparr>sc_frame_off := off\<rparr>))"
  have stat: "(case sc_static s of None \<Rightarrow> (sc_width s, sc_height s, 1) | Some c \<Rightarrow> c) =
      (word_of_nat w, word_of_nat h, 1 :: byte)"
    using b by (auto simp: bound_def)
  have s1: "GetNextFrameId s1 = ?nxt" "frame_data ?nxt s1 = ?old" "sc_palette s1 = sc_palette s"
    "sc_depth s1 = word_of_nat d" "bound w h d s1" "sc_cur_frame s1 = sc_cur_frame s"
    using b by (simp_all add: s1_def GetNextFrameId_def bound_def)
  have row: "unat (kHeadSize + kPaletteSize) = 1078"
    by (simp add: kHeadSize_def Header_Size_def Info_Size_def kPaletteSize_def)
  have "word_of_nat ?N \<noteq> (0 :: u32)"
    by (rule word_of_nat_nonzero) (use N d(2) in linarith)+
  then have "(if sc_depth s1 = 3 then Convert24ToPalette buf 1078 fb (word_of_nat ?N)
      else Convert32ToPalette buf 1078 fb (word_of_nat ?N)) = Some out"
    using d(1) conv s1(4) by (auto simp: Convert24ToPalette_def Convert32ToPalette_def)
  moreover have "sc_depth s1 = 3 \<or> sc_depth s1 = 4" using d(1) s1(4) by auto
  ultimately have run: "fill_frame 1 fb s = Some (True, t)"
    unfolding fill_frame_def Let_def stat
    using s1 copy(1) row by (auto simp: s1_def [symmetric] head_def t_def off_def)
  have "(sc_cur_frame s = 0) \<noteq> (?nxt = 0)" by (simp add: GetNextFrameId_def)
  moreover have "bound w h d t"
    unfolding t_def using s1(5) out(2) by (simp add: bound_set_frame)
  moreover have "picture_of w h d (sc_palette s) fb = head @ ?pix"
    by (simp add: head_def bmp_file_def picture_of_def)
  ultimately show ?thesis using run out(1) off s1(3,6) by (simp add: t_def) (simp add: s1_def)
qed

lemma SwitchToNextFrame_next:
  assumes "sc_cur_frame s \<le> 1"
  shows "SwitchToNextFrame s = s\<lparr>sc_cur_frame := GetNextFrameId s\<rparr>"
  using word_cases_01 [OF assms]
  by (auto simp: SwitchToNextFrame_def wrap_frame_def count_frame_def GetNextFrameId_def)

lemma PrepareBMPFrame_picture:
  assumes b: "bound w h d s" and fb: "length fb = w * h * d" and dvd: "8 dvd w * h"
  shows "\<exists>t buf. PrepareBMPFrame 1 fb s = Some (True, t) \<and> bound w h d t \<and>
    GetFrame t = Some (buf, word_of_nat (1078 + w * h)) \<and>
    take (1078 + w * h) buf = picture_of w h d (sc_palette s) fb \<and>
    frame_data (sc_cur_frame s) t = frame_data (sc_cur_frame s) s \<and> sc_palette t = sc_palette s"
proof -
  from fill_frame_picture [OF assms] obtain t where t: "fill_frame 1 fb s = Some (True, t)" "bound w h d t"
    "take (1078 + w * h) (frame_data (GetNextFrameId s) t) = picture_of w h d (sc_palette s) fb"
    "frame_size (GetNextFrameId s) t = word_of_nat (1078 + w * h)"
    "frame_data (sc_cur_frame s) t = frame_data (sc_cur_frame s) s"
    "sc_palette t = sc_palette s" "sc_cur_frame t = sc_cur_frame s"
    by blast
  have c: "sc_cur_frame t \<le> 1" using t(2) by (simp add: bound_def)
  have n: "GetNextFrameId t = GetNextFrameId s" using t(7) by (simp add: GetNextFrameId_def)
  let ?u = "t\<lparr>sc_cur_frame := GetNextFrameId s\<rparr>"
  have "PrepareBMPFrame 1 fb s = Some (True, ?u)"
    by (simp add: PrepareBMPFrame_def t(1) SwitchToNextFrame_next [OF c] n)
  moreover have "GetFrame ?u = Some (frame_data (GetNextFrameId s) t, frame_size (GetNextFrameId s) t)"
    by (simp add: GetFrame_def frame_data_def frame_size_def GetNextFrameId_def)
  moreover have "bound w h d ?u"
    using t(2) by (simp add: bound_def GetNextFrameId_def)
  ultimately show ?thesis using t by simp
qed

text \<open>C29: a picture that is taken is a bitmap file of the size of the screen in which every pixel
  has the number that the weights of its colours give; it is written completely into the buffer
  that is not being sent, which afterwards is the one that will be.\<close>

theorem frame_shows_screen:
  assumes "bound w h d s" "length fb = w * h * d" "8 dvd w * h"
  shows "\<exists>t buf. PrepareBMPFrame 1 fb s = Some (True, t) \<and> bound w h d t \<and>
    GetFrame t = Some (buf, word_of_nat (1078 + w * h)) \<and>
    take (1078 + w * h) buf =
      bmp_file (sc_palette s) w h
        (map (\<lambda>i. word_of_nat (grey (fb ! (d * i)) (fb ! (d * i + 1)) (fb ! (d * i + 2)))) [0..<w * h]) \<and>
    frame_data (sc_cur_frame s) t = frame_data (sc_cur_frame s) s"
proof -
  have "GetId p = word_of_nat (grey (q_r p) (q_g p) (q_b p))" for p
    unfolding unat_GetId [symmetric] by simp
  then have "GetId (pixel d fb i) = word_of_nat (grey (fb ! (d * i)) (fb ! (d * i + 1)) (fb ! (d * i + 2)))" for i
    by (simp add: pixel_def)
  with PrepareBMPFrame_picture [OF assms] show ?thesis unfolding picture_of_def by fastforce
qed

text \<open>Binding a screen whose size is an \<open>int\<close>; it does not throw if the buffers can be made.\<close>

lemma sint_of_nat32: "n < 2 ^ 31 \<Longrightarrow> sint (word_of_nat n :: u32) = int n"
  using sint_sbintrunc' [where 'a = 32, of "int n"] by (simp add: signed_take_bit_int_eq_self)

lemma BindToFbDev_run:
  assumes "modes 1 = Some (word_of_nat w, word_of_nat h, word_of_nat (8 * d))"
    "d = 3 \<or> d = 4" "w * h * d < 2 ^ 31"
  shows "BindToFbDev modes garbage new_Screen =
    (if w * h * d + 1024 < 2 ^ 31
     then (let buf = map garbage [0..<w * h * d + 1024] in
           Inr (True, new_Screen\<lparr>sc_width := word_of_nat w, sc_height := word_of_nat h, sc_depth := word_of_nat d,
             sc_size := word_of_nat (w * h * d), sc_frame_0 := buf, sc_frame_1 := buf\<rparr>))
     else Inl OutOfRange)"
proof -
  let ?s = "new_Screen\<lparr>sc_width := word_of_nat w, sc_height := word_of_nat h, sc_depth := word_of_nat d\<rparr>"
  have "ucast (word_of_nat (8 * d) div 8 :: u32) = (word_of_nat d :: byte)" using assms(2) by auto
  then have t: "try_modes 29 modes 1 (UnBind new_Screen) = (True, ?s)"
    using assms(1,2) try_modes.simps(2) [of 28 modes 1 "UnBind new_Screen"]
    by (auto simp: GetVideoMode_def UnBind_def new_Screen_def)
  have size: "word_of_nat w * word_of_nat h * ucast (word_of_nat d :: byte) = (word_of_nat (w * h * d) :: u32)"
    using assms(2) by auto
  have "new_bytes garbage (word_of_nat (w * h * d)) =
      (if w * h * d + 1024 < 2 ^ 31 then Inr (map garbage [0..<w * h * d + 1024]) else Inl OutOfRange)"
    unfolding new_bytes_def Let_def sint_of_nat32 [OF assms(3)] by (auto simp: nat_add_distrib simp del: of_nat_mult)
  with t size show ?thesis by (simp add: BindToFbDev_def Let_def)
qed

lemma BindToFbDev_bound:
  assumes "modes 1 = Some (word_of_nat w, word_of_nat h, word_of_nat (8 * d))"
    "d = 3 \<or> d = 4" "w * h * d < 2 ^ 31" "54 \<le> w * h"
    and "BindToFbDev modes garbage new_Screen = Inr (ok, s)"
  shows "ok" "bound w h d s" "sc_palette s = sc_palette new_Screen" "unat (sc_size s) = w * h * d"
    "sc_size_0 s = 0" "sc_size_1 s = 0" "sc_cur_frame s = 0"
proof -
  let ?buf = "map garbage [0..<w * h * d + 1024]"
  have s: "ok" "s = new_Screen\<lparr>sc_width := word_of_nat w, sc_height := word_of_nat h, sc_depth := word_of_nat d,
      sc_size := word_of_nat (w * h * d), sc_frame_0 := ?buf, sc_frame_1 := ?buf\<rparr>"
    using assms(5) unfolding BindToFbDev_run [of modes w h d garbage, OF assms(1-3)] Let_def by (auto split: if_splits)
  show "ok" by (rule s(1))
  show "unat (sc_size s) = w * h * d"
    using assms(3) unfolding s(2) by (simp add: unat_of_nat take_bit_eq_mod del: of_nat_mult)
  show "bound w h d s" "sc_palette s = sc_palette new_Screen" "sc_size_0 s = 0" "sc_size_1 s = 0" "sc_cur_frame s = 0"
    using assms(2-4) by (auto simp: s(2) bound_def new_Screen_def GeneratePalette_def length_fold_update)
qed

text \<open>A screen of 2 GiB or more is not bound: the size of its buffers is negative.\<close>

lemma large_screen_throws: "sint sz < - 1024 \<Longrightarrow> new_bytes garbage sz = Inl Thrown"
  by (simp add: new_bytes_def)

text \<open>A screen that shows only colours of the palette is shown without a loss: looking the
  numbers of the picture up in its palette gives every pixel back.\<close>

theorem palette_colors_are_lossless:
  assumes "bound w h d s" "length fb = w * h * d" "8 dvd w * h"
    and "sc_palette s = sc_palette new_Screen" "\<forall>i < w * h. pixel d fb i \<in> set kColors"
  shows "\<exists>t buf n. PrepareBMPFrame 1 fb s = Some (True, t) \<and> GetFrame t = Some (buf, n) \<and>
    (\<forall>i < w * h. sc_palette t ! unat (buf ! (1078 + i)) = pixel d fb i)"
proof -
  let ?ids = "map (\<lambda>i. GetId (pixel d fb i)) [0..<w * h]"
  obtain t buf where t: "PrepareBMPFrame 1 fb s = Some (True, t)" "sc_palette t = sc_palette s"
    "take (1078 + w * h) buf = bmp_file (sc_palette s) w h ?ids"
    "GetFrame t = Some (buf, word_of_nat (1078 + w * h))"
    using PrepareBMPFrame_picture [OF assms(1-3)] unfolding picture_of_def by blast
  have "buf ! (1078 + i) = GetId (pixel d fb i)" if "i < w * h" for i
  proof -
    have "buf ! (1078 + i) = bmp_file (sc_palette s) w h ?ids ! (1078 + i)"
      using that by (simp add: t(3) [symmetric])
    also have "\<dots> = ?ids ! i"
      using assms(1) by (simp add: bmp_file_def nth_append length_header length_quads bound_def kPaletteColors_def)
    finally show ?thesis using that by simp
  qed
  with t(1,2,4) assms(4,5) palette_colors show ?thesis by auto
qed

definition small_screen :: Screen where
  "small_screen = (case BindToFbDev (\<lambda>_. Some (8, 8, 24)) (\<lambda>_. 0) new_Screen of Inr (_, s) \<Rightarrow> s | Inl _ \<Rightarrow> new_Screen)"

lemma small_bound: "BindToFbDev (\<lambda>_. Some (8, 8, 24)) (\<lambda>_. 0) new_Screen = Inr (True, small_screen)"
  using BindToFbDev_run [of "\<lambda>_. Some (8, 8, 24)" 8 8 3 "\<lambda>_. 0"] by (simp add: small_screen_def Let_def)

lemma small_screen: "bound 8 8 3 small_screen" "sc_palette small_screen = sc_palette new_Screen"
  using BindToFbDev_bound(2,3) [of "\<lambda>_. Some (8, 8, 24)" 8 8 3, OF _ _ _ _ small_bound] by simp_all

theorem frame_shows_screen_witness:
  "\<exists>t buf. PrepareBMPFrame 1 (concat (replicate 64 [255, 0, 1])) small_screen = Some (True, t) \<and>
     GetFrame t = Some (buf, 1142) \<and> take 1142 buf = bmp_file (sc_palette small_screen) 8 8 (replicate 64 28)"
proof -
  let ?fb = "concat (replicate 64 [255, 0, 1 :: byte])"
  have len: "length (concat (replicate n [255, 0, 1 :: byte])) = n * 3" for n by (induction n) simp_all
  have nth: "i < n \<Longrightarrow> concat (replicate n [255, 0, 1 :: byte]) ! (3 * i + j) = [255, 0, 1] ! j" if "j < 3" for i j n
  proof (induction n arbitrary: i)
    case (Suc n)
    show ?case
    proof (cases i)
      case 0
      from that consider "j = 0" | "j = 1" | "j = 2" by linarith
      then show ?thesis using 0 by cases simp_all
    next
      case (Suc k)
      then show ?thesis using Suc.IH [of k] Suc.prems by (simp add: nth_append)
    qed
  qed simp
  have ids: "map (\<lambda>i. word_of_nat (grey (?fb ! (3 * i)) (?fb ! (3 * i + 1)) (?fb ! (3 * i + 2)))) [0..<8 * 8] =
      replicate 64 (28 :: byte)"
    by (rule nth_equalityI) (use nth [of 0 _ 64] nth [of 1 _ 64] nth [of 2 _ 64] in \<open>simp_all add: grey_def\<close>)
  from frame_shows_screen [OF small_screen(1), of ?fb] len [of 64] show ?thesis unfolding ids by auto
qed

theorem palette_colors_are_lossless_witness:
  "\<exists>t buf n. PrepareBMPFrame 1 (replicate 192 255) small_screen = Some (True, t) \<and> GetFrame t = Some (buf, n) \<and>
     (\<forall>i < 8 * 8. sc_palette t ! unat (buf ! (1078 + i)) = pixel 3 (replicate 192 255) i)"
proof (rule palette_colors_are_lossless [OF small_screen(1) _ _ small_screen(2)])
  show "\<forall>i < 8 * 8. pixel 3 (replicate 192 255) i \<in> set kColors"
    by (simp add: pixel_def kColors_def new_quad_def)
qed simp_all

end
