(* ===== verification/Rfb_Info.thy ===== *)
theory Rfb_Info
  imports Regi_Stream
begin

text \<open>
  What the server of the screen says of the device (regirfb/main.cpp, \<open>GetDeviceInfo\<close>): the words of
  the command line of the kernel, and the text in JSON made of them.  The values are not escaped.
\<close>

section \<open>What the device is\<close>

definition JsonPair :: "string \<Rightarrow> string \<Rightarrow> string" where
  "JsonPair name val = ''\"'' @ name @ ''\": \"'' @ val @ ''\"''"

text \<open>\<open>std::string::find\<close>.\<close>

fun find_text :: "string \<Rightarrow> string \<Rightarrow> nat option" where
  "find_text pat [] = (if pat = [] then Some 0 else None)"
| "find_text pat (c # cs) =
     (if take (length pat) (c # cs) = pat then Some 0 else map_option Suc (find_text pat cs))"

definition is_space :: "byte \<Rightarrow> bool" where
  "is_space b \<longleftrightarrow> b = 0x20 \<or> 9 \<le> b \<and> b \<le> 13"

text \<open>\<open>stream >> arg\<close>: where only spaces are left, \<open>arg\<close> keeps its value.\<close>

definition get_word :: "FStream \<Rightarrow> string \<Rightarrow> string \<times> FStream" where
  "get_word s arg =
     (let rest = dropWhile is_space (fs_rest s); word = takeWhile (Not \<circ> is_space) rest
      in if rest = [] then (arg, s\<lparr>fs_pos := length (fs_data s), fs_good := False\<rparr>)
         else (to_string word,
               s\<lparr>fs_pos := fs_pos s + (length (fs_rest s) - length rest) + length word,
                 fs_good := length word < length rest\<rparr>))"

definition is_vertical :: "string \<Rightarrow> bool" where
  "is_vertical arg \<longleftrightarrow> find_text ''lcd='' arg \<noteq> None \<and> find_text ''_VERTICAL'' arg \<noteq> None"

definition info_word :: "string \<Rightarrow> string \<times> string \<Rightarrow> string \<times> string" where
  "info_word arg = (\<lambda>(display_orientation, board_id).
     (if is_vertical arg then (''vertical'', board_id)
      else case find_text ''board='' arg of
             Some arg_off \<Rightarrow> (display_orientation, drop (arg_off + 6) arg)
           | None \<Rightarrow> (display_orientation, board_id)))"

lemma drop_shorter: "drop (length xs - length (dropWhile P xs)) xs = dropWhile P xs"
  by (simp add: dropWhile_eq_drop length_takeWhile_le)

lemma fs_rest_get_word:
  "fs_rest (snd (get_word s arg)) = dropWhile (Not \<circ> is_space) (dropWhile is_space (fs_rest s))"
proof (cases "dropWhile is_space (fs_rest s) = []")
  case False
  let ?r = "dropWhile is_space (fs_rest s)" and ?k = "length (fs_rest s) - length (dropWhile is_space (fs_rest s))"
  let ?w = "takeWhile (Not \<circ> is_space) ?r"
  have "drop (fs_pos s + ?k + length ?w) (fs_data s) = drop (length ?w) (drop ?k (fs_rest s))"
    unfolding fs_rest_def drop_drop by (simp only: ac_simps)
  then show ?thesis
    using False by (simp add: get_word_def Let_def fs_rest_def [of "s\<lparr>fs_pos := _, fs_good := _\<rparr>"]
        drop_shorter dropWhile_eq_drop [symmetric] del: dropWhile_eq_Nil_conv)
qed (simp add: get_word_def Let_def fs_rest_def del: dropWhile_eq_Nil_conv)

lemma get_word_rest:
  assumes "fs_good (snd (get_word s arg))"
  shows "length (fs_rest (snd (get_word s arg))) < length (fs_rest s)"
proof -
  let ?r = "dropWhile is_space (fs_rest s)"
  have r: "?r \<noteq> []" using assms by (auto simp: get_word_def Let_def simp del: dropWhile_eq_Nil_conv)
  then have "length (dropWhile (Not \<circ> is_space) ?r) < length ?r"
    using hd_dropWhile [OF r] length_dropWhile_le [of "Not \<circ> is_space" "tl ?r"] by (cases ?r) auto
  also have "\<dots> \<le> length (fs_rest s)" by (rule length_dropWhile_le)
  finally show ?thesis by (simp add: fs_rest_get_word)
qed

function info_loop :: "string \<Rightarrow> string \<times> string \<Rightarrow> FStream \<Rightarrow> string \<times> string" where
  "info_loop cmdline_arg found s =
     (if \<not> fs_good s then found
      else (let (arg, t) = get_word s cmdline_arg in info_loop arg (info_word arg found) t))"
  by pat_completeness auto
termination
  by (relation "measure (\<lambda>(arg, found, s). if fs_good s then Suc (length (fs_rest s)) else 0)")
    (auto dest: get_word_rest simp: prod_eq_iff)

declare info_loop.simps [simp del]

definition info_json :: "string \<times> string \<Rightarrow> string" where
  "info_json = (\<lambda>(display_orientation, board_id).
     ''{'' @ ''\"display\": {'' @ JsonPair ''orientation'' display_orientation @ ''},'' @
     ''\"board\": {'' @ JsonPair ''id'' board_id @ ''}'' @ ''}'')"

definition GetDeviceInfo :: "files \<Rightarrow> string" where
  "GetDeviceInfo files =
     info_json (info_loop '''' (''horizontal'', ''x.x.x'') (fs_opened files ''/proc/cmdline''))"

text \<open>The words of the command line, and what follows each.\<close>

definition has_text :: "string \<Rightarrow> string \<Rightarrow> bool" where
  "has_text pat s \<longleftrightarrow> (\<exists>a b. s = a @ pat @ b)"

lemma find_text_has: "find_text pat s \<noteq> None \<longleftrightarrow> has_text pat s"
proof (induction s)
  case Nil
  then show ?case by (simp add: has_text_def)
next
  case (Cons c cs)
  have "take (length pat) s = pat \<longleftrightarrow> (\<exists>b. s = pat @ b)" for s :: string
    by (metis append_eq_conv_conj)
  moreover have "has_text pat (c # cs) \<longleftrightarrow> (\<exists>b. c # cs = pat @ b) \<or> has_text pat cs"
    unfolding has_text_def by (metis append_Cons append_Nil append_eq_Cons_conv)
  ultimately show ?case using Cons by simp
qed

definition word_ok :: "string \<times> byte list \<Rightarrow> bool" where
  "word_ok = (\<lambda>(w, sp). w \<noteq> [] \<and> list_all (Not \<circ> is_space) (of_string w) \<and> sp \<noteq> [] \<and> list_all is_space sp)"

definition cmdline :: "(string \<times> byte list) list \<Rightarrow> byte list" where
  "cmdline ps = concat (map (\<lambda>(w, sp). of_string w @ sp) ps)"

lemma info_word_again: "info_word w (info_word w found) = info_word w found"
  by (simp add: info_word_def split: prod.split option.split)

lemma info_word_empty: "info_word '''' found = found"
  by (simp add: info_word_def is_vertical_def split: prod.split)

lemma get_word_next:
  assumes "list_all is_space gap" "word_ok (w, sp)" "fs_rest s = gap @ of_string w @ sp @ behind"
  shows "fst (get_word s arg) = w" "fs_good (snd (get_word s arg))"
    "\<exists>gap'. list_all is_space gap' \<and> fs_rest (snd (get_word s arg)) = gap' @ behind"
proof -
  have w: "of_string w \<noteq> []" "\<not> is_space (hd (of_string w))"
    and t: "\<forall>b \<in> set (of_string w). (Not \<circ> is_space) b" and sp: "sp \<noteq> []" "is_space (hd sp)"
    using assms(2) by (auto simp: word_ok_def list_all_iff of_string_def hd_map)
  have r: "dropWhile is_space (fs_rest s) = of_string w @ sp @ behind"
    unfolding assms(3) using assms(1) w by (cases "of_string w") (auto simp: dropWhile_append2 list_all_iff)
  have "takeWhile (Not \<circ> is_space) (of_string w @ sp @ behind) = of_string w"
    "dropWhile (Not \<circ> is_space) (of_string w @ sp @ behind) = sp @ behind"
    using t sp by (cases sp; simp add: takeWhile_append2 dropWhile_append2)+
  with r w(1) sp show "fst (get_word s arg) = w" "fs_good (snd (get_word s arg))"
    "\<exists>gap'. list_all is_space gap' \<and> fs_rest (snd (get_word s arg)) = gap' @ behind"
    using assms(2) by (auto simp: fs_rest_get_word word_ok_def) (auto simp: get_word_def Let_def)
qed

lemma info_loop_words:
  assumes "list_all word_ok ps" "list_all is_space gap" "fs_rest s = gap @ cmdline ps" "fs_good s"
  shows "info_loop arg found s = info_word (last (arg # map fst ps)) (fold info_word (map fst ps) found)"
  using assms
proof (induction ps arbitrary: arg found s gap)
  case Nil
  then have "get_word s arg = (arg, s\<lparr>fs_pos := length (fs_data s), fs_good := False\<rparr>)"
    by (simp add: get_word_def cmdline_def list_all_iff)
  with Nil.prems(4) show ?case
    by (subst info_loop.simps) (simp add: info_loop.simps [of _ _ "s\<lparr>fs_pos := _, fs_good := False\<rparr>"])
next
  case (Cons p ps)
  obtain w sp where p: "p = (w, sp)" by (cases p)
  have r: "fs_rest s = gap @ of_string w @ sp @ cmdline ps" using Cons.prems(3) p by (simp add: cmdline_def)
  obtain t where t: "get_word s arg = (w, t)" "fs_good t"
    and "\<exists>gap'. list_all is_space gap' \<and> fs_rest t = gap' @ cmdline ps"
    using get_word_next [OF Cons.prems(2) _ r, of arg] Cons.prems(1) p by (cases "get_word s arg") auto
  then obtain gap' where "list_all is_space gap'" "fs_rest t = gap' @ cmdline ps" by blast
  from Cons.IH [OF _ this t(2), of w "info_word w found"] Cons.prems(1)
  have "info_loop w (info_word w found) t = info_word (last (w # map fst ps)) (fold info_word (map fst (p # ps)) found)"
    using p by simp
  with t(1) Cons.prems(4) p show ?case by (subst info_loop.simps) simp
qed

lemma is_vertical_has: "is_vertical w \<longleftrightarrow> has_text ''lcd='' w \<and> has_text ''_VERTICAL'' w"
  by (simp add: is_vertical_def flip: find_text_has)

lemma fold_info_word:
  "fold info_word ws (orient, board) =
     ((if \<exists>w \<in> set ws. is_vertical w then ''vertical'' else orient),
      (case filter (\<lambda>w. \<not> is_vertical w \<and> has_text ''board='' w) ws of
         [] \<Rightarrow> board
       | found \<Rightarrow> drop (the (find_text ''board='' (last found)) + 6) (last found)))"
proof (induction ws arbitrary: orient board)
  case (Cons w ws)
  then show ?case
    using find_text_has [of "''board=''" w]
    by (auto simp: info_word_def split: option.split list.split)
qed simp

text \<open>C32: the description of the device: it stands upright if some word of the command line of the
  kernel is an \<open>lcd=\<close> word with \<open>_VERTICAL\<close>, and its number is what follows \<open>board=\<close> in the last
  of the other words that have it.\<close>

theorem device_info:
  assumes "files ''/proc/cmdline'' = Some (cmdline ps)" "list_all word_ok ps"
  shows "GetDeviceInfo files = info_json
    ((if \<exists>w \<in> fst ` set ps. has_text ''lcd='' w \<and> has_text ''_VERTICAL'' w then ''vertical'' else ''horizontal''),
     (case filter (\<lambda>w. \<not> (has_text ''lcd='' w \<and> has_text ''_VERTICAL'' w) \<and> has_text ''board='' w) (map fst ps) of
        [] \<Rightarrow> ''x.x.x''
      | found \<Rightarrow> drop (the (find_text ''board='' (last found)) + 6) (last found)))"
proof -
  let ?s = "fs_opened files ''/proc/cmdline''" and ?f = "(''horizontal'', ''x.x.x'')"
  have "info_loop '''' ?f ?s = info_word (last ('''' # map fst ps)) (fold info_word (map fst ps) ?f)"
    by (rule info_loop_words [OF assms(2), of "[]"]) (simp_all add: fs_opened_def assms(1) fs_rest_def)
  also have "\<dots> = fold info_word (map fst ps) ?f"
  proof (cases ps rule: rev_cases)
    case (snoc qs q)
    then show ?thesis by (simp add: info_word_again)
  qed (simp add: info_word_empty)
  finally show ?thesis
    unfolding GetDeviceInfo_def fold_info_word is_vertical_has by simp
qed

theorem device_info_witness:
  "GetDeviceInfo [''/proc/cmdline'' \<mapsto> of_string ''lcd=LQ_VERTICAL board=7.1.9 quiet'' @ [0x0A]] =
   ''{\"display\": {\"orientation\": \"vertical\"},\"board\": {\"id\": \"7.1.9\"}}''"
proof -
  let ?ps = "[(''lcd=LQ_VERTICAL'', [0x20]), (''board=7.1.9'', [0x20]), (''quiet'', [0x0A :: byte])]"
  let ?files = "[''/proc/cmdline'' \<mapsto> cmdline ?ps]"
  have c: "cmdline ?ps = of_string ''lcd=LQ_VERTICAL board=7.1.9 quiet'' @ [0x0A]"
    by (simp add: cmdline_def of_string_def)
  have "list_all word_ok ?ps"
    by (simp add: word_ok_def is_space_def of_string_def)
  from device_info [OF _ this, of ?files]
  have "GetDeviceInfo ?files = info_json (''vertical'', ''7.1.9'')"
    by (simp add: find_text_has [symmetric])
  then show ?thesis unfolding c by (simp add: info_json_def JsonPair_def)
qed

end
