(* ===== verification/Rfb_Web.thy ===== *)
theory Rfb_Web
  imports Rfb_Frame Rfb_Info
begin

text \<open>
  The server that shows the screen and takes requests (regirfb/main.cpp, ipc.cpp).

  HTTP and the threads come from the library webapp: a request is the functions that look its
  arguments up, a response is the list of what the handler sets in it, and \<open>scr_future\<close> is the
  state of the task that was started last.  How many requests the library handles at a time is
  the parameter \<open>lim\<close> of \<open>web_reach\<close>, which interleaves their handlers and the task statement by
  statement where they share the frames.
  The memory of the screen may change while it is read: what a picture is made from is any bytes.
\<close>

section \<open>The server\<close>

text \<open>A message of the queue: the two arrays keep what earlier messages left in them.\<close>

record Message =
  ms_cmd :: "byte list"
  ms_result :: "byte list"

definition GetSize :: nat where
  "GetSize = 128 + 32"

text \<open>
  The task that \<open>scr_future\<close> stands for.  Its states between \<open>Converting\<close> and \<open>Ready\<close> are the
  places of \<open>PrepareFrame\<close> at which the frames are in a state of their own: before and after
  each of the two statements of \<open>SwitchToNextFrame\<close>.
\<close>

datatype ReqTask = Uninitialized | Converting | Filled | Counted | Pausing bool | Ready bool

text \<open>
  Where a handler is in \<open>SendFrame\<close>: not in it, after it has looked at the state of the task, before
  \<open>GetFrame\<close>, with the number and the size of the frame it got, or with what it read at a number that
  neither of the two frames has.
\<close>

datatype Handling = Idle | Looked bool | Asked | Got byte u32 | Outside byte

datatype Resp = SetStatus200 | SetType string | NoStore | RandomETag | SetBody "byte list"

text \<open>
  There is a handler for every request that is handled at the time.  The answers of \<open>SendFrame\<close> are kept with
  the number of the frame that was read.  \<open>gl_wild\<close>: two tasks were at work at once, or one wrote outside of its buffer.
\<close>

record Global =
  gl_screen :: Screen
  gl_static_dir :: string
  gl_task :: ReqTask
  gl_handling :: "nat \<Rightarrow> Handling"
  gl_answers :: "(byte \<times> Resp list) list"
  gl_wild :: bool
  gl_sent :: Message
  gl_queue :: "byte list list"
  gl_commands :: "string list"

definition new_Global :: Global where
  "new_Global =
     \<lparr>gl_screen = new_Screen, gl_static_dir = '''', gl_task = Uninitialized, gl_handling = (\<lambda>_. Idle),
      gl_answers = [], gl_wild = False, gl_sent = \<lparr>ms_cmd = replicate 128 0, ms_result = replicate 32 0\<rparr>,
      gl_queue = [], gl_commands = []\<rparr>"

text \<open>\<open>%i\<close>, and \<open>snprintf\<close> into an array of which \<open>n\<close> bytes may be used.\<close>

definition show_int :: "u32 \<Rightarrow> string" where
  "show_int x = (if sint x < 0 then ''-'' @ show_dec (nat (- sint x)) else show_dec (nat (sint x)))"

definition snprintf :: "nat \<Rightarrow> string \<Rightarrow> byte list \<Rightarrow> byte list" where
  "snprintf n s buf = overwrite buf 0 (of_string (take (n - 1) s) @ [0])"

definition coords_text :: "u32 \<Rightarrow> u32 \<Rightarrow> u32 \<Rightarrow> string" where
  "coords_text x y what =
     ''got coords; x='' @ show_int x @ '' y='' @ show_int y @ '' what='' @ show_int what"

text \<open>\<open>accepted\<close> says whether the queue takes the message.\<close>

definition SendNewCoords :: "bool \<Rightarrow> u32 \<Rightarrow> u32 \<Rightarrow> u32 \<Rightarrow> Global \<Rightarrow> bool \<times> Global" where
  "SendNewCoords accepted x y what g =
     (let m = gl_sent g;
          m = m\<lparr>ms_cmd := snprintf 128 (coords_text x y what) (ms_cmd m)\<rparr>;
          m = m\<lparr>ms_result := snprintf 5 ''OK'' (ms_result m)\<rparr>;
          g = g\<lparr>gl_sent := m\<rparr>
      in if accepted
         then (True, g\<lparr>gl_queue := gl_queue g @ [take GetSize (ms_cmd m @ ms_result m)]\<rparr>)
         else (False, g))"

text \<open>\<open>kRes\<close> is what \<open>system\<close> returns.\<close>

definition UpdateFirm :: "string \<Rightarrow> int \<Rightarrow> Global \<Rightarrow> bool \<times> Global" where
  "UpdateFirm url kRes g =
     (if length url = 0 then (False, g)
      else (kRes \<noteq> - 1,
            g\<lparr>gl_commands := gl_commands g @ [''/etc/init.d/S39gui update '' @ [CHR 0x27] @ url @ [CHR 0x27]]\<rparr>))"

record Request =
  rq_Get :: "string \<Rightarrow> string"
  rq_Get_int :: "string \<Rightarrow> u32 \<Rightarrow> u32"

definition Update ::
  "bool \<Rightarrow> int \<Rightarrow> string list \<Rightarrow> Request \<Rightarrow> Resp list \<Rightarrow> Global \<Rightarrow> bool \<times> Resp list \<times> Global" where
  "Update accepted kRes path request response g =
     (if length path = 0 then (False, response, g)
      else (let g = (if path ! 0 = ''mouse''
                     then (let x = rq_Get_int request ''x'' 0; y = rq_Get_int request ''y'' 0;
                               state = rq_Get_int request ''s'' 0
                           in if state = 1 then snd (SendNewCoords accepted x y state g) else g)
                     else g);
                g = (if path ! 0 = ''firmware'' then snd (UpdateFirm (rq_Get request ''from'') kRes g) else g)
            in (True, response @ [SetStatus200], g)))"

definition SendState :: "files \<Rightarrow> Resp list \<Rightarrow> bool \<times> Resp list" where
  "SendState files response = (True, response @ [SetBody (of_string (GetDeviceInfo files))])"

text \<open>
  The time in nanoseconds is computed with the \<open>long\<close> of the board, which has 32 bits and is
  taken to go around, and is extended to 64 bits with its sign.
\<close>

definition clock_ns :: "u32 \<Rightarrow> u32 \<Rightarrow> 64 word" where
  "clock_ns tv_sec tv_nsec = scast (tv_sec * 1000000000 + tv_nsec)"

definition GetMSec :: "u32 \<Rightarrow> u32 \<Rightarrow> 64 word" where
  "GetMSec tv_sec tv_usec = scast (tv_sec * 1000 + tv_usec div 1000)"

text \<open>Whether a quarter of a second is over since the last frame, and the time of the last frame.\<close>

definition FrameTimeout :: "u32 \<times> u32 \<Rightarrow> 64 word \<Rightarrow> bool \<times> 64 word" where
  "FrameTimeout new_tm last_up =
     (let kNewTime = clock_ns (fst new_tm) (snd new_tm)
      in if kNewTime - last_up < 250000000 then (False, last_up) else (True, kNewTime))"

definition frame_pause :: "64 word \<Rightarrow> 64 word \<Rightarrow> 64 word option" where
  "frame_pause kFromTime kToTime =
     (let kPeriod = 250000000; kDiff = kToTime - kFromTime
      in if kDiff < kPeriod then Some ((kPeriod - kDiff) div 1000) else None)"

text \<open>The task as a whole: what it returns, and how long it sleeps.\<close>

definition PrepareFrame ::
  "u32 \<times> u32 \<Rightarrow> u32 \<times> u32 \<Rightarrow> byte list \<Rightarrow> Screen \<Rightarrow> (bool \<times> 64 word option \<times> Screen) option" where
  "PrepareFrame from_tm to_tm fb s =
     (case PrepareBMPFrame 1 fb s of
        None \<Rightarrow> None
      | Some (kRes, s) \<Rightarrow>
          Some (kRes, frame_pause (clock_ns (fst from_tm) (snd from_tm)) (clock_ns (fst to_tm) (snd to_tm)), s))"

text \<open>
  The statements of \<open>SendFrame\<close> that use what it shares with the task and with other handlers, for the
  handler \<open>k\<close>.  Between looking at the state of the task and starting one another handler may have started one.
\<close>

definition is_free :: "ReqTask \<Rightarrow> bool" where
  "is_free t = (case t of Uninitialized \<Rightarrow> True | Ready _ \<Rightarrow> True | _ \<Rightarrow> False)"

lemma is_free_simps [simp]:
  "is_free Uninitialized" "\<not> is_free Converting" "\<not> is_free Filled" "\<not> is_free Counted"
  "\<not> is_free (Pausing ok)" "is_free (Ready ok)"
  by (simp_all add: is_free_def)

definition SendFrame_look :: "nat \<Rightarrow> Global \<Rightarrow> Global" where
  "SendFrame_look k g = g\<lparr>gl_handling := (gl_handling g)(k := Looked (is_free (gl_task g)))\<rparr>"

definition SendFrame_start :: "nat \<Rightarrow> bool \<Rightarrow> Global \<Rightarrow> Global" where
  "SendFrame_start k b g =
     (let g = g\<lparr>gl_handling := (gl_handling g)(k := Asked)\<rparr> in
      if \<not> b then g
      else if is_free (gl_task g) then g\<lparr>gl_task := Converting\<rparr>
      else g\<lparr>gl_wild := True\<rparr>)"

definition SendFrame_frame :: "nat \<Rightarrow> Global \<Rightarrow> Global" where
  "SendFrame_frame k g =
     g\<lparr>gl_handling := (gl_handling g)(k :=
         (case GetFrame (gl_screen g) of
            None \<Rightarrow> Outside (sc_cur_frame (gl_screen g))
          | Some (_, n) \<Rightarrow> Got (sc_cur_frame (gl_screen g)) n))\<rparr>"

definition SendFrame_answer :: "nat \<Rightarrow> byte \<Rightarrow> byte list \<Rightarrow> Global \<Rightarrow> Global" where
  "SendFrame_answer k i body g =
     g\<lparr>gl_handling := (gl_handling g)(k := Idle),
       gl_answers := gl_answers g @ [(i, [SetType ''bmp'', NoStore, RandomETag, SetBody body])]\<rparr>"

definition SendFrame_end :: "nat \<Rightarrow> byte \<Rightarrow> u32 \<Rightarrow> Global \<Rightarrow> Global" where
  "SendFrame_end k i n g =
     (case mem_read (frame_data i (gl_screen g)) 0 (unat n) of
        None \<Rightarrow> g\<lparr>gl_wild := True\<rparr>
      | Some body \<Rightarrow> SendFrame_answer k i body g)"

text \<open>Where in the task the conversion is done; \<open>None\<close> where it left the buffer.\<close>

definition Task_fill :: "byte list \<Rightarrow> Global \<Rightarrow> bool \<times> Global" where
  "Task_fill fb g =
     (case fill_frame 1 fb (gl_screen g) of
        None \<Rightarrow> (False, g\<lparr>gl_wild := True\<rparr>)
      | Some (ok, s) \<Rightarrow> (ok, g\<lparr>gl_screen := s, gl_task := (if ok then Filled else Pausing False)\<rparr>))"

text \<open>\<open>given\<close> are the options; nothing if the description was asked for.\<close>

definition rfb_ParseArguments :: "bool \<Rightarrow> (string \<rightharpoonup> string) \<Rightarrow> Global \<Rightarrow> bool \<times> Global" where
  "rfb_ParseArguments help given g =
     (if help then (False, g)
      else (True, g\<lparr>gl_static_dir :=
        (case given ''static'' of Some d \<Rightarrow> d | None \<Rightarrow> ''/var/www/data'')\<rparr>))"

datatype Handler = hUpdate | hSendState | hSendFrame

definition kHandlers :: "(string \<times> Handler) list" where
  "kHandlers = [(''/action/update'', hUpdate), (''/request/state.json'', hSendState),
                (''/request/frame.bmp'', hSendFrame)]"

text \<open>
  The program until it serves, which it then does without end: how it ended, or the server.
  \<open>qid\<close> is what \<open>msgget\<close> returns.
\<close>

definition InitIPC :: "int \<Rightarrow> bool" where
  "InitIPC qid \<longleftrightarrow> qid \<noteq> - 1"

datatype rfb_end = Exit nat | Stopped stop

definition rfb_main ::
  "bool \<Rightarrow> (string \<rightharpoonup> string) \<Rightarrow> (nat \<Rightarrow> VideoMode) \<Rightarrow> (nat \<Rightarrow> byte) \<Rightarrow> int \<Rightarrow> rfb_end + Global" where
  "rfb_main help given modes garbage qid =
     (let (ok, g) = rfb_ParseArguments help given new_Global
      in if \<not> ok then Inl (Exit 0)
         else (case BindToFbDev modes garbage (gl_screen g) of
                 Inl x \<Rightarrow> Inl (Stopped x)
               | Inr (ok, s) \<Rightarrow>
                   (let g = g\<lparr>gl_screen := s\<rparr>
                    in if \<not> ok then Inl (Exit 1) else if \<not> InitIPC qid then Inl (Exit 1) else Inr g)))"

section \<open>The handlers and the task\<close>

text \<open>
  The states that up to \<open>lim\<close> handlers and the task come through, with the memory that the pictures
  were made from.  After a state with \<open>gl_wild\<close> nothing is known.  A handler that has read outside
  of the frames answers with any bytes, if at all.
\<close>

inductive web_reach :: "nat \<Rightarrow> Global \<Rightarrow> byte list list \<Rightarrow> Global \<Rightarrow> bool" for lim g0 where
  start: "web_reach lim g0 [] g0"
| request: "web_reach lim g0 fbs g \<Longrightarrow> \<not> gl_wild g \<Longrightarrow> k < lim \<Longrightarrow> gl_handling g k = Idle \<Longrightarrow>
    web_reach lim g0 fbs (SendFrame_look k g)"
| decide: "web_reach lim g0 fbs g \<Longrightarrow> \<not> gl_wild g \<Longrightarrow> gl_handling g k = Looked b \<Longrightarrow>
    web_reach lim g0 fbs (SendFrame_start k b g)"
| frame: "web_reach lim g0 fbs g \<Longrightarrow> \<not> gl_wild g \<Longrightarrow> gl_handling g k = Asked \<Longrightarrow>
    web_reach lim g0 fbs (SendFrame_frame k g)"
| answer: "web_reach lim g0 fbs g \<Longrightarrow> \<not> gl_wild g \<Longrightarrow> gl_handling g k = Got i n \<Longrightarrow>
    web_reach lim g0 fbs (SendFrame_end k i n g)"
| stray: "web_reach lim g0 fbs g \<Longrightarrow> \<not> gl_wild g \<Longrightarrow> gl_handling g k = Outside i \<Longrightarrow>
    web_reach lim g0 fbs (SendFrame_answer k i body g)"
| update: "web_reach lim g0 fbs g \<Longrightarrow> \<not> gl_wild g \<Longrightarrow> k < lim \<Longrightarrow> gl_handling g k = Idle \<Longrightarrow>
    Update accepted kRes path rq response g = (ok, response', g') \<Longrightarrow> web_reach lim g0 fbs g'"
| partly: "web_reach lim g0 fbs g \<Longrightarrow> \<not> gl_wild g \<Longrightarrow> gl_task g = Converting \<Longrightarrow>
    length bs = length (frame_data (GetNextFrameId (gl_screen g)) (gl_screen g)) \<Longrightarrow>
    web_reach lim g0 fbs (g\<lparr>gl_screen := set_frame (GetNextFrameId (gl_screen g)) bs (gl_screen g)\<rparr>)"
| fill: "web_reach lim g0 fbs g \<Longrightarrow> \<not> gl_wild g \<Longrightarrow> gl_task g = Converting \<Longrightarrow>
    length fb = unat (sc_size (gl_screen g)) \<Longrightarrow> Task_fill fb g = (ok, g') \<Longrightarrow>
    web_reach lim g0 (if ok then fbs @ [fb] else fbs) g'"
| count: "web_reach lim g0 fbs g \<Longrightarrow> \<not> gl_wild g \<Longrightarrow> gl_task g = Filled \<Longrightarrow>
    web_reach lim g0 fbs (g\<lparr>gl_screen := count_frame (gl_screen g), gl_task := Counted\<rparr>)"
| wrap: "web_reach lim g0 fbs g \<Longrightarrow> \<not> gl_wild g \<Longrightarrow> gl_task g = Counted \<Longrightarrow>
    web_reach lim g0 fbs (g\<lparr>gl_screen := wrap_frame (gl_screen g), gl_task := Pausing True\<rparr>)"
| rest: "web_reach lim g0 fbs g \<Longrightarrow> \<not> gl_wild g \<Longrightarrow> gl_task g = Pausing ok \<Longrightarrow>
    web_reach lim g0 fbs (g\<lparr>gl_task := Ready ok\<rparr>)"

text \<open>
  What holds of the frames while one request is handled at a time: except for the one that is being
  filled, each is empty or shows a picture that was taken, and the frame that the handler has got
  stays as it is.
\<close>

definition holds_picture ::
  "nat \<Rightarrow> nat \<Rightarrow> nat \<Rightarrow> RGBQuad list \<Rightarrow> byte list list \<Rightarrow> byte \<Rightarrow> u32 \<Rightarrow> Screen \<Rightarrow> bool" where
  "holds_picture w h d pal fbs i n s \<longleftrightarrow> n = 0 \<or> n = word_of_nat (1078 + w * h) \<and>
     (\<exists>fb \<in> set fbs. take (1078 + w * h) (frame_data i s) = picture_of w h d pal fb)"

definition frame_ok ::
  "nat \<Rightarrow> nat \<Rightarrow> nat \<Rightarrow> RGBQuad list \<Rightarrow> byte list list \<Rightarrow> byte \<Rightarrow> Screen \<Rightarrow> bool" where
  "frame_ok w h d pal fbs i s \<longleftrightarrow> holds_picture w h d pal fbs i (frame_size i s) s"

definition answer_ok ::
  "nat \<Rightarrow> nat \<Rightarrow> nat \<Rightarrow> RGBQuad list \<Rightarrow> byte list list \<Rightarrow> Resp list \<Rightarrow> bool" where
  "answer_ok w h d pal fbs r \<longleftrightarrow> (\<exists>body. r = [SetType ''bmp'', NoStore, RandomETag, SetBody body] \<and>
     (body = [] \<or> (\<exists>fb \<in> set fbs. body = picture_of w h d pal fb)))"

definition same_frame :: "byte \<Rightarrow> byte \<Rightarrow> bool" where
  "same_frame i j \<longleftrightarrow> (i = 0 \<longleftrightarrow> j = 0)"

definition screen_ok :: "nat \<Rightarrow> nat \<Rightarrow> nat \<Rightarrow> RGBQuad list \<Rightarrow> Screen \<Rightarrow> bool" where
  "screen_ok w h d pal s \<longleftrightarrow> bound w h d (s\<lparr>sc_cur_frame := 0\<rparr>) \<and> sc_palette s = pal \<and>
     unat (sc_size s) = w * h * d"

definition stray_ok ::
  "nat \<Rightarrow> nat \<Rightarrow> nat \<Rightarrow> RGBQuad list \<Rightarrow> byte list list \<Rightarrow> byte \<times> Resp list \<Rightarrow> bool" where
  "stray_ok w h d pal fbs a \<longleftrightarrow> fst a \<le> 2 \<and> (fst a \<le> 1 \<longrightarrow> answer_ok w h d pal fbs (snd a))"

definition web_ok :: "nat \<Rightarrow> nat \<Rightarrow> nat \<Rightarrow> RGBQuad list \<Rightarrow> byte list list \<Rightarrow> Global \<Rightarrow> bool" where
  "web_ok w h d pal fbs g \<longleftrightarrow>
     \<not> gl_wild g \<and> screen_ok w h d pal (gl_screen g) \<and> sc_cur_frame (gl_screen g) \<le> 2 \<and>
     (gl_task g \<noteq> Counted \<longrightarrow> sc_cur_frame (gl_screen g) \<le> 1) \<and>
     (\<forall>i. gl_task g = Converting \<longrightarrow> same_frame i (sc_cur_frame (gl_screen g)) \<longrightarrow>
        frame_ok w h d pal fbs i (gl_screen g)) \<and>
     (\<forall>i. gl_task g \<noteq> Converting \<longrightarrow> frame_ok w h d pal fbs i (gl_screen g)) \<and>
     (\<forall>k > 0. gl_handling g k = Idle) \<and>
     (gl_handling g 0 = Looked True \<longrightarrow> is_free (gl_task g)) \<and>
     (\<forall>i n. gl_handling g 0 = Got i n \<longrightarrow> i \<le> 1 \<and> holds_picture w h d pal fbs i n (gl_screen g) \<and>
        (gl_task g = Converting \<longrightarrow> same_frame i (sc_cur_frame (gl_screen g)))) \<and>
     (\<forall>i. gl_handling g 0 = Outside i \<longrightarrow> i \<le> 2 \<and> \<not> i \<le> 1) \<and>
     (\<forall>a \<in> set (gl_answers g). stray_ok w h d pal fbs a)"

lemma screen_ok_bound: "screen_ok w h d pal s \<Longrightarrow> sc_cur_frame s \<le> 1 \<Longrightarrow> bound w h d s \<and> sc_palette s = pal"
  by (auto simp: screen_ok_def bound_def)

lemma bound_screen_ok:
  "bound w h d s \<Longrightarrow> sc_palette s = pal \<Longrightarrow> unat (sc_size s) = w * h * d \<Longrightarrow> screen_ok w h d pal s"
  by (auto simp: screen_ok_def bound_def)

lemma screen_ok_changes [simp]:
  "screen_ok w h d pal (s\<lparr>sc_cur_frame := c\<rparr>) \<longleftrightarrow> screen_ok w h d pal s"
  by (simp add: screen_ok_def)

lemma screen_ok_count [simp]:
  "screen_ok w h d pal (count_frame s) \<longleftrightarrow> screen_ok w h d pal s"
  "screen_ok w h d pal (wrap_frame s) \<longleftrightarrow> screen_ok w h d pal s"
  by (simp_all add: count_frame_def wrap_frame_def)

lemma frame_data_count [simp]:
  "frame_data i (count_frame s) = frame_data i s" "frame_data i (wrap_frame s) = frame_data i s"
  "frame_size i (count_frame s) = frame_size i s" "frame_size i (wrap_frame s) = frame_size i s"
  by (simp_all add: count_frame_def wrap_frame_def)

lemma holds_picture_cong:
  "frame_data i s = frame_data i t \<Longrightarrow> holds_picture w h d pal fbs i n s \<longleftrightarrow> holds_picture w h d pal fbs i n t"
  by (simp add: holds_picture_def)

lemma ok_changes [simp]:
  "holds_picture w h d pal fbs i n (count_frame s) = holds_picture w h d pal fbs i n s"
  "holds_picture w h d pal fbs i n (wrap_frame s) = holds_picture w h d pal fbs i n s"
  "frame_ok w h d pal fbs i (count_frame s) = frame_ok w h d pal fbs i s"
  "frame_ok w h d pal fbs i (wrap_frame s) = frame_ok w h d pal fbs i s"
  by (simp_all add: frame_ok_def holds_picture_def)

lemma more_pictures:
  "holds_picture w h d pal fbs i n s \<Longrightarrow> holds_picture w h d pal (fbs @ [fb]) i n s"
  "stray_ok w h d pal fbs a \<Longrightarrow> stray_ok w h d pal (fbs @ [fb]) a"
  by (auto simp: holds_picture_def stray_ok_def answer_ok_def)

lemma same_frame_next: "same_frame i c \<or> same_frame i (GetNextFrameId s)" if "c = sc_cur_frame s"
  using that by (auto simp: same_frame_def GetNextFrameId_def)

lemma same_frame_other: "\<not> (same_frame i (GetNextFrameId s) \<and> same_frame i (sc_cur_frame s))"
  by (auto simp: same_frame_def GetNextFrameId_def)

lemma same_frameD: "same_frame i j \<Longrightarrow> frame_data i s = frame_data j s \<and> frame_size i s = frame_size j s"
  by (auto simp: same_frame_def frame_data_def frame_size_def)

lemma fill_frame_size: "fill_frame n fb s = Some (ok, t) \<Longrightarrow> sc_size t = sc_size s"
  by (auto simp: fill_frame_def Let_def set_frame_def set_frame_size_def
      split: option.splits if_splits prod.splits)

lemma web_ok_fill:
  assumes ok: "web_ok w h d pal fbs g" and task: "gl_task g = Converting" and dvd: "8 dvd w * h"
    and fb: "length fb = unat (sc_size (gl_screen g))" and run: "fill_frame 1 fb (gl_screen g) = Some (r, s)"
  shows "r" "web_ok w h d pal (fbs @ [fb]) (g\<lparr>gl_screen := s, gl_task := Filled\<rparr>)"
proof -
  let ?s = "gl_screen g"
  have scr: "screen_ok w h d pal ?s" "sc_cur_frame ?s \<le> 1" using ok task by (simp_all add: web_ok_def)
  then have b: "bound w h d ?s" "sc_palette ?s = pal" "unat (sc_size ?s) = w * h * d" "length fb = w * h * d"
    using fb screen_ok_bound [OF scr] by (simp_all add: screen_ok_def)
  from fill_frame_picture [OF b(1,4) dvd] run b(2) have t: "r" "bound w h d s"
    "take (1078 + w * h) (frame_data (GetNextFrameId ?s) s) = picture_of w h d pal fb"
    "frame_size (GetNextFrameId ?s) s = word_of_nat (1078 + w * h)"
    "frame_data (sc_cur_frame ?s) s = frame_data (sc_cur_frame ?s) ?s"
    "frame_size (sc_cur_frame ?s) s = frame_size (sc_cur_frame ?s) ?s"
    "sc_palette s = pal" "sc_cur_frame s = sc_cur_frame ?s"
    by auto
  show "r" by (rule t(1))
  have new: "frame_ok w h d pal (fbs @ [fb]) i s" if "same_frame i (GetNextFrameId ?s)" for i
    using t(3,4) same_frameD [OF that, of s] by (simp add: frame_ok_def holds_picture_def)
  have old: "holds_picture w h d pal (fbs @ [fb]) i n s"
    if "same_frame i (sc_cur_frame ?s)" "holds_picture w h d pal fbs i n ?s" for i n
    using more_pictures(1) [OF that(2)] t(5) same_frameD [OF that(1)] by (simp add: holds_picture_def)
  have "frame_ok w h d pal (fbs @ [fb]) i s" if "same_frame i (sc_cur_frame ?s)" for i
  proof -
    have "holds_picture w h d pal fbs i (frame_size i ?s) ?s"
      using ok task that by (simp add: web_ok_def frame_ok_def)
    moreover have "frame_size i s = frame_size i ?s"
      using t(6) same_frameD [OF that, of s] same_frameD [OF that, of ?s] by simp
    ultimately show ?thesis using old [OF that] by (simp add: frame_ok_def)
  qed
  then have all: "frame_ok w h d pal (fbs @ [fb]) i s" for i
    using new same_frame_next [OF refl] by blast
  have "screen_ok w h d pal s"
    using bound_screen_ok [OF t(2,7)] fill_frame_size [OF run] b(3) by simp
  with all old ok task t(8) show "web_ok w h d pal (fbs @ [fb]) (g\<lparr>gl_screen := s, gl_task := Filled\<rparr>)"
    by (auto simp: web_ok_def intro: more_pictures(2))
qed

lemma Task_fill_ok:
  assumes ok: "web_ok w h d pal fbs g" and task: "gl_task g = Converting" and dvd: "8 dvd w * h"
    and fb: "length fb = unat (sc_size (gl_screen g))" and run: "Task_fill fb g = (r, g')"
  shows "r \<and> web_ok w h d pal (fbs @ [fb]) g'"
proof -
  have "screen_ok w h d pal (gl_screen g)" "sc_cur_frame (gl_screen g) \<le> 1" using ok task by (simp_all add: web_ok_def)
  then have "bound w h d (gl_screen g)" "length fb = w * h * d"
    using fb screen_ok_bound [of w h d pal "gl_screen g"] by (simp_all add: screen_ok_def)
  from fill_frame_picture [OF this dvd] obtain s where s: "fill_frame 1 fb (gl_screen g) = Some (True, s)" by blast
  with web_ok_fill(2) [OF ok task dvd fb s] run show ?thesis by (auto simp: Task_fill_def)
qed

lemma web_ok_partly:
  assumes ok: "web_ok w h d pal fbs g" and task: "gl_task g = Converting"
    and len: "length bs = length (frame_data (GetNextFrameId (gl_screen g)) (gl_screen g))"
  shows "web_ok w h d pal fbs (g\<lparr>gl_screen := set_frame (GetNextFrameId (gl_screen g)) bs (gl_screen g)\<rparr>)"
proof -
  let ?s = "gl_screen g" and ?n = "GetNextFrameId (gl_screen g)"
  have scr: "screen_ok w h d pal ?s" using ok by (simp add: web_ok_def)
  then have "length bs = w * h * d + 1024" using len by (simp add: screen_ok_def bound_def frame_data_def)
  with scr have "screen_ok w h d pal (set_frame ?n bs ?s)"
    by (auto simp: screen_ok_def bound_def set_frame_def)
  moreover have "frame_data i (set_frame ?n bs ?s) = frame_data i ?s" if "same_frame i (sc_cur_frame ?s)" for i
    using that by (simp add: same_frame_def GetNextFrameId_def)
  then have "holds_picture w h d pal fbs i n (set_frame ?n bs ?s) = holds_picture w h d pal fbs i n ?s"
    if "same_frame i (sc_cur_frame ?s)" for i n
    using that holds_picture_cong by blast
  ultimately show ?thesis
    using ok task by (simp add: web_ok_def frame_ok_def)
qed

lemma Update_beside:
  assumes "Update accepted kRes path rq response g = (ok, response', g')"
  shows "gl_screen g' = gl_screen g \<and> gl_task g' = gl_task g \<and> gl_handling g' = gl_handling g \<and>
    gl_answers g' = gl_answers g \<and> gl_wild g' = gl_wild g"
  using assms
  by (auto simp: Update_def UpdateFirm_def SendNewCoords_def Let_def split: if_splits)

lemma picture_size:
  assumes "screen_ok w h d pal s"
  shows "unat (word_of_nat (1078 + w * h) :: u32) = 1078 + w * h" "1078 + w * h \<le> length (frame_data i s)"
proof -
  have d: "d = 3 \<or> d = 4" "w * h * d < 2 ^ 32" "54 \<le> w * h" and l: "length (frame_data i s) = w * h * d + 1024"
    using assms by (simp_all add: screen_ok_def bound_def frame_data_def)
  have "3 * (w * h) \<le> w * h * d" using d(1) by auto
  then show "1078 + w * h \<le> length (frame_data i s)" using d(3) l by linarith
  have "w * h * d < 4294967296" using d(2) by simp
  with \<open>3 * (w * h) \<le> w * h * d\<close> have "1078 + w * h < 4294967296" by linarith
  then show "unat (word_of_nat (1078 + w * h) :: u32) = 1078 + w * h"
    unfolding unat_of_nat by simp
qed

lemma web_ok_alone: "web_ok w h d pal fbs g \<Longrightarrow> gl_handling g k \<noteq> Idle \<Longrightarrow> k = 0"
  by (auto simp: web_ok_def)

lemma web_ok_answer:
  assumes ok: "web_ok w h d pal fbs g" and got: "gl_handling g k = Got i n"
  shows "web_ok w h d pal fbs (SendFrame_end k i n g)"
proof -
  have k: "k = 0" using web_ok_alone [OF ok] got by simp
  have scr: "screen_ok w h d pal (gl_screen g)" and pic: "holds_picture w h d pal fbs i n (gl_screen g)" and i: "i \<le> 1"
    using ok got by (simp_all add: web_ok_def k)
  have n: "unat n \<le> length (frame_data i (gl_screen g))"
    using pic picture_size(1) [OF scr] picture_size(2) [OF scr, of i] by (auto simp: holds_picture_def)
  let ?body = "take (unat n) (frame_data i (gl_screen g))"
  have run: "SendFrame_end k i n g = SendFrame_answer k i ?body g"
    using n by (simp add: SendFrame_end_def mem_read_def)
  have "?body = [] \<or> (\<exists>fb \<in> set fbs. ?body = picture_of w h d pal fb)"
    using pic picture_size(1) [OF scr] by (auto simp: holds_picture_def)
  then have "stray_ok w h d pal fbs (i, [SetType ''bmp'', NoStore, RandomETag, SetBody ?body])"
    using i order_trans [OF i, of 2] by (simp add: stray_ok_def answer_ok_def)
  then show ?thesis using ok unfolding run by (simp add: web_ok_def SendFrame_answer_def k)
qed

lemma web_ok_stray:
  assumes ok: "web_ok w h d pal fbs g" and got: "gl_handling g k = Outside i"
  shows "web_ok w h d pal fbs (SendFrame_answer k i body g)"
proof -
  have k: "k = 0" using web_ok_alone [OF ok] got by simp
  then have "stray_ok w h d pal fbs (i, [SetType ''bmp'', NoStore, RandomETag, SetBody body])"
    using ok got by (simp add: web_ok_def stray_ok_def)
  then show ?thesis using ok by (simp add: web_ok_def SendFrame_answer_def k)
qed

lemma GetFrame_at:
  "GetFrame s = (if sc_cur_frame s \<le> 1 then Some (frame_data (sc_cur_frame s) s, frame_size (sc_cur_frame s) s) else None)"
  using word_cases_01 [of "sc_cur_frame s"] by (auto simp: GetFrame_def frame_data_def frame_size_def)

lemma web_ok_frame:
  assumes ok: "web_ok w h d pal fbs g" and asked: "gl_handling g k = Asked"
  shows "web_ok w h d pal fbs (SendFrame_frame k g)"
proof -
  let ?s = "gl_screen g" and ?c = "sc_cur_frame (gl_screen g)"
  have k: "k = 0" using web_ok_alone [OF ok] asked by simp
  have pic: "holds_picture w h d pal fbs ?c (frame_size ?c ?s) ?s"
    using ok by (cases "gl_task g = Converting") (simp_all add: web_ok_def frame_ok_def same_frame_def)
  have same: "same_frame ?c ?c" by (simp add: same_frame_def)
  show ?thesis
  proof (cases "?c \<le> 1")
    case True
    then have "SendFrame_frame k g = g\<lparr>gl_handling := (gl_handling g)(0 := Got ?c (frame_size ?c ?s))\<rparr>"
      by (simp add: SendFrame_frame_def GetFrame_at k)
    then show ?thesis using ok True pic same by (simp add: web_ok_def)
  next
    case False
    then have "SendFrame_frame k g = g\<lparr>gl_handling := (gl_handling g)(0 := Outside ?c)\<rparr>"
      by (simp add: SendFrame_frame_def GetFrame_at k)
    then show ?thesis using ok False by (simp add: web_ok_def)
  qed
qed

lemma web_ok_begin:
  "web_ok w h d pal fbs g \<Longrightarrow> gl_handling g 0 = Idle \<Longrightarrow> web_ok w h d pal fbs (SendFrame_look 0 g)"
  by (auto simp: web_ok_def SendFrame_look_def)

lemma web_ok_decide:
  assumes ok: "web_ok w h d pal fbs g" and looked: "gl_handling g k = Looked b"
  shows "web_ok w h d pal fbs (SendFrame_start k b g)"
proof -
  have k: "k = 0" using web_ok_alone [OF ok] looked by simp
  show ?thesis
  proof (cases b)
    case True
    then have "is_free (gl_task g)" using ok looked k by (simp add: web_ok_def)
    then have "gl_task g \<noteq> Counted" "gl_task g \<noteq> Converting" by auto
    with ok True k \<open>is_free (gl_task g)\<close> show ?thesis by (auto simp: web_ok_def SendFrame_start_def)
  next
    case False
    with ok k show ?thesis by (auto simp: web_ok_def SendFrame_start_def)
  qed
qed

lemma one_more: "(c :: byte) \<le> 1 \<Longrightarrow> c + 1 \<le> 2"
  using word_cases_01 [of c] by auto

lemma web_ok_task:
  "web_ok w h d pal fbs g \<Longrightarrow> gl_task g = Filled \<Longrightarrow>
   web_ok w h d pal fbs (g\<lparr>gl_screen := count_frame (gl_screen g), gl_task := Counted\<rparr>)"
  "web_ok w h d pal fbs g \<Longrightarrow> gl_task g = Counted \<Longrightarrow>
   web_ok w h d pal fbs (g\<lparr>gl_screen := wrap_frame (gl_screen g), gl_task := Pausing True\<rparr>)"
  "web_ok w h d pal fbs g \<Longrightarrow> gl_task g = Pausing ok \<Longrightarrow> web_ok w h d pal fbs (g\<lparr>gl_task := Ready ok\<rparr>)"
proof -
  assume "web_ok w h d pal fbs g" "gl_task g = Filled"
  moreover from this have "sc_cur_frame (count_frame (gl_screen g)) \<le> 2"
    by (simp add: web_ok_def count_frame_def one_more)
  ultimately show "web_ok w h d pal fbs (g\<lparr>gl_screen := count_frame (gl_screen g), gl_task := Counted\<rparr>)"
    by (simp add: web_ok_def is_free_def)
next
  assume "web_ok w h d pal fbs g" "gl_task g = Counted"
  moreover have "sc_cur_frame (wrap_frame s) \<le> 1" for s by (simp add: wrap_frame_def not_less)
  moreover from this have "sc_cur_frame (wrap_frame s) \<le> 2" for s using order_trans [of _ 1 "2 :: byte"] by simp
  ultimately show "web_ok w h d pal fbs (g\<lparr>gl_screen := wrap_frame (gl_screen g), gl_task := Pausing True\<rparr>)"
    by (simp add: web_ok_def is_free_def)
next
  assume "web_ok w h d pal fbs g" "gl_task g = Pausing ok"
  then show "web_ok w h d pal fbs (g\<lparr>gl_task := Ready ok\<rparr>)" by (simp add: web_ok_def is_free_def)
qed

lemma web_reach_ok:
  assumes "web_reach 1 g0 fbs g" "web_ok w h d pal [] g0" "8 dvd w * h"
  shows "web_ok w h d pal fbs g"
  using assms(1)
proof induction
  case (update fbs g k accepted kRes path rq response ok response' g')
  then show ?case using Update_beside [of accepted kRes path rq response g ok response' g']
    by (simp add: web_ok_def)
next
  case (fill fbs g fb ok g')
  with Task_fill_ok [OF fill.IH _ assms(3)] show ?case by auto
qed (use assms(2) in \<open>auto intro: web_ok_begin web_ok_decide web_ok_frame web_ok_answer web_ok_stray web_ok_partly
    web_ok_task\<close>)

lemma served:
  assumes "rfb_main False given modes garbage qid = Inr g0"
  shows "BindToFbDev modes garbage new_Screen = Inr (True, gl_screen g0)" "gl_task g0 = Uninitialized"
    "gl_handling g0 = (\<lambda>_. Idle)" "gl_answers g0 = []" "\<not> gl_wild g0"
  using assms
  by (auto simp: rfb_main_def rfb_ParseArguments_def new_Global_def Let_def split: if_splits sum.splits prod.splits)

lemma served_screen:
  assumes "rfb_main False given modes garbage qid = Inr g0"
    and "modes 1 = Some (word_of_nat w, word_of_nat h, word_of_nat (8 * d))"
    and "d = 3 \<or> d = 4" "w * h * d < 2 ^ 31" "54 \<le> w * h"
  shows "screen_ok w h d (sc_palette new_Screen) (gl_screen g0)" "sc_cur_frame (gl_screen g0) = 0"
    "sc_size_0 (gl_screen g0) = 0" "sc_size_1 (gl_screen g0) = 0"
  using BindToFbDev_bound [OF assms(2-5) served(1) [OF assms(1)]] bound_screen_ok by auto

lemma served_ok:
  assumes "rfb_main False given modes garbage qid = Inr g0"
    and "modes 1 = Some (word_of_nat w, word_of_nat h, word_of_nat (8 * d))"
    and "d = 3 \<or> d = 4" "w * h * d < 2 ^ 31" "54 \<le> w * h"
  shows "web_ok w h d (sc_palette new_Screen) [] g0"
  using served [OF assms(1)] served_screen [OF assms]
  by (simp add: web_ok_def frame_ok_def holds_picture_def frame_size_def)


text \<open>C30: if the library handles one request at a time, then, whatever the order in which handler and
  task go on, no second task is started beside one that is at work, no buffer is left, and every answer
  that was made from one of the two frames is a whole picture that was taken, or, before the first one,
  empty: the frame that the handler has got is not the one that is being filled.  An answer is made from
  something else only if it is asked for between the two statements of the switch (C31).\<close>

theorem answers_are_whole_pictures:
  assumes "rfb_main False given modes garbage qid = Inr g0" "web_reach 1 g0 fbs g"
    and "modes 1 = Some (word_of_nat w, word_of_nat h, word_of_nat (8 * d))"
    and "d = 3 \<or> d = 4" "w * h * d < 2 ^ 31" "54 \<le> w * h" "8 dvd w * h"
  shows "\<not> gl_wild g \<and> (GetFrame (gl_screen g) = None \<longrightarrow> gl_task g = Counted) \<and>
    (\<forall>(i, r) \<in> set (gl_answers g). i \<le> 2 \<and> (i \<le> 1 \<longrightarrow>
      (\<exists>body. r = [SetType ''bmp'', NoStore, RandomETag, SetBody body] \<and>
        (body = [] \<or> (\<exists>fb \<in> set fbs. body = picture_of w h d (sc_palette new_Screen) fb)))))"
proof -
  have ok: "web_ok w h d (sc_palette new_Screen) fbs g"
    using web_reach_ok [OF assms(2) served_ok [OF assms(1,3-6)] assms(7)] .
  then have "\<not> gl_wild g" "GetFrame (gl_screen g) = None \<longrightarrow> gl_task g = Counted"
    by (auto simp: web_ok_def GetFrame_at)
  moreover have "\<forall>a \<in> set (gl_answers g). stray_ok w h d (sc_palette new_Screen) fbs a"
    using ok by (simp add: web_ok_def)
  ultimately show ?thesis by (simp add: stray_ok_def answer_ok_def case_prod_unfold)
qed

text \<open>Any number of requests: a handler that finds the task free starts it, and the task takes a picture.\<close>

lemma request_starts:
  assumes "web_reach lim g0 fbs g" "\<not> gl_wild g" "k < lim" "gl_handling g k = Idle" "is_free (gl_task g)"
  shows "web_reach lim g0 fbs (g\<lparr>gl_handling := (gl_handling g)(k := Asked), gl_task := Converting\<rparr>)"
proof -
  from web_reach.request [OF assms(1-4)] have "web_reach lim g0 fbs (SendFrame_look k g)" .
  from web_reach.decide [OF this, of k True] assms(2,5) show ?thesis
    by (simp add: SendFrame_look_def SendFrame_start_def)
qed

lemma task_counts:
  assumes reach: "web_reach lim g0 fbs g" and wild: "\<not> gl_wild g" and task: "gl_task g = Converting"
    and scr: "screen_ok w h d pal (gl_screen g)" "sc_cur_frame (gl_screen g) \<le> 1"
    and fb: "length fb = w * h * d" "8 dvd w * h"
  shows "\<exists>s. web_reach lim g0 (fbs @ [fb]) (g\<lparr>gl_screen := s, gl_task := Counted\<rparr>) \<and> screen_ok w h d pal s \<and>
    sc_cur_frame s = sc_cur_frame (gl_screen g) + 1 \<and>
    frame_size (GetNextFrameId (gl_screen g)) s = word_of_nat (1078 + w * h)"
proof -
  have b: "bound w h d (gl_screen g)" "sc_palette (gl_screen g) = pal" "unat (sc_size (gl_screen g)) = w * h * d"
    using scr screen_ok_bound [OF scr] by (simp_all add: screen_ok_def)
  from fill_frame_picture [OF b(1) fb] obtain t where t: "fill_frame 1 fb (gl_screen g) = Some (True, t)"
    "bound w h d t" "frame_size (GetNextFrameId (gl_screen g)) t = word_of_nat (1078 + w * h)"
    "sc_palette t = sc_palette (gl_screen g)" "sc_cur_frame t = sc_cur_frame (gl_screen g)" by blast
  have ok: "screen_ok w h d pal t"
    using bound_screen_ok [OF t(2)] t(4) b(2,3) fill_frame_size [OF t(1)] by simp
  have "length fb = unat (sc_size (gl_screen g))" using fb(1) b(3) by simp
  from web_reach.fill [OF reach wild task this, of True "g\<lparr>gl_screen := t, gl_task := Filled\<rparr>"] t(1)
  have "web_reach lim g0 (fbs @ [fb]) (g\<lparr>gl_screen := t, gl_task := Filled\<rparr>)" by (simp add: Task_fill_def)
  from web_reach.count [OF this] wild
  have "web_reach lim g0 (fbs @ [fb]) (g\<lparr>gl_screen := count_frame t, gl_task := Counted\<rparr>)" by simp
  then show ?thesis using ok t(3,5) by (intro exI [of _ "count_frame t"]) (simp, simp add: count_frame_def)
qed

lemma task_rests:
  assumes "web_reach lim g0 fbs g" "\<not> gl_wild g" "gl_task g = Counted"
  shows "web_reach lim g0 fbs (g\<lparr>gl_screen := wrap_frame (gl_screen g), gl_task := Ready True\<rparr>)"
proof -
  from web_reach.wrap [OF assms] have "web_reach lim g0 fbs
      (g\<lparr>gl_screen := wrap_frame (gl_screen g), gl_task := Pausing True\<rparr>)" .
  from web_reach.rest [OF this, of True] assms(2) show ?thesis by simp
qed

lemma handler_answers:
  assumes "web_reach lim g0 fbs g" "\<not> gl_wild g" "gl_handling g k = Asked" "sc_cur_frame (gl_screen g) = i" "i \<le> 1"
    and "unat (frame_size i (gl_screen g)) \<le> length (frame_data i (gl_screen g))"
  shows "\<exists>r. web_reach lim g0 fbs
    (g\<lparr>gl_handling := (gl_handling g)(k := Idle), gl_answers := gl_answers g @ [(i, r)]\<rparr>)"
proof -
  let ?n = "frame_size i (gl_screen g)" and ?u = "g\<lparr>gl_handling := (gl_handling g)(k := Got i (frame_size i (gl_screen g)))\<rparr>"
  have "SendFrame_frame k g = ?u" using assms(4,5) by (simp add: SendFrame_frame_def GetFrame_at)
  with web_reach.frame [OF assms(1-3)] have "web_reach lim g0 fbs ?u" by simp
  from web_reach.answer [OF this, of k i ?n] assms(2,6) show ?thesis
    by (auto simp: SendFrame_end_def mem_read_def SendFrame_answer_def)
qed

text \<open>The first picture of a server, which a handler has asked for.\<close>

lemma first_picture:
  assumes "rfb_main False given modes garbage qid = Inr g0" "0 < lim"
    and "modes 1 = Some (word_of_nat w, word_of_nat h, word_of_nat (8 * d))"
    and "d = 3 \<or> d = 4" "w * h * d < 2 ^ 31" "54 \<le> w * h" "8 dvd w * h" "length fb = w * h * d"
  shows "\<exists>g. web_reach lim g0 [fb] g \<and> \<not> gl_wild g \<and> gl_handling g = (\<lambda>_. Idle)(0 := Asked) \<and>
    gl_task g = Ready True \<and> screen_ok w h d (sc_palette new_Screen) (gl_screen g) \<and>
    sc_cur_frame (gl_screen g) = 1 \<and> frame_size 1 (gl_screen g) = word_of_nat (1078 + w * h)"
proof -
  note s = served [OF assms(1)] and scr = served_screen [OF assms(1,3-6)]
  let ?a = "g0\<lparr>gl_handling := (gl_handling g0)(0 := Asked), gl_task := Converting\<rparr>"
  have "web_reach lim g0 [] ?a"
    by (rule request_starts [OF web_reach.start]) (use s assms(2) in simp_all)
  from task_counts [OF this _ _ _ _ assms(8,7)] s(5) scr(1,2) obtain t where
    t: "web_reach lim g0 [fb] (?a\<lparr>gl_screen := t, gl_task := Counted\<rparr>)"
      "screen_ok w h d (sc_palette new_Screen) t" "sc_cur_frame t = 1"
      "frame_size (GetNextFrameId (gl_screen ?a)) t = word_of_nat (1078 + w * h)" by auto
  have "GetNextFrameId (gl_screen ?a) = 1" using scr(2) by (simp add: GetNextFrameId_def)
  with task_rests [OF t(1)] t(2-4) s(3,5) show ?thesis
    by (intro exI) (rule conjI, assumption | simp add: wrap_frame_def fun_upd_def)+
qed

text \<open>C31: even if requests are handled one after the other, the number of the frame is 2 between the two
  statements of the switch after every second picture, and a handler may ask at that moment: it reads a
  frame behind the two that there are.\<close>

theorem switch_is_seen_halfway:
  assumes "rfb_main False given modes garbage qid = Inr g0"
    and "modes 1 = Some (word_of_nat w, word_of_nat h, word_of_nat (8 * d))"
    and "d = 3 \<or> d = 4" "w * h * d < 2 ^ 31" "54 \<le> w * h" "8 dvd w * h"
    and "length fb1 = w * h * d" "length fb2 = w * h * d"
  shows "\<exists>g. web_reach 1 g0 [fb1, fb2] g \<and> gl_handling g 0 = Asked \<and> GetFrame (gl_screen g) = None \<and>
    web_reach 1 g0 [fb1, fb2] (SendFrame_frame 0 g) \<and> gl_handling (SendFrame_frame 0 g) 0 = Outside 2"
proof -
  from first_picture [OF assms(1) _ assms(2-6,7), of 1] obtain g1 where
    g1: "web_reach 1 g0 [fb1] g1" "\<not> gl_wild g1" "gl_handling g1 = (\<lambda>_. Idle)(0 := Asked)" "gl_task g1 = Ready True"
      "screen_ok w h d (sc_palette new_Screen) (gl_screen g1)" "sc_cur_frame (gl_screen g1) = 1"
      "frame_size 1 (gl_screen g1) = word_of_nat (1078 + w * h)" by auto
  have "unat (frame_size 1 (gl_screen g1)) \<le> length (frame_data 1 (gl_screen g1))"
    unfolding g1(7) using picture_size [OF g1(5)] by simp
  from handler_answers [OF g1(1,2), of 0 1] g1(3,6) this obtain r where
    g2: "web_reach 1 g0 [fb1] (g1\<lparr>gl_handling := (gl_handling g1)(0 := Idle), gl_answers := gl_answers g1 @ [(1, r)]\<rparr>)"
    (is "web_reach 1 g0 _ ?g2") by auto
  let ?g3 = "?g2\<lparr>gl_handling := (gl_handling ?g2)(0 := Asked), gl_task := Converting\<rparr>"
  have "web_reach 1 g0 [fb1] ?g3" by (rule request_starts [OF g2]) (use g1 in simp_all)
  from task_counts [OF this _ _ _ _ assms(8,6)] g1(2,5,6) obtain t where
    t: "web_reach 1 g0 [fb1, fb2] (?g3\<lparr>gl_screen := t, gl_task := Counted\<rparr>)" (is "web_reach 1 g0 _ ?g")
      "sc_cur_frame t = 2" by auto
  have g: "gl_handling ?g 0 = Asked" "GetFrame (gl_screen ?g) = None" "sc_cur_frame (gl_screen ?g) = 2"
    using t(2) by (simp_all add: GetFrame_def)
  moreover have "web_reach 1 g0 [fb1, fb2] (SendFrame_frame 0 ?g)"
    by (rule web_reach.frame [OF t(1) _ g(1)]) (use g1(2) in simp)
  moreover have "gl_handling (SendFrame_frame 0 ?g) 0 = Outside 2" by (simp add: SendFrame_frame_def GetFrame_def t(2))
  ultimately show ?thesis using t(1) by blast
qed

text \<open>C35: if the library handles two requests at a time, one of them may still send a picture when the
  task that the other one has started is already filling its buffer with another: there are two
  buffers, and nothing keeps the one that is being sent.\<close>

theorem two_requests_share_a_frame:
  assumes "rfb_main False given modes garbage qid = Inr g0"
    and "modes 1 = Some (word_of_nat w, word_of_nat h, word_of_nat (8 * d))"
    and "d = 3 \<or> d = 4" "w * h * d < 2 ^ 31" "54 \<le> w * h" "8 dvd w * h"
    and "length fb1 = w * h * d" "length fb2 = w * h * d"
  shows "\<exists>g. web_reach 2 g0 [fb1, fb2] g \<and> gl_handling g 0 = Got 1 (word_of_nat (1078 + w * h)) \<and>
    gl_task g = Converting \<and> GetNextFrameId (gl_screen g) = 1"
proof -
  let ?n = "word_of_nat (1078 + w * h) :: u32"
  from first_picture [OF assms(1) _ assms(2-6,7), of 2] obtain g1 where
    g1: "web_reach 2 g0 [fb1] g1" "\<not> gl_wild g1" "gl_handling g1 = (\<lambda>_. Idle)(0 := Asked)" "gl_task g1 = Ready True"
      "screen_ok w h d (sc_palette new_Screen) (gl_screen g1)" "sc_cur_frame (gl_screen g1) = 1"
      "frame_size 1 (gl_screen g1) = ?n" by auto
  let ?g2 = "g1\<lparr>gl_handling := (\<lambda>_. Idle)(0 := Got 1 ?n)\<rparr>"
  have "SendFrame_frame 0 g1 = ?g2" using g1(3,6,7) by (simp add: SendFrame_frame_def GetFrame_at)
  with web_reach.frame [OF g1(1,2), of 0] g1(3) have g2: "web_reach 2 g0 [fb1] ?g2" by simp
  let ?g3 = "?g2\<lparr>gl_handling := (gl_handling ?g2)(1 := Asked), gl_task := Converting\<rparr>"
  have "web_reach 2 g0 [fb1] ?g3" by (rule request_starts [OF g2]) (use g1 in simp_all)
  from task_counts [OF this _ _ _ _ assms(8,6)] g1(2,5,6) obtain t where
    t: "web_reach 2 g0 [fb1, fb2] (?g3\<lparr>gl_screen := t, gl_task := Counted\<rparr>)" (is "web_reach 2 g0 _ ?g4")
      "screen_ok w h d (sc_palette new_Screen) t" "sc_cur_frame t = 2"
      "frame_size (GetNextFrameId (gl_screen ?g3)) t = ?n" by auto
  have nxt: "GetNextFrameId (gl_screen ?g3) = 0" using g1(6) by (simp add: GetNextFrameId_def)
  let ?g5 = "?g4\<lparr>gl_screen := wrap_frame t, gl_task := Ready True\<rparr>"
  have g5: "web_reach 2 g0 [fb1, fb2] ?g5" using task_rests [OF t(1)] g1(2) by simp
  have c: "sc_cur_frame (wrap_frame t) = 0" using t(3) by (simp add: wrap_frame_def)
  have "unat (frame_size 0 (gl_screen ?g5)) \<le> length (frame_data 0 (gl_screen ?g5))"
    using picture_size(1) [OF t(2)] picture_size(2) [OF t(2), of 0] t(4) nxt by simp
  from handler_answers [OF g5, of 1 0] c g1(2) this obtain r where
    g6: "web_reach 2 g0 [fb1, fb2] (?g5\<lparr>gl_handling := (gl_handling ?g5)(1 := Idle), gl_answers := gl_answers ?g5 @ [(0, r)]\<rparr>)"
    (is "web_reach 2 g0 _ ?g6") by auto
  let ?g7 = "?g6\<lparr>gl_handling := (gl_handling ?g6)(1 := Asked), gl_task := Converting\<rparr>"
  have "web_reach 2 g0 [fb1, fb2] ?g7" by (rule request_starts [OF g6]) (use g1(2) in simp_all)
  then show ?thesis using c by (intro exI [of _ ?g7]) (simp add: GetNextFrameId_def)
qed

text \<open>A screen of 8 times 8 pixels; the first request of it is answered with its first picture.\<close>

definition small_web :: Global where
  "small_web = (case rfb_main False Map.empty (\<lambda>_. Some (8, 8, 24)) (\<lambda>_. 0) 5 of Inr g \<Rightarrow> g | Inl _ \<Rightarrow> new_Global)"

lemma small_web: "rfb_main False Map.empty (\<lambda>_. Some (8, 8, 24)) (\<lambda>_. 0) 5 = Inr small_web"
  by (simp add: small_web_def rfb_main_def rfb_ParseArguments_def new_Global_def InitIPC_def small_bound Let_def)

theorem switch_is_seen_halfway_witness:
  "\<exists>g. web_reach 1 small_web [replicate 192 0, replicate 192 255] g \<and> gl_handling g 0 = Asked \<and>
     GetFrame (gl_screen g) = None"
  using switch_is_seen_halfway [OF small_web, of 8 8 3 "replicate 192 0" "replicate 192 255"] by auto

theorem two_requests_share_a_frame_witness:
  "\<exists>g. web_reach 2 small_web [replicate 192 0, replicate 192 255] g \<and> gl_handling g 0 = Got 1 1142 \<and>
     gl_task g = Converting \<and> GetNextFrameId (gl_screen g) = 1"
  using two_requests_share_a_frame [OF small_web, of 8 8 3 "replicate 192 0" "replicate 192 255"] by auto

theorem answers_are_whole_pictures_witness:
  "\<exists>g body. web_reach 1 small_web [replicate 192 255] g \<and> \<not> gl_wild g \<and>
     (1, [SetType ''bmp'', NoStore, RandomETag, SetBody body]) \<in> set (gl_answers g) \<and>
     (body = [] \<or> body = picture_of 8 8 3 (sc_palette new_Screen) (replicate 192 255))"
proof -
  let ?fb = "replicate 192 (255 :: byte)"
  from first_picture [OF small_web, of 1 8 8 3 ?fb] obtain g where
    g: "web_reach 1 small_web [?fb] g" "\<not> gl_wild g" "gl_handling g = (\<lambda>_. Idle)(0 := Asked)"
      "screen_ok 8 8 3 (sc_palette new_Screen) (gl_screen g)" "sc_cur_frame (gl_screen g) = 1"
      "frame_size 1 (gl_screen g) = word_of_nat (1078 + 8 * 8)" by auto
  have "unat (frame_size 1 (gl_screen g)) \<le> length (frame_data 1 (gl_screen g))"
    unfolding g(6) using picture_size(1) [OF g(4)] picture_size(2) [OF g(4), of 1] by simp
  from handler_answers [OF g(1,2), of 0 1] g(3,5) this obtain r where
    u: "web_reach 1 small_web [?fb] (g\<lparr>gl_handling := (gl_handling g)(0 := Idle), gl_answers := gl_answers g @ [(1, r)]\<rparr>)"
    (is "web_reach 1 _ _ ?u") by auto
  have "(1, r) \<in> set (gl_answers ?u)" by simp
  with answers_are_whole_pictures [OF small_web u, of 8 8 3] u show ?thesis by fastforce
qed

section \<open>The message with the coordinates\<close>

lemma length_show_int: "length (show_int x) \<le> 11"
proof -
  have "- 2147483648 \<le> sint x" "sint x < 2147483648"
    using sint_ge [of x] sint_lt [of x] by simp_all
  then have "nat (- sint x) < 10 ^ 10" "nat (sint x) < 10 ^ 10" by simp_all
  then show ?thesis
    using length_show_dec [of "nat (- sint x)" 10] length_show_dec [of "nat (sint x)" 10]
    by (simp add: show_int_def)
qed

lemma snprintf_fits:
  assumes "length s < n" "n \<le> length buf"
  shows "length (snprintf n s buf) = length buf" "take (length s + 1) (snprintf n s buf) = of_string s @ [0]"
  using assms take_overwrite [of 0 "of_string s @ [0]" buf] by (simp_all add: snprintf_def)

text \<open>A message fits its array whatever the coordinates are: its text is not cut, ends with a zero,
  and every message has 160 bytes with the word \<open>OK\<close> from byte 128 on.\<close>

theorem coordinates_are_not_cut:
  assumes "length (ms_cmd (gl_sent g)) = 128" "length (ms_result (gl_sent g)) = 32"
    and "SendNewCoords True x y what g = (ok, g')"
  shows "ok \<and> (\<exists>m. gl_queue g' = gl_queue g @ [m] \<and> length m = 160 \<and>
    (\<exists>rest. m = of_string (coords_text x y what) @ 0 # rest) \<and>
    take 3 (drop 128 m) = of_string ''OK'' @ [0])"
proof -
  let ?t = "coords_text x y what"
  let ?c = "snprintf 128 ?t (ms_cmd (gl_sent g))" and ?r = "snprintf 5 ''OK'' (ms_result (gl_sent g))"
  have "length ?t < 128" using length_show_int [of x] length_show_int [of y] length_show_int [of what]
    by (simp add: coords_text_def)
  from snprintf_fits [OF this, of "ms_cmd (gl_sent g)"] assms(1)
  have c: "length ?c = 128" "take (length ?t + 1) ?c = of_string ?t @ [0]" by simp_all
  have r: "length ?r = 32" "take 3 ?r = of_string ''OK'' @ [0]"
    using snprintf_fits [of "''OK''" 5 "ms_result (gl_sent g)"] assms(2) by (simp_all add: numeral_3_eq_3)
  have "?c = (of_string ?t @ [0]) @ drop (length ?t + 1) ?c"
    unfolding c(2) [symmetric] by simp
  then have "\<exists>rest. ?c @ ?r = of_string ?t @ 0 # rest" by (metis append.assoc append_Cons append_Nil)
  moreover have "ok" "gl_queue g' = gl_queue g @ [?c @ ?r]"
    using assms(3) c(1) r(1) by (auto simp: SendNewCoords_def GetSize_def Let_def)
  ultimately show ?thesis using c(1) r by simp
qed

theorem coordinates_are_not_cut_witness:
  "\<exists>g' m rest. SendNewCoords True 0x80000000 599 1 new_Global = (True, g') \<and> gl_queue g' = [m] \<and>
     m = of_string ''got coords; x=-2147483648 y=599 what=1'' @ 0 # rest"
proof -
  have "show_int 0x80000000 = ''-2147483648''" "show_int 599 = ''599''" "show_int 1 = ''1''"
    by (simp_all add: show_int_def show_dec.simps char_of_def bit_Suc_0_iff)
  moreover obtain g' where "SendNewCoords True 0x80000000 599 1 new_Global = (True, g')"
    by (simp add: SendNewCoords_def Let_def)
  moreover from coordinates_are_not_cut [OF _ _ this] obtain m rest where "gl_queue g' = [m]"
    "m = of_string (coords_text 0x80000000 599 1) @ 0 # rest"
    by (auto simp: new_Global_def)
  ultimately show ?thesis by (auto simp: coords_text_def)
qed

section \<open>The pace\<close>

text \<open>Two frames that \<open>FrameTimeout\<close> lets through have a quarter of a second between them, and the
  seconds that the 32 bits hold go around: after 4.3 seconds of the clock its times are no longer in order.\<close>

lemma FrameTimeout_apart:
  "FrameTimeout a t = (True, u) \<Longrightarrow> FrameTimeout b u = (True, v) \<Longrightarrow> 250000000 \<le> v - u"
  by (auto simp: FrameTimeout_def Let_def not_less split: if_splits)

lemma clock_ns_around: "clock_ns 5 0 < clock_ns 2 0" "clock_ns 3 0 = - 1294967296"
  by (simp_all add: clock_ns_def)

text \<open>The task never sleeps for more than its period.\<close>

lemma frame_pause_bound: "frame_pause a b = Some us \<Longrightarrow> unat us \<le> 250000"
proof -
  assume "frame_pause a b = Some us"
  then have "us = (250000000 - (b - a)) div 1000" "b - a < 250000000"
    by (simp_all add: frame_pause_def Let_def split: if_splits)
  moreover from this(2) have "250000000 - (b - a) \<le> 250000000" by (simp add: word_le_nat_alt word_less_nat_alt unat_sub)
  ultimately show ?thesis by (simp add: word_le_nat_alt unat_div div_le_mono le_trans)
qed

section \<open>Requests for changes\<close>

text \<open>
  Whatever is asked for is answered with success, also a path that the handler does not know, a
  message that the queue did not take and a command that failed.
\<close>

lemma Update_always_succeeds:
  "path \<noteq> [] \<Longrightarrow> fst (Update accepted kRes path rq response g) \<and>
   fst (snd (Update accepted kRes path rq response g)) = response @ [SetStatus200]"
  by (simp add: Update_def Let_def)

text \<open>A quote in the address ends the argument of the command: what follows it is read by the shell.\<close>

lemma firmware_address_is_not_quoted:
  "gl_commands (snd (UpdateFirm (url @ [CHR 0x27] @ cmd @ [CHR 0x27]) kRes g)) = gl_commands g @
   [''/etc/init.d/S39gui update '' @ [CHR 0x27] @ url @ [CHR 0x27] @ cmd @ [CHR 0x27, CHR 0x27]]"
  by (simp add: UpdateFirm_def)

end
