(* ===== verification/Splash_Screen.thy ===== *)
theory Splash_Screen
  imports Regi_Stream
begin

text \<open>
  The picture that the board shows while it starts (regisplash/main.cpp): a bitmap file is copied
  row by row into the middle of the memory of the screen.

  All structures are packed.  \<open>garbage\<close> is what memory holds before it is set, and the memory of
  the screen is as long as it was asked for.
\<close>

section \<open>The screen\<close>

record SplScreen =
  sp_width :: u32
  sp_height :: u32
  sp_depth :: byte
  sp_buffer :: "byte list"

text \<open>
  \<open>mode\<close> is what the device says of its size, \<open>put\<close> whether it takes the new depth, \<open>fbdev\<close> the
  descriptor.
\<close>

definition SetVideoMode :: "(u32 \<times> u32) option \<Rightarrow> bool \<Rightarrow> int \<Rightarrow> SplScreen \<Rightarrow> bool \<times> SplScreen" where
  "SetVideoMode mode put fbdev scr =
     (if fbdev < 0 then (False, scr)
      else (case mode of
              None \<Rightarrow> (False, scr)
            | Some (xres, yres) \<Rightarrow> (put, scr\<lparr>sp_width := xres, sp_height := yres\<rparr>)))"

section \<open>Rows\<close>

text \<open>Copying pixels of three bytes to pixels of four: the fourth byte stays.\<close>

fun Copy24RowTo32 :: "nat \<Rightarrow> byte list \<Rightarrow> nat \<Rightarrow> byte list \<Rightarrow> nat \<Rightarrow> stop + byte list" where
  "Copy24RowTo32 0 dst off src col = Inr dst"
| "Copy24RowTo32 (Suc n) dst off src col =
     (if length src < 3 * col + 3 \<or> length dst < off + 4 * col + 3 then Inl OutOfBounds
      else Copy24RowTo32 n (overwrite dst (off + 4 * col) (take 3 (drop (3 * col) src))) off src (col + 1))"

record Bitmap =
  bm_depth :: u32
  bm_width :: u32
  bm_row :: u32
  bm_ext_row :: u32
  bm_x :: u32
  bm_y :: u32

definition draw_row :: "Bitmap \<Rightarrow> byte list \<Rightarrow> nat \<Rightarrow> SplScreen \<Rightarrow> stop + SplScreen" where
  "draw_row bm data row scr =
     (let kScrWidth = sp_width scr * ucast (sp_depth scr);
          kScrRowOffset = (word_of_nat row + bm_y bm) * kScrWidth;
          at = unat (kScrRowOffset + bm_x bm)
      in if bm_depth bm = ucast (sp_depth scr)
         then (case mem_read data 0 (unat (bm_row bm)) of
                 None \<Rightarrow> Inl OutOfBounds
               | Some bs \<Rightarrow>
                   (if length (sp_buffer scr) < at + length bs then Inl OutOfBounds
                    else Inr (scr\<lparr>sp_buffer := overwrite (sp_buffer scr) at bs\<rparr>)))
         else if sp_depth scr = 4
         then (case Copy24RowTo32 (unat (ucast (bm_width bm) :: u16)) (sp_buffer scr) at data 0 of
                 Inl x \<Rightarrow> Inl x
               | Inr buf \<Rightarrow> Inr (scr\<lparr>sp_buffer := buf\<rparr>))
         else Inr scr)"

text \<open>\<open>read\<close> at position \<open>pos\<close> into an array: what the file has, over what was there.\<close>

definition read_at :: "byte list \<Rightarrow> nat \<Rightarrow> nat \<Rightarrow> byte list \<Rightarrow> byte list \<times> nat" where
  "read_at bs pos n data =
     (let got = take n (drop pos bs) in (overwrite data 0 got, pos + length got))"

text \<open>The rows from \<open>n - 1\<close> down to 0.\<close>

fun print_rows :: "nat \<Rightarrow> Bitmap \<Rightarrow> byte list \<Rightarrow> nat \<Rightarrow> byte list \<Rightarrow> SplScreen \<Rightarrow> stop + SplScreen" where
  "print_rows 0 bm bs pos data scr = Inr scr"
| "print_rows (Suc row) bm bs pos data scr =
     (let (data, pos) = read_at bs pos (unat (bm_ext_row bm)) data
      in case draw_row bm data row scr of
           Inl x \<Rightarrow> Inl x
         | Inr scr \<Rightarrow> print_rows row bm bs pos data scr)"

section \<open>The file\<close>

definition field16 :: "nat \<Rightarrow> byte list \<Rightarrow> u16" where
  "field16 off bs = of_le16 (drop off bs)"

definition field32 :: "nat \<Rightarrow> byte list \<Rightarrow> u32" where
  "field32 off bs = of_le32 (drop off bs)"

definition bitmap_of :: "byte list \<Rightarrow> SplScreen \<Rightarrow> Bitmap" where
  "bitmap_of info scr =
     (let biWidth = field32 4 info; biHeight = field32 8 info;
          kDepth = ucast (field16 14 info div 8)
      in \<lparr>bm_depth = kDepth, bm_width = biWidth, bm_row = biWidth * kDepth,
          bm_ext_row = field32 20 info div biHeight,
          bm_x = ((sp_width scr - biWidth) div 2) * ucast (sp_depth scr),
          bm_y = (sp_height scr - biHeight) div 2\<rparr>)"

text \<open>A height below zero makes no turn of the loop, a height of zero a division by it.\<close>

definition PrintBMP :: "(nat \<Rightarrow> byte) \<Rightarrow> files \<Rightarrow> string \<Rightarrow> SplScreen \<Rightarrow> stop + (bool \<times> SplScreen)" where
  "PrintBMP garbage files name scr =
     (case files name of
        None \<Rightarrow> Inr (False, scr)
      | Some bs \<Rightarrow>
          (let (header, pos) = read_at bs 0 14 (map garbage [0..<14]);
               (info, _) = read_at bs pos 40 (map garbage [0..<40]);
               bm = bitmap_of info scr; biHeight = sint (field32 8 info)
           in if biHeight = 0 then Inl DivByZero
              else (case print_rows (nat (biHeight + 1)) bm bs (unat (field32 10 header))
                           (map garbage [0..<unat (bm_ext_row bm)]) scr of
                      Inl x \<Rightarrow> Inl x
                    | Inr scr \<Rightarrow> Inr (True, scr))))"

text \<open>\<open>screen_mem\<close> is what the memory of the screen holds; the process always ends with 0.\<close>

definition splash_main ::
  "string list \<Rightarrow> int \<Rightarrow> (u32 \<times> u32) option \<Rightarrow> bool \<Rightarrow> (nat \<Rightarrow> byte) \<Rightarrow> (nat \<Rightarrow> byte) \<Rightarrow> files \<Rightarrow>
   stop + (nat \<times> byte list)" where
  "splash_main argv kFBDev mode put screen_mem garbage files =
     (let scr = \<lparr>sp_width = 800, sp_height = 600, sp_depth = 4, sp_buffer = []\<rparr>;
          splash_path = (if 1 < length argv then argv ! 1 else ''/root/vbr_splash.bmp'');
          (ok, scr) = SetVideoMode mode put kFBDev scr
      in if \<not> ok then Inr (0, [])
         else (let kSize = sp_width scr * sp_height scr * ucast (sp_depth scr);
                   scr = scr\<lparr>sp_buffer := map screen_mem [0..<unat kSize]\<rparr>
               in case PrintBMP garbage files splash_path scr of
                    Inl x \<Rightarrow> Inl x
                  | Inr (_, scr) \<Rightarrow> Inr (0, sp_buffer scr)))"

section \<open>One row\<close>

lemma Copy24RowTo32_pixels:
  assumes "3 * (col + n) \<le> length src" "off + 4 * (col + n) \<le> length dst"
  shows "\<exists>dst'. Copy24RowTo32 n dst off src col = Inr dst' \<and> length dst' = length dst \<and>
    (\<forall>x c. col \<le> x \<longrightarrow> x < col + n \<longrightarrow> c < 3 \<longrightarrow> dst' ! (off + 4 * x + c) = src ! (3 * x + c)) \<and>
    (\<forall>i < length dst. i < off + 4 * col \<or> off + 4 * (col + n) \<le> i \<longrightarrow> dst' ! i = dst ! i)"
  using assms
proof (induction n arbitrary: dst col)
  case (Suc n)
  define px where "px = take 3 (drop (3 * col) src)"
  define d where "d = overwrite dst (off + 4 * col) px"
  have px: "length px = 3" "\<And>c. c < 3 \<Longrightarrow> px ! c = src ! (3 * col + c)"
    using Suc.prems(1) by (simp_all add: px_def)
  have d: "length d = length dst" using Suc.prems(2) px by (simp add: d_def)
  have nth: "d ! i = (if off + 4 * col \<le> i \<and> i < off + 4 * col + 3 then px ! (i - (off + 4 * col)) else dst ! i)"
    if "i < length dst" for i
    using nth_overwrite [of "off + 4 * col" px dst i] Suc.prems(2) px(1) that by (simp add: d_def)
  from Suc.IH [of "col + 1" d] Suc.prems d obtain dst' where
    run: "Copy24RowTo32 n d off src (col + 1) = Inr dst'" "length dst' = length dst"
    and new: "\<And>x c. col + 1 \<le> x \<Longrightarrow> x < col + 1 + n \<Longrightarrow> c < 3 \<Longrightarrow> dst' ! (off + 4 * x + c) = src ! (3 * x + c)"
    and old: "\<And>i. i < length dst \<Longrightarrow> i < off + 4 * (col + 1) \<or> off + 4 * (col + 1 + n) \<le> i \<Longrightarrow> dst' ! i = d ! i"
    by auto
  have "Copy24RowTo32 (Suc n) dst off src col = Inr dst'"
    using Suc.prems run(1) by (simp add: d_def px_def)
  moreover have "dst' ! (off + 4 * x + c) = src ! (3 * x + c)" if "col \<le> x" "x < col + Suc n" "c < 3" for x c
  proof (cases "x = col")
    case True
    then show ?thesis
      using old [of "off + 4 * col + c"] nth [of "off + 4 * col + c"] px(2) [OF that(3)] Suc.prems(2) that(3) by simp
  qed (use new [of x c] that in simp)
  moreover have "dst' ! i = dst ! i" if "i < length dst" "i < off + 4 * col \<or> off + 4 * (col + Suc n) \<le> i" for i
    using old [of i] nth [of i] that by auto
  ultimately show ?case using run(2) by blast
qed auto

section \<open>A whole picture\<close>

text \<open>
  A file with \<open>h\<close> rows of \<open>w\<close> pixels of 24 bits, \<open>ext\<close> bytes a row, from byte \<open>off\<close> to its end, and a
  screen of \<open>W\<close> times \<open>H\<close> pixels with room for it.
\<close>

definition bmp_24 :: "byte list \<Rightarrow> nat \<Rightarrow> nat \<Rightarrow> nat \<Rightarrow> nat \<Rightarrow> bool" where
  "bmp_24 bs w h ext off \<longleftrightarrow> 54 \<le> off \<and> length bs = off + h * ext \<and> length bs < 2 ^ 31 \<and> 3 * w \<le> ext \<and>
     w < 2 ^ 16 \<and> 0 < h \<and> h < 2 ^ 31 \<and> field32 10 bs = word_of_nat off \<and> field32 18 bs = word_of_nat w \<and>
     field32 22 bs = word_of_nat h \<and> field16 28 bs = 24 \<and> field32 34 bs = word_of_nat (h * ext)"

definition screen_of :: "nat \<Rightarrow> nat \<Rightarrow> SplScreen \<Rightarrow> bool" where
  "screen_of W H scr \<longleftrightarrow> sp_width scr = word_of_nat W \<and> sp_height scr = word_of_nat H \<and> sp_depth scr = 4 \<and>
     length (sp_buffer scr) = H * (4 * W) \<and> H * (4 * W) < 2 ^ 32"

definition x_offset :: "nat \<Rightarrow> nat \<Rightarrow> nat" where
  "x_offset W w = 4 * ((W - w) div 2)"

lemma x_offset: "w \<le> W \<Longrightarrow> x_offset W w + 4 * w \<le> 4 * W"
  by (simp add: x_offset_def)

definition centred :: "nat \<Rightarrow> nat \<Rightarrow> nat \<Rightarrow> nat \<Rightarrow> nat \<Rightarrow> Bitmap" where
  "centred W H w h ext =
     \<lparr>bm_depth = 3, bm_width = word_of_nat w, bm_row = word_of_nat (3 * w), bm_ext_row = word_of_nat ext,
      bm_x = word_of_nat (x_offset W w), bm_y = word_of_nat ((H - h) div 2)\<rparr>"

lemma field_take:
  "off + 4 \<le> n \<Longrightarrow> n \<le> length bs \<Longrightarrow> field32 off (take n bs) = field32 off bs"
  "off + 2 \<le> n \<Longrightarrow> n \<le> length bs \<Longrightarrow> field16 off (take n bs) = field16 off bs"
  "field32 off (drop k bs) = field32 (k + off) bs" "field16 off (drop k bs) = field16 (k + off) bs"
  by (simp_all add: field32_def field16_def of_le32_def of_le16_def drop_take ac_simps)

lemma read_at_whole:
  "pos + n \<le> length bs \<Longrightarrow> length data = n \<Longrightarrow> read_at bs pos n data = (take n (drop pos bs), pos + n)"
  by (simp add: read_at_def overwrite_def Let_def)

lemma read_at_end: "read_at bs (length bs) n data = (data, length bs)"
  by (simp add: read_at_def)

lemma unat_small: "n < 2 ^ 32 \<Longrightarrow> unat (word_of_nat n :: u32) = n"
  unfolding unat_of_nat by simp

lemma unat_is: "unat (v :: u32) = n \<Longrightarrow> v = word_of_nat n"
  by (drule sym) simp

lemma word_half:
  assumes "a \<le> b" "b < 2 ^ 32"
  shows "(word_of_nat b - word_of_nat a) div 2 = (word_of_nat ((b - a) div 2) :: u32)"
proof -
  have d: "word_of_nat b - word_of_nat a = (word_of_nat (b - a) :: u32)" using assms(1) by simp
  have "unat ((word_of_nat (b - a) :: u32) div 2) = (b - a) div 2"
    unfolding unat_div using assms unat_small [of "b - a"] by simp
  then show ?thesis unfolding d by (rule unat_is)
qed

lemma bitmap_of_24:
  assumes b: "bmp_24 bs w h ext off" and s: "screen_of W H scr" and fit: "w \<le> W" "h \<le> H" and pos: "0 < w"
  shows "bitmap_of (take 40 (drop 14 bs)) scr = centred W H w h ext"
proof -
  have l: "54 \<le> length bs" using b by (simp add: bmp_24_def)
  have f: "field32 4 (take 40 (drop 14 bs)) = word_of_nat w" "field32 8 (take 40 (drop 14 bs)) = word_of_nat h"
    "field16 14 (take 40 (drop 14 bs)) = 24" "field32 20 (take 40 (drop 14 bs)) = word_of_nat (h * ext)"
    using l b by (simp_all add: field_take) (simp_all add: bmp_24_def)
  have h: "h * ext < 2 ^ 32" "h < 2 ^ 32" using b by (simp_all add: bmp_24_def)
  have "unat (word_of_nat (h * ext) div word_of_nat h :: u32) = ext"
    unfolding unat_div unat_small [OF h(1)] unat_small [OF h(2)] using b by (simp add: bmp_24_def)
  then have e: "word_of_nat (h * ext) div word_of_nat h = (word_of_nat ext :: u32)"
    by (rule unat_is)
  have WH: "W < 2 ^ 32" "H < 2 ^ 32"
  proof -
    have "W \<le> H * (4 * W)" "H \<le> H * (4 * W)" using fit pos b by (simp_all add: bmp_24_def)
    moreover have "H * (4 * W) < 2 ^ 32" using s by (simp only: screen_of_def)
    ultimately show "W < 2 ^ 32" "H < 2 ^ 32" by linarith+
  qed
  show ?thesis
    unfolding bitmap_of_def Let_def f e using s fit WH
    by (simp add: screen_of_def centred_def word_half x_offset_def)
qed

text \<open>Where a pixel is in the memory of the screen.\<close>

definition px_at :: "nat \<Rightarrow> nat \<Rightarrow> nat \<Rightarrow> nat" where
  "px_at W w line = line * (4 * W) + x_offset W w"

lemma px_at_mono: "w \<le> W \<Longrightarrow> l < l' \<Longrightarrow> px_at W w l + 4 * w \<le> px_at W w l'"
proof -
  assume a: "w \<le> W" "l < l'"
  then have "(l + 1) * (4 * W) \<le> l' * (4 * W)" by (intro mult_le_mono1) simp
  with x_offset [OF a(1)] show ?thesis by (simp add: px_at_def algebra_simps)
qed

lemma px_at_end: "w \<le> W \<Longrightarrow> l < H \<Longrightarrow> px_at W w l + 4 * w \<le> H * (4 * W)"
proof -
  assume a: "w \<le> W" "l < H"
  then have "(l + 1) * (4 * W) \<le> H * (4 * W)" by (intro mult_le_mono1) simp
  with x_offset [OF a(1)] show ?thesis by (simp add: px_at_def algebra_simps)
qed

lemma draw_row_pixels:
  assumes s: "screen_of W H scr" and fit: "w \<le> W" "row + (H - h) div 2 < H"
    and data: "3 * w \<le> length data" and w: "w < 2 ^ 16" "0 < w"
  shows "\<exists>buf. draw_row (centred W H w h ext) data row scr = Inr (scr\<lparr>sp_buffer := buf\<rparr>) \<and>
    length buf = length (sp_buffer scr) \<and>
    (\<forall>x c. x < w \<longrightarrow> c < 3 \<longrightarrow> buf ! (px_at W w (row + (H - h) div 2) + 4 * x + c) = data ! (3 * x + c)) \<and>
    (\<forall>i < length buf. i < px_at W w (row + (H - h) div 2) \<or> px_at W w (row + (H - h) div 2) + 4 * w \<le> i \<longrightarrow>
       buf ! i = sp_buffer scr ! i)"
proof -
  let ?l = "row + (H - h) div 2" and ?at = "px_at W w (row + (H - h) div 2)"
  have at: "?at + 4 * w \<le> H * (4 * W)" by (rule px_at_end [OF fit])
  moreover have "H * (4 * W) < 2 ^ 32" using s by (simp only: screen_of_def)
  ultimately have small: "?at < 2 ^ 32" using w(2) by linarith
  have "(word_of_nat row + word_of_nat ((H - h) div 2)) * (word_of_nat W * 4) + word_of_nat (x_offset W w) =
      (word_of_nat ?at :: u32)"
    by (simp add: px_at_def algebra_simps)
  then have a: "unat ((word_of_nat row + word_of_nat ((H - h) div 2)) * (word_of_nat W * 4) +
      word_of_nat (x_offset W w) :: u32) = ?at"
    using unat_small [OF small] by simp
  have c: "unat (ucast (word_of_nat w :: u32) :: u16) = w"
    using w(1) by (simp add: unat_of_nat take_bit_eq_mod unsigned_ucast_eq)
  from Copy24RowTo32_pixels [of 0 w data ?at "sp_buffer scr"] data at s
  obtain buf where buf: "Copy24RowTo32 w (sp_buffer scr) ?at data 0 = Inr buf" "length buf = length (sp_buffer scr)"
    "\<forall>x c. x < w \<longrightarrow> c < 3 \<longrightarrow> buf ! (?at + 4 * x + c) = data ! (3 * x + c)"
    "\<forall>i < length (sp_buffer scr). i < ?at \<or> ?at + 4 * w \<le> i \<longrightarrow> buf ! i = sp_buffer scr ! i"
    by (auto simp: screen_of_def)
  have "draw_row (centred W H w h ext) data row scr = Inr (scr\<lparr>sp_buffer := buf\<rparr>)"
    using s a c buf(1) by (simp add: draw_row_def centred_def screen_of_def Let_def)
  with buf(2-) show ?thesis by auto
qed

text \<open>The rows are read one after the other, each with the bytes that fill it up.\<close>

lemma row_read:
  assumes b: "bmp_24 bs w h ext off" and k: "Suc k \<le> h" and data: "length data = ext"
  shows "\<exists>d. read_at bs (off + (h - Suc k) * ext) (unat (bm_ext_row (centred W H w h ext))) data =
      (d, off + (h - k) * ext) \<and>
    length d = ext \<and> (\<forall>i < ext. d ! i = bs ! (off + (h - Suc k) * ext + i))"
proof -
  let ?pos = "off + (h - Suc k) * ext"
  have b': "length bs = off + h * ext" "length bs < 2 ^ 31" using b by (simp_all add: bmp_24_def)
  have "h - k = Suc (h - Suc k)" using k by simp
  then have "(h - Suc k) * ext + ext = (h - k) * ext" by (simp only: mult_Suc add.commute)
  moreover have "(h - k) * ext \<le> h * ext" by simp
  ultimately have pos: "?pos + ext = off + (h - k) * ext" "?pos + ext \<le> length bs" using b'(1) by linarith+
  have "ext < 2 ^ 32" using pos(2) b'(2) by simp
  then have "read_at bs ?pos (unat (bm_ext_row (centred W H w h ext))) data =
      (take ext (drop ?pos bs), off + (h - k) * ext)"
    using read_at_whole [OF pos(2) data] pos(1) by (simp add: unat_small centred_def)
  with pos(2) show ?thesis by simp
qed

lemma print_rows_pixels:
  assumes s: "screen_of W H scr" and b: "bmp_24 bs w h ext off" and fit: "w \<le> W" "h + (H - h) div 2 < H"
    and w: "0 < w" and k: "k \<le> h" and data: "length data = ext"
  shows "\<exists>buf. print_rows (Suc k) (centred W H w h ext) bs (off + (h - k) * ext) data scr = Inr (scr\<lparr>sp_buffer := buf\<rparr>) \<and>
    length buf = length (sp_buffer scr) \<and>
    (\<forall>r x c. 1 \<le> r \<longrightarrow> r \<le> k \<longrightarrow> x < w \<longrightarrow> c < 3 \<longrightarrow>
       buf ! (px_at W w (r + (H - h) div 2) + 4 * x + c) = bs ! (off + (h - r) * ext + 3 * x + c)) \<and>
    (\<forall>x c. x < w \<longrightarrow> c < 3 \<longrightarrow> buf ! (px_at W w ((H - h) div 2) + 4 * x + c) =
       (if k = 0 then data ! (3 * x + c) else bs ! (off + (h - 1) * ext + 3 * x + c))) \<and>
    (\<forall>i < length buf. px_at W w (k + (H - h) div 2) + 4 * w \<le> i \<longrightarrow> buf ! i = sp_buffer scr ! i)"
  using s k data
proof (induction k arbitrary: scr data)
  case 0
  have "off + h * ext = length bs" using b by (simp add: bmp_24_def)
  then have rd: "read_at bs (off + h * ext) (unat (word_of_nat ext :: u32)) data = (data, length bs)"
    using read_at_end by metis
  have "3 * w \<le> length data" "w < 2 ^ 16" using b 0(3) by (simp_all add: bmp_24_def)
  from draw_row_pixels [OF 0(1) fit(1) _ this w, of 0 h ext] fit(2) rd
  show ?case by (auto simp: centred_def Let_def)
next
  case (Suc k)
  let ?Y = "(H - h) div 2" and ?pos = "off + (h - Suc k) * ext" and ?bm = "centred W H w h ext"
  have b': "3 * w \<le> ext" "w < 2 ^ 16" using b by (simp_all add: bmp_24_def)
  obtain d where rd: "read_at bs ?pos (unat (bm_ext_row ?bm)) data = (d, off + (h - k) * ext)"
    and d: "length d = ext" "\<And>i. i < ext \<Longrightarrow> d ! i = bs ! (?pos + i)"
    using row_read [OF b Suc.prems(2,3)] by blast
  have "Suc k + ?Y < H" "3 * w \<le> length d" using fit(2) Suc.prems(2) b'(1) d(1) by simp_all
  from draw_row_pixels [OF Suc.prems(1) fit(1) this b'(2) w, of ext] obtain buf1 where
    draw: "draw_row ?bm d (Suc k) scr = Inr (scr\<lparr>sp_buffer := buf1\<rparr>)" "length buf1 = length (sp_buffer scr)"
    and drawn: "\<And>x c. x < w \<Longrightarrow> c < 3 \<Longrightarrow> buf1 ! (px_at W w (Suc k + ?Y) + 4 * x + c) = d ! (3 * x + c)"
    and beyond: "\<And>i. i < length buf1 \<Longrightarrow> px_at W w (Suc k + ?Y) + 4 * w \<le> i \<Longrightarrow> buf1 ! i = sp_buffer scr ! i"
    by blast
  let ?scr = "scr\<lparr>sp_buffer := buf1\<rparr>"
  have "screen_of W H ?scr" using Suc.prems(1) draw(2) by (simp add: screen_of_def)
  from Suc.IH [OF this _ d(1)] Suc.prems(2) obtain buf where
    rest: "print_rows (Suc k) ?bm bs (off + (h - k) * ext) d ?scr = Inr (?scr\<lparr>sp_buffer := buf\<rparr>)"
      "length buf = length buf1"
    and rows: "\<And>r x c. 1 \<le> r \<Longrightarrow> r \<le> k \<Longrightarrow> x < w \<Longrightarrow> c < 3 \<Longrightarrow>
       buf ! (px_at W w (r + ?Y) + 4 * x + c) = bs ! (off + (h - r) * ext + 3 * x + c)"
    and top: "\<And>x c. x < w \<Longrightarrow> c < 3 \<Longrightarrow> buf ! (px_at W w ?Y + 4 * x + c) =
       (if k = 0 then d ! (3 * x + c) else bs ! (off + (h - 1) * ext + 3 * x + c))"
    and behind: "\<And>i. i < length buf \<Longrightarrow> px_at W w (k + ?Y) + 4 * w \<le> i \<Longrightarrow> buf ! i = buf1 ! i"
    by auto
  have next_line: "px_at W w (k + ?Y) + 4 * w \<le> px_at W w (Suc k + ?Y)" by (rule px_at_mono [OF fit(1)]) simp
  have last: "px_at W w (Suc k + ?Y) + 4 * w \<le> length buf"
    using px_at_end [OF fit(1) \<open>Suc k + ?Y < H\<close>] Suc.prems(1) rest(2) draw(2) by (simp add: screen_of_def)
  have byte: "d ! (3 * x + c) = bs ! (?pos + 3 * x + c)" if "x < w" "c < 3" for x c
    using d(2) [of "3 * x + c"] that b'(1) by (simp add: add.assoc)
  have "buf ! (px_at W w (r + ?Y) + 4 * x + c) = bs ! (off + (h - r) * ext + 3 * x + c)"
    if "1 \<le> r" "r \<le> Suc k" "x < w" "c < 3" for r x c
  proof (cases "r = Suc k")
    case True
    have "buf ! (px_at W w (Suc k + ?Y) + 4 * x + c) = buf1 ! (px_at W w (Suc k + ?Y) + 4 * x + c)"
      using that(3,4) last next_line by (intro behind) linarith+
    then show ?thesis using drawn [OF that(3,4)] byte [OF that(3,4)] True by simp
  qed (use rows that in simp)
  moreover have "print_rows (Suc (Suc k)) ?bm bs ?pos data scr = Inr (scr\<lparr>sp_buffer := buf\<rparr>)"
    using rd draw(1) rest(1) by (simp del: print_rows.simps add: print_rows.simps(2) [of "Suc k"])
  moreover have "buf ! i = sp_buffer scr ! i" if "i < length buf" "px_at W w (Suc k + ?Y) + 4 * w \<le> i" for i
    using behind [of i] beyond [of i] that next_line rest(2) by simp
  ultimately show ?case
    using rest(2) draw(2) top byte by (auto split: if_splits)
qed

lemma print_rows_start:
  assumes b: "bmp_24 bs w h ext off" and s: "screen_of W H scr" and fit: "w \<le> W" "h \<le> H" and w: "0 < w"
    and f: "files name = Some bs"
  shows "PrintBMP garbage files name scr =
    (case print_rows (Suc h) (centred W H w h ext) bs off (map garbage [0..<ext]) scr of
       Inl x \<Rightarrow> Inl x | Inr scr \<Rightarrow> Inr (True, scr))"
proof -
  have b': "54 \<le> off" "length bs = off + h * ext" "length bs < 2 ^ 31" "0 < h" "h < 2 ^ 31"
    "field32 22 bs = word_of_nat h" "field32 10 bs = word_of_nat off"
    using b by (simp_all add: bmp_24_def)
  then have l: "54 \<le> length bs" by simp
  have hd: "field32 10 (take 14 bs) = word_of_nat off" "field32 8 (take 40 (drop 14 bs)) = word_of_nat h"
    using l b' by (simp_all add: field_take)
  have "sint (word_of_nat h :: u32) = int h" using b'(5) by (simp add: signed_of_nat signed_take_bit_int_eq_self)
  moreover have "nat (int h + 1) = Suc h" by simp
  moreover have "ext \<le> h * ext" "off + h * ext < 2147483648" using b'(2-4) by simp_all
  then have "ext < 2147483648" "off < 2147483648" by linarith+
  then have "ext < 2 ^ 32" "off < 2 ^ 32" by simp_all
  ultimately show ?thesis
    using b'(4) l f bitmap_of_24 [OF b s fit w]
    by (simp add: PrintBMP_def read_at_whole hd centred_def unat_small Let_def)
qed

text \<open>C33: a picture with room around it is shown in the middle, but one row too low, since the loop
  counts from the height down to zero: row \<open>i\<close> of the file is \<open>h - i\<close> lines below the upper edge, and on the
  edge the uppermost row is repeated.\<close>

theorem picture_is_one_row_low:
  assumes "files name = Some bs" "bmp_24 bs w h ext off" "screen_of W H scr"
    and "w \<le> W" "h + (H - h) div 2 < H" "0 < w"
  shows "\<exists>buf. PrintBMP garbage files name scr = Inr (True, scr\<lparr>sp_buffer := buf\<rparr>) \<and>
    (\<forall>i x c. i < h \<longrightarrow> x < w \<longrightarrow> c < 3 \<longrightarrow>
       buf ! (px_at W w ((H - h) div 2 + (h - i)) + 4 * x + c) = bs ! (off + i * ext + 3 * x + c)) \<and>
    (\<forall>x c. x < w \<longrightarrow> c < 3 \<longrightarrow>
       buf ! (px_at W w ((H - h) div 2) + 4 * x + c) = bs ! (off + (h - 1) * ext + 3 * x + c))"
proof -
  have h: "0 < h" "h \<le> H" using assms(2,5) by (simp_all add: bmp_24_def)
  let ?px = "\<lambda>buf. (\<forall>r x c. 1 \<le> r \<longrightarrow> r \<le> h \<longrightarrow> x < w \<longrightarrow> c < 3 \<longrightarrow>
       buf ! (px_at W w (r + (H - h) div 2) + 4 * x + c) = bs ! (off + (h - r) * ext + 3 * x + c))"
  from print_rows_pixels [OF assms(3,2,4,5,6) order_refl, of "map garbage [0..<ext]"] h(1) obtain buf where
    run: "print_rows (Suc h) (centred W H w h ext) bs off (map garbage [0..<ext]) scr = Inr (scr\<lparr>sp_buffer := buf\<rparr>)"
    and px: "?px buf" and top: "\<forall>x c. x < w \<longrightarrow> c < 3 \<longrightarrow>
       buf ! (px_at W w ((H - h) div 2) + 4 * x + c) = bs ! (off + (h - 1) * ext + 3 * x + c)"
    by (simp del: print_rows.simps) blast
  have "buf ! (px_at W w ((H - h) div 2 + (h - i)) + 4 * x + c) = bs ! (off + i * ext + 3 * x + c)"
    if "i < h" "x < w" "c < 3" for i x c
    using px [rule_format, of "h - i" x c] that by (simp add: add.commute)
  with run top print_rows_start [OF assms(2,3,4) h(2) assms(6), of files name garbage] assms(1) show ?thesis
    by (intro exI [of _ buf]) (simp del: print_rows.simps)
qed

text \<open>A picture as high as the screen is never shown: the first row is copied to behind the last
  line, outside of the memory of the screen.\<close>

theorem full_height_overruns:
  assumes "files name = Some bs" "bmp_24 bs w H ext off" "screen_of W H scr"
    and "w \<le> W" "0 < w" "(H + 1) * (4 * W) < 2 ^ 32"
  shows "PrintBMP garbage files name scr = Inl OutOfBounds"
proof -
  have b: "w < 2 ^ 16" using assms(2) by (simp add: bmp_24_def)
  have at: "px_at W w H < 2 ^ 32"
    using assms(4-6) x_offset [OF assms(4)] by (simp add: px_at_def)
  have "word_of_nat H * (word_of_nat W * 4) + word_of_nat (x_offset W w) = (word_of_nat (px_at W w H) :: u32)"
    by (simp add: px_at_def algebra_simps)
  then have a: "unat (word_of_nat H * (word_of_nat W * 4) + word_of_nat (x_offset W w) :: u32) = px_at W w H"
    using unat_small [OF at] by simp
  have c: "unat (ucast (word_of_nat w :: u32) :: u16) = w"
    using b by (simp add: unat_of_nat take_bit_eq_mod unsigned_ucast_eq)
  obtain n where n: "w = Suc n" using assms(5) by (cases w) simp_all
  have "length (sp_buffer scr) < px_at W w H + 3" using assms(3) by (simp add: screen_of_def px_at_def)
  then have "Copy24RowTo32 w (sp_buffer scr) (px_at W w H) data 0 = Inl OutOfBounds" for data
    by (simp add: n)
  then have "draw_row (centred W H w H ext) data H scr = Inl OutOfBounds" for data
    using assms(3) a c by (simp add: draw_row_def centred_def screen_of_def Let_def)
  with print_rows_start [OF assms(2,3,4) order_refl assms(5), of files name garbage] assms(1) show ?thesis
    by (simp split: prod.split)
qed

text \<open>One pixel, and screens of one column.\<close>

definition dot :: "byte list" where
  "dot = [0x42, 0x4D] @ le32 58 @ le32 0 @ le32 54 @ le32 40 @ le32 1 @ le32 1 @ le16 1 @ le16 24 @
         le32 0 @ le32 4 @ replicate 16 0 @ [1, 2, 3, 0]"

definition column :: "nat \<Rightarrow> SplScreen" where
  "column H = \<lparr>sp_width = 1, sp_height = word_of_nat H, sp_depth = 4, sp_buffer = replicate (4 * H) 0\<rparr>"

lemma dot: "bmp_24 dot 1 1 4 54"
proof -
  have "field32 10 dot = 54" "field32 18 dot = 1" "field32 22 dot = 1" "field16 28 dot = 24" "field32 34 dot = 4"
    "length dot = 58"
    by code_simp+
  then show ?thesis by (simp add: bmp_24_def)
qed

lemma column: "H < 2 ^ 30 \<Longrightarrow> screen_of 1 H (column H)"
  by (simp add: screen_of_def column_def)

theorem picture_is_one_row_low_witness:
  "\<exists>buf. PrintBMP (\<lambda>_. 0) [''dot.bmp'' \<mapsto> dot] ''dot.bmp'' (column 4) = Inr (True, (column 4)\<lparr>sp_buffer := buf\<rparr>) \<and>
     map (\<lambda>i. buf ! i) [4, 5, 6, 8, 9, 10] = [1, 2, 3, 1, 2, 3]"
proof -
  have "screen_of 1 4 (column 4)" by (rule column) simp
  from picture_is_one_row_low [OF _ dot this, of "[''dot.bmp'' \<mapsto> dot]" "''dot.bmp''" "\<lambda>_. 0"]
  have "\<exists>buf. PrintBMP (\<lambda>_. 0) [''dot.bmp'' \<mapsto> dot] ''dot.bmp'' (column 4) = Inr (True, (column 4)\<lparr>sp_buffer := buf\<rparr>) \<and>
      (\<forall>c < 3. buf ! (px_at 1 1 (Suc 1) + c) = dot ! (54 + c)) \<and> (\<forall>c < 3. buf ! (px_at 1 1 1 + c) = dot ! (54 + c))"
    by simp
  then obtain buf where
    run: "PrintBMP (\<lambda>_. 0) [''dot.bmp'' \<mapsto> dot] ''dot.bmp'' (column 4) = Inr (True, (column 4)\<lparr>sp_buffer := buf\<rparr>)"
    and px: "\<And>c. c < 3 \<Longrightarrow> buf ! (px_at 1 1 (Suc 1) + c) = dot ! (54 + c)"
      "\<And>c. c < 3 \<Longrightarrow> buf ! (px_at 1 1 1 + c) = dot ! (54 + c)"
    by blast
  have "dot ! 54 = 1" "dot ! 55 = 2" "dot ! 56 = 3"
    by code_simp+
  with px [of 0] px [of 1] px [of 2] run show ?thesis
    by (intro exI [of _ buf]) (simp add: px_at_def x_offset_def)
qed

theorem full_height_overruns_witness:
  "PrintBMP (\<lambda>_. 0) [''dot.bmp'' \<mapsto> dot] ''dot.bmp'' (column 1) = Inl OutOfBounds"
proof -
  have "screen_of 1 1 (column 1)" by (rule column) simp
  then show ?thesis by (intro full_height_overruns [OF _ dot, of _ _ 1]) simp_all
qed

end
