(* ===== verification/Regi_Pswd.thy ===== *)
theory Regi_Pswd
  imports Regi_Prelude
begin

text \<open>
  The generator of passwords for the boot loader (regipswd/regipswd.cpp).  The check sum comes from
  the sources of U-Boot and is the parameter \<open>md5\<close>; \<open>rand\<close> is the sequence of random numbers that
  the time of the call selects.  What is printed is text in the character set of the source, of which
  only the words in ASCII are written out.
\<close>

text \<open>The array with the zero that ends the literal: its size counts that byte.\<close>

definition kAlphabet :: "byte list" where
  "kAlphabet = of_string (''A0bC4deF1gHijKl8mNOPq5rStuv6WxYzaBcDEfGhI'' @ ''JkL3MnopQ2RsT9UVw7XyZ'') @ [0]"

definition kAlphabetSz :: nat where
  "kAlphabetSz = length kAlphabet"

definition GeneratePswd :: "(nat \<Rightarrow> nat) \<Rightarrow> nat \<Rightarrow> byte list \<Rightarrow> bool \<times> byte list" where
  "GeneratePswd rand len out =
     (if len = 0 then (False, out)
      else (True, fold (\<lambda>i out. out[i := kAlphabet ! (rand i mod kAlphabetSz)]) [0..<len] out))"

definition PrintChars :: "byte list \<Rightarrow> bool \<Rightarrow> string" where
  "PrintChars bs hex =
     (if hex then ''0x'' @ concat (map (\<lambda>b. setw2 (show_hex (unat b))) bs) else to_string bs) @ [CHR 0x0A]"

definition kEmptyPswd :: string where
  "kEmptyPswd = '' ''"

text \<open>The options are a map; nothing comes back where the description was asked for.\<close>

definition pswd_ParseArgs :: "bool \<Rightarrow> (string \<rightharpoonup> string) \<Rightarrow> string option" where
  "pswd_ParseArgs help given =
     (if help then None else Some (case given ''pswd'' of Some p \<Rightarrow> p | None \<Rightarrow> kEmptyPswd))"

text \<open>The lines with the password, where it was generated, and with its check sum.\<close>

definition pswd_main ::
  "(nat \<Rightarrow> nat) \<Rightarrow> (byte list \<Rightarrow> byte list) \<Rightarrow> bool \<Rightarrow> (string \<rightharpoonup> string) \<Rightarrow> string option \<times> string option" where
  "pswd_main rand md5 help given =
     (case pswd_ParseArgs help given of
        None \<Rightarrow> (None, None)
      | Some ext_pswd \<Rightarrow>
          (if ext_pswd = kEmptyPswd
           then (let (_, pswd) = GeneratePswd rand 10 (replicate 10 0)
                 in (Some (PrintChars pswd False), Some (PrintChars (md5 pswd) True)))
           else (None, Some (PrintChars (md5 (of_string ext_pswd)) True))))"

section \<open>What is generated\<close>

lemma fold_set:
  "n \<le> length xs \<Longrightarrow> fold (\<lambda>i xs. xs[i := f i]) [0..<n] xs = map f [0..<n] @ drop n xs"
proof (induction n)
  case (Suc n)
  then have "drop n xs = xs ! n # drop (Suc n) xs" by (simp add: Cons_nth_drop_Suc)
  with Suc show ?case by (simp add: list_update_append)
qed simp

lemma GeneratePswd_nth:
  "0 < len \<Longrightarrow> len = length out \<Longrightarrow>
   GeneratePswd rand len out = (True, map (\<lambda>i. kAlphabet ! (rand i mod kAlphabetSz)) [0..<len])"
  by (simp add: GeneratePswd_def fold_set)

lemma kAlphabetSz: "kAlphabetSz = 63"
  by (simp add: kAlphabetSz_def kAlphabet_def of_string_def)

lemma alphabet_end: "kAlphabet ! 62 = 0"
  by (simp add: kAlphabet_def nth_append)

text \<open>A password that is generated has ten characters of the alphabet, or bytes of value zero: such
  a byte, which no console can be given, stands wherever the random number is one below a multiple of 63,
  and the check sum that is printed is that of the ten bytes.\<close>

theorem generated_password:
  assumes "given ''pswd'' = None"
  shows "\<exists>pswd. pswd_main rand md5 False given = (Some (PrintChars pswd False), Some (PrintChars (md5 pswd) True)) \<and>
    length pswd = 10 \<and> set pswd \<subseteq> set kAlphabet \<and>
    (\<forall>i < 10. pswd ! i = 0 \<longleftrightarrow> rand i mod 63 = 62)"
proof -
  define p where "p = map (\<lambda>i. kAlphabet ! (rand i mod kAlphabetSz)) [0..<10]"
  have g: "GeneratePswd rand 10 (replicate 10 0) = (True, p)"
    unfolding p_def by (rule GeneratePswd_nth) simp_all
  have p: "length p = 10" "\<And>i. i < 10 \<Longrightarrow> p ! i = kAlphabet ! (rand i mod 63)"
    by (simp_all add: p_def kAlphabetSz del: upt_rec_numeral)
  have "list_all (\<lambda>k. kAlphabet ! k \<noteq> 0) [0..<62]" by code_simp
  then have only: "kAlphabet ! k = 0 \<longleftrightarrow> k = 62" if "k < 63" for k
    using that alphabet_end by (cases "k = 62") (auto simp: list_all_iff simp del: upt_rec_numeral)
  have "kAlphabet ! k \<in> set kAlphabet" if "k < 63" for k
    using that kAlphabetSz by (simp add: kAlphabetSz_def)
  then have "set p \<subseteq> set kAlphabet" using p by (auto simp: in_set_conv_nth [of _ p])
  moreover have "\<forall>i < 10. p ! i = 0 \<longleftrightarrow> rand i mod 63 = 62" using only p(2) by simp
  moreover have "pswd_main rand md5 False given = (Some (PrintChars p False), Some (PrintChars (md5 p) True))"
    using assms by (simp add: pswd_main_def pswd_ParseArgs_def g)
  ultimately show ?thesis using p(1) by blast
qed

theorem generated_password_witness:
  "\<exists>pswd. pswd_main (\<lambda>i. 62 * i) id False Map.empty = (Some (PrintChars pswd False), Some (PrintChars (id pswd) True)) \<and>
     pswd ! 0 \<noteq> 0 \<and> pswd ! 1 = 0"
proof -
  obtain pswd where
    "pswd_main (\<lambda>i. 62 * i) id False Map.empty = (Some (PrintChars pswd False), Some (PrintChars (id pswd) True))"
    "\<And>i. i < 10 \<Longrightarrow> pswd ! i = 0 \<longleftrightarrow> 62 * i mod 63 = 62"
    using generated_password [of Map.empty "\<lambda>i. 62 * i" id] by blast
  from this(1) this(2) [of 0] this(2) [of 1] show ?thesis by (intro exI [of _ pswd]) simp
qed

end
