(* ===== verification/Board_Registers.thy ===== *)
theory Board_Registers
  imports Main
begin

text \<open>
  The registers of the measuring boards on the Modbus (regitest/modbus_test/mbcomm_rot.h): for each
  board the numbers of its registers, and the macros that give the address at which a master asks for
  one.  A register is numbered downwards from the size of its table and addressed upwards from its
  end: twice its place in the tables of measured values, which are 32 bits wide, once in the tables of
  the configuration.

  A table is a list of pairs, in the order of the file.  The macro \<open>GET_DIIMPQTY\<close> uses a name that does
  not exist and cannot be expanded; it is left out.
\<close>

section \<open>Sizes\<close>

definition c_ModbusParams :: int where "c_ModbusParams = 120"
definition c_ModbusConfig :: int where "c_ModbusConfig = 140"
definition c_ModbusCoil :: int where "c_ModbusCoil = 16"
definition c_ModbusLogic :: int where "c_ModbusLogic = 2"

definition end_adr_izm_reg16 :: int where "end_adr_izm_reg16 = c_ModbusParams * 2"
definition end_adr_conf_reg16 :: int where "end_adr_conf_reg16 = c_ModbusConfig"
definition end_adr_coil_reg16 :: int where "end_adr_coil_reg16 = c_ModbusCoil"
definition end_adr_logic_reg16 :: int where "end_adr_logic_reg16 = c_ModbusLogic"

definition MAKE_ABS :: "int \<Rightarrow> int" where
  "MAKE_ABS a = (if a < 0 then - a else a)"

text \<open>The numbers of registers, from their places.\<close>

definition measure :: "(string \<times> int) list \<Rightarrow> (string \<times> int) list" where
  "measure = map (\<lambda>(r, k). (r, c_ModbusParams - k))"

definition config :: "(string \<times> int) list \<Rightarrow> (string \<times> int) list" where
  "config = map (\<lambda>(r, k). (r, end_adr_conf_reg16 - k))"

definition coils :: "(string \<times> int) list \<Rightarrow> (string \<times> int) list" where
  "coils = map (\<lambda>(r, k). (r, end_adr_coil_reg16 - k))"

definition value_of :: "(string \<times> int) list \<Rightarrow> string \<Rightarrow> int" where
  "value_of regs r = (case map_of regs r of Some v \<Rightarrow> v | None \<Rightarrow> 0)"

section \<open>Coils\<close>

definition coil_regs :: "(string \<times> int) list" where
  "coil_regs = coils
     [(''r_ReleRaw'', 1)]"

definition logic_regs :: "(string \<times> int) list" where
  "logic_regs = coils
     [(''r_LogicInRaw'', 1), (''r_LogicOutRaw'', 2)]"

section \<open>Measured values: analogue inputs\<close>

definition adc_value_regs :: "(string \<times> int) list" where
  "adc_value_regs = measure
     [(''r_ADCh1'', 1), (''r_ADCh2'', 2), (''r_ADCh3'', 3), (''r_ADCh4'', 4), (''r_ADCh5'', 5),
      (''r_ADCh6'', 6), (''r_ADCh7'', 7), (''r_ADCh8'', 8), (''r_TempHS'', 9),
      (''r_AllCurSupply'', 10)]"

definition adc_status_regs :: "(string \<times> int) list" where
  "adc_status_regs = measure
     [(''r_ADCType_10VDet'', 11), (''r_ADStatus'', 12), (''r_AD_BreakLine'', 13),
      (''r_AD_DownDiap_UpDiap_DownNom_UpNom'', 14), (''r_AD_Overload'', 15),
      (''r_AD_Connect'', 16), (''r_AD_BadReInit'', 17), (''r_AD_Commmon_ChCrash'', 18),
      (''r_AD_TempOMMCom_TempOvlCh_TempMaxCh_TempMinCh'', 19),
      (''r_AD_SuppOMMCom_SuppOvlCh_SuppMaxCh_SuppMinCh'', 20), (''r_AD_ExternalSensorInfo'', 21),
      (''r_AD_InputElementCrash1'', 22), (''r_AD_InputElementCrash2'', 23),
      (''r_AD_InputElementCrash3'', 24), (''r_AD_InputElementCrash4'', 25),
      (''r_AD_BadCalib'', 26)]"

definition adc_time_regs :: "(string \<times> int) list" where
  "adc_time_regs = measure
     [(''r_LastReadTimeCh12'', 27), (''r_LastReadTimeCh34'', 28), (''r_LastReadTimeCh56'', 29),
      (''r_LastReadTimeCh78'', 30)]"

definition adc_temp_regs :: "(string \<times> int) list" where
  "adc_temp_regs = measure
     [(''r_ADTempCh1'', 31), (''r_ADTempCh2'', 32), (''r_ADTempCh3'', 33), (''r_ADTempCh4'', 34),
      (''r_ADTempCh5'', 35), (''r_ADTempCh6'', 36), (''r_ADTempCh7'', 37), (''r_ADTempCh8'', 38)]"

definition adc_supply_regs :: "(string \<times> int) list" where
  "adc_supply_regs = measure
     [(''r_ADUsuppCh1'', 39), (''r_ADUsuppCh2'', 40), (''r_ADUsuppCh3'', 41),
      (''r_ADUsuppCh4'', 42), (''r_ADUsuppCh5'', 43), (''r_ADUsuppCh6'', 44),
      (''r_ADUsuppCh7'', 45), (''r_ADUsuppCh8'', 46), (''r_CommCurrentSupply1'', 47),
      (''r_CommCurrentSupply2'', 48), (''r_CommShortcutChQty'', 49), (''r_CommVoltSupply1'', 50),
      (''r_CommVoltSupply2'', 51)]"

definition adc_date_regs :: "(string \<times> int) list" where
  "adc_date_regs = measure
     [(''r_HS_Cur_CalibDate'', 52), (''r_AD12_CalibDate'', 53), (''r_AD34_CalibDate'', 54),
      (''r_AD56_CalibDate'', 55), (''r_AD78_CalibDate'', 56)]"

definition adc_3w_regs :: "(string \<times> int) list" where
  "adc_3w_regs = measure
     [(''r_3w_AD1_Value'', 57), (''r_3w_AD2_Value'', 58), (''r_3w_AD3_Value'', 59),
      (''r_3w_AD4_Value'', 60), (''r_3w_AD5_Value'', 61), (''r_3w_AD6_Value'', 62),
      (''r_3w_AD7_Value'', 63), (''r_3w_AD8_Value'', 64)]"

definition adc_2w_regs :: "(string \<times> int) list" where
  "adc_2w_regs = measure
     [(''r_2w_AD1_Value'', 65), (''r_2w_AD2_Value'', 66), (''r_2w_AD3_Value'', 67),
      (''r_2w_AD4_Value'', 68), (''r_2w_AD5_Value'', 69), (''r_2w_AD6_Value'', 70),
      (''r_2w_AD7_Value'', 71), (''r_2w_AD8_Value'', 72)]"

definition adc_10v_regs :: "(string \<times> int) list" where
  "adc_10v_regs = measure
     [(''r_10v_AD1_Value'', 73), (''r_10v_AD2_Value'', 74), (''r_10v_AD3_Value'', 75),
      (''r_10v_AD4_Value'', 76), (''r_10v_AD5_Value'', 77), (''r_10v_AD6_Value'', 78),
      (''r_10v_AD7_Value'', 79), (''r_10v_AD8_Value'', 80)]"

section \<open>Measured values: discrete inputs\<close>

definition di_input_regs :: "(string \<times> int) list" where
  "di_input_regs = measure
     [(''r_DInput'', 1), (''r_DIFreqCh1'', 2), (''r_DIFreqCh2'', 3), (''r_DIFreqCh3'', 4),
      (''r_DIFreqCh4'', 5), (''r_DIFreqCh5'', 6), (''r_DIFreqCh6'', 7), (''r_DIFreqCh7'', 8),
      (''r_DIFreqCh8'', 9), (''r_DIFreqCh9'', 10), (''r_DIFreqCh10'', 11), (''r_DIFreqCh11'', 12),
      (''r_DIFreqCh12'', 13)]"

definition di_count_regs :: "(string \<times> int) list" where
  "di_count_regs = measure
     [(''r_DIImpQtyCh1H'', 14), (''r_DIImpQtyCh1L'', 15), (''r_DIImpQtyCh2H'', 16),
      (''r_DIImpQtyCh2L'', 17), (''r_DIImpQtyCh3H'', 18), (''r_DIImpQtyCh3L'', 19),
      (''r_DIImpQtyCh4H'', 20), (''r_DIImpQtyCh4L'', 21), (''r_DIImpQtyCh5H'', 22),
      (''r_DIImpQtyCh5L'', 23), (''r_DIImpQtyCh6H'', 24), (''r_DIImpQtyCh6L'', 25),
      (''r_DIImpQtyCh7H'', 26), (''r_DIImpQtyCh7L'', 27), (''r_DIImpQtyCh8H'', 28),
      (''r_DIImpQtyCh8L'', 29), (''r_DIImpQtyCh9H'', 30), (''r_DIImpQtyCh9L'', 31),
      (''r_DIImpQtyCh10H'', 32), (''r_DIImpQtyCh10L'', 33), (''r_DIImpQtyCh11H'', 34),
      (''r_DIImpQtyCh11L'', 35), (''r_DIImpQtyCh12H'', 36), (''r_DIImpQtyCh12L'', 37)]"

definition di_period_regs :: "(string \<times> int) list" where
  "di_period_regs = measure
     [(''r_DIPerDurCh1'', 38), (''r_DIPerDurCh2'', 39), (''r_DIPerDurCh3'', 40),
      (''r_DIPerDurCh4'', 41), (''r_DIPerDurCh5'', 42), (''r_DIPerDurCh6'', 43),
      (''r_DIPerDurCh7'', 44), (''r_DIPerDurCh8'', 45), (''r_DIPerDurCh9'', 46),
      (''r_DIPerDurCh10'', 47), (''r_DIPerDurCh11'', 48), (''r_DIPerDurCh12'', 49)]"

definition di_posdur_regs :: "(string \<times> int) list" where
  "di_posdur_regs = measure
     [(''r_DIPosDurCh1'', 50), (''r_DIPosDurCh2'', 51), (''r_DIPosDurCh3'', 52),
      (''r_DIPosDurCh4'', 53), (''r_DIPosDurCh5'', 54), (''r_DIPosDurCh6'', 55),
      (''r_DIPosDurCh7'', 56), (''r_DIPosDurCh8'', 57), (''r_DIPosDurCh9'', 58),
      (''r_DIPosDurCh10'', 59), (''r_DIPosDurCh11'', 60), (''r_DIPosDurCh12'', 61)]"

definition di_negdur_regs :: "(string \<times> int) list" where
  "di_negdur_regs = measure
     [(''r_DINegDurCh1'', 62), (''r_DINegDurCh2'', 63), (''r_DINegDurCh3'', 64),
      (''r_DINegDurCh4'', 65), (''r_DINegDurCh5'', 66), (''r_DINegDurCh6'', 67),
      (''r_DINegDurCh7'', 68), (''r_DINegDurCh8'', 69), (''r_DINegDurCh9'', 70),
      (''r_DINegDurCh10'', 71), (''r_DINegDurCh11'', 72), (''r_DINegDurCh12'', 73)]"

definition di_posdurpp_regs :: "(string \<times> int) list" where
  "di_posdurpp_regs = measure
     [(''r_DIPosDurPPCh1'', 74), (''r_DIPosDurPPCh2'', 75), (''r_DIPosDurPPCh3'', 76),
      (''r_DIPosDurPPCh4'', 77), (''r_DIPosDurPPCh5'', 78), (''r_DIPosDurPPCh6'', 79),
      (''r_DIPosDurPPCh7'', 80), (''r_DIPosDurPPCh8'', 81), (''r_DIPosDurPPCh9'', 82),
      (''r_DIPosDurPPCh10'', 83), (''r_DIPosDurPPCh11'', 84), (''r_DIPosDurPPCh12'', 85)]"

definition di_negdurpp_regs :: "(string \<times> int) list" where
  "di_negdurpp_regs = measure
     [(''r_DINegDurPPCh1'', 86), (''r_DINegDurPPCh2'', 87), (''r_DINegDurPPCh3'', 88),
      (''r_DINegDurPPCh4'', 89), (''r_DINegDurPPCh5'', 90), (''r_DINegDurPPCh6'', 91),
      (''r_DINegDurPPCh7'', 92), (''r_DINegDurPPCh8'', 93), (''r_DINegDurPPCh9'', 94),
      (''r_DINegDurPPCh10'', 95), (''r_DINegDurPPCh11'', 96), (''r_DINegDurPPCh12'', 97)]"

definition di_duty_regs :: "(string \<times> int) list" where
  "di_duty_regs = measure
     [(''r_DIDutyCh1'', 98), (''r_DIDutyCh2'', 99), (''r_DIDutyCh3'', 100),
      (''r_DIDutyCh4'', 101), (''r_DIDutyCh5'', 102), (''r_DIDutyCh6'', 103),
      (''r_DIDutyCh7'', 104), (''r_DIDutyCh8'', 105), (''r_DIDutyCh9'', 106),
      (''r_DIDutyCh10'', 107), (''r_DIDutyCh11'', 108), (''r_DIDutyCh12'', 109)]"

section \<open>Measured values: discrete inputs up to version 2.30\<close>

definition old_input_regs :: "(string \<times> int) list" where
  "old_input_regs = measure
     [(''r_Old_DInput'', 1), (''r_Old_DIFreqCh1'', 2), (''r_Old_DIFreqCh2'', 3),
      (''r_Old_DIFreqCh3'', 4), (''r_Old_DIFreqCh4'', 5), (''r_Old_DIFreqCh5'', 6),
      (''r_Old_DIFreqCh6'', 7), (''r_Old_DIFreqCh7'', 8), (''r_Old_DIFreqCh8'', 9),
      (''r_Old_DIFreqCh9'', 10), (''r_Old_DIFreqCh10'', 11), (''r_Old_DIFreqCh11'', 12),
      (''r_Old_DIFreqCh12'', 13)]"

definition old_period_regs :: "(string \<times> int) list" where
  "old_period_regs = measure
     [(''r_Old_DIPerDurCh1'', 14), (''r_Old_DIPerDurCh2'', 15), (''r_Old_DIPerDurCh3'', 16),
      (''r_Old_DIPerDurCh4'', 17), (''r_Old_DIPerDurCh5'', 18), (''r_Old_DIPerDurCh6'', 19),
      (''r_Old_DIPerDurCh7'', 20), (''r_Old_DIPerDurCh8'', 21), (''r_Old_DIPerDurCh9'', 22),
      (''r_Old_DIPerDurCh10'', 23), (''r_Old_DIPerDurCh11'', 24), (''r_Old_DIPerDurCh12'', 25)]"

definition old_posdur_regs :: "(string \<times> int) list" where
  "old_posdur_regs = measure
     [(''r_Old_DIPosDurCh1'', 26), (''r_Old_DIPosDurCh2'', 27), (''r_Old_DIPosDurCh3'', 28),
      (''r_Old_DIPosDurCh4'', 29), (''r_Old_DIPosDurCh5'', 30), (''r_Old_DIPosDurCh6'', 31),
      (''r_Old_DIPosDurCh7'', 32), (''r_Old_DIPosDurCh8'', 33), (''r_Old_DIPosDurCh9'', 34),
      (''r_Old_DIPosDurCh10'', 35), (''r_Old_DIPosDurCh11'', 36), (''r_Old_DIPosDurCh12'', 37)]"

definition old_negdur_regs :: "(string \<times> int) list" where
  "old_negdur_regs = measure
     [(''r_Old_DINegDurCh1'', 38), (''r_Old_DINegDurCh2'', 39), (''r_Old_DINegDurCh3'', 40),
      (''r_Old_DINegDurCh4'', 41), (''r_Old_DINegDurCh5'', 42), (''r_Old_DINegDurCh6'', 43),
      (''r_Old_DINegDurCh7'', 44), (''r_Old_DINegDurCh8'', 45), (''r_Old_DINegDurCh9'', 46),
      (''r_Old_DINegDurCh10'', 47), (''r_Old_DINegDurCh11'', 48), (''r_Old_DINegDurCh12'', 49)]"

definition old_posdurpp_regs :: "(string \<times> int) list" where
  "old_posdurpp_regs = measure
     [(''r_Old_DIPosDurPPCh1'', 50), (''r_Old_DIPosDurPPCh2'', 51), (''r_Old_DIPosDurPPCh3'', 52),
      (''r_Old_DIPosDurPPCh4'', 53), (''r_Old_DIPosDurPPCh5'', 54), (''r_Old_DIPosDurPPCh6'', 55),
      (''r_Old_DIPosDurPPCh7'', 56), (''r_Old_DIPosDurPPCh8'', 57), (''r_Old_DIPosDurPPCh9'', 58),
      (''r_Old_DIPosDurPPCh10'', 59), (''r_Old_DIPosDurPPCh11'', 60),
      (''r_Old_DIPosDurPPCh12'', 61)]"

definition old_negdurpp_regs :: "(string \<times> int) list" where
  "old_negdurpp_regs = measure
     [(''r_Old_DINegDurPPCh1'', 62), (''r_Old_DINegDurPPCh2'', 63), (''r_Old_DINegDurPPCh3'', 64),
      (''r_Old_DINegDurPPCh4'', 65), (''r_Old_DINegDurPPCh5'', 66), (''r_Old_DINegDurPPCh6'', 67),
      (''r_Old_DINegDurPPCh7'', 68), (''r_Old_DINegDurPPCh8'', 69), (''r_Old_DINegDurPPCh9'', 70),
      (''r_Old_DINegDurPPCh10'', 71), (''r_Old_DINegDurPPCh11'', 72),
      (''r_Old_DINegDurPPCh12'', 73)]"

definition old_duty_regs :: "(string \<times> int) list" where
  "old_duty_regs = measure
     [(''r_Old_DIDutyCh1'', 74), (''r_Old_DIDutyCh2'', 75), (''r_Old_DIDutyCh3'', 76),
      (''r_Old_DIDutyCh4'', 77), (''r_Old_DIDutyCh5'', 78), (''r_Old_DIDutyCh6'', 79),
      (''r_Old_DIDutyCh7'', 80), (''r_Old_DIDutyCh8'', 81), (''r_Old_DIDutyCh9'', 82),
      (''r_Old_DIDutyCh10'', 83), (''r_Old_DIDutyCh11'', 84), (''r_Old_DIDutyCh12'', 85)]"

definition old_count_regs :: "(string \<times> int) list" where
  "old_count_regs = measure
     [(''r_Old_DIImpQtyCh1H'', 86), (''r_Old_DIImpQtyCh1L'', 87), (''r_Old_DIImpQtyCh2H'', 88),
      (''r_Old_DIImpQtyCh2L'', 89), (''r_Old_DIImpQtyCh3H'', 90), (''r_Old_DIImpQtyCh3L'', 91),
      (''r_Old_DIImpQtyCh4H'', 92), (''r_Old_DIImpQtyCh4L'', 93), (''r_Old_DIImpQtyCh5H'', 94),
      (''r_Old_DIImpQtyCh5L'', 95), (''r_Old_DIImpQtyCh6H'', 96), (''r_Old_DIImpQtyCh6L'', 97),
      (''r_Old_DIImpQtyCh7H'', 98), (''r_Old_DIImpQtyCh7L'', 99), (''r_Old_DIImpQtyCh8H'', 100),
      (''r_Old_DIImpQtyCh8L'', 101), (''r_Old_DIImpQtyCh9H'', 102), (''r_Old_DIImpQtyCh9L'', 103),
      (''r_Old_DIImpQtyCh10H'', 104), (''r_Old_DIImpQtyCh10L'', 105),
      (''r_Old_DIImpQtyCh11H'', 106), (''r_Old_DIImpQtyCh11L'', 107),
      (''r_Old_DIImpQtyCh12H'', 108), (''r_Old_DIImpQtyCh12L'', 109)]"

section \<open>Configuration\<close>

definition common_conf_regs :: "(string \<times> int) list" where
  "common_conf_regs = config
     [(''r_FEId'', 1), (''r_Modif'', 2), (''r_SerialNumber'', 3), (''r_ManufDate'', 4),
      (''r_ManufPart'', 5), (''r_FEStatus'', 6), (''r_Address'', 7), (''r_UARTparam'', 8),
      (''r_FRAMType'', 9), (''r_HSScale'', 10), (''r_HardwareVer'', 11), (''r_FirmwareVer'', 12),
      (''r_OutputParam'', 13), (''r_TestCmd'', 14), (''r_Calib'', 15), (''r_Restore'', 16),
      (''r_Password'', 17), (''r_ReservPass'', 18), (''r_Cmd'', 19)]"

definition adc_conf_regs :: "(string \<times> int) list" where
  "adc_conf_regs = config
     [(''r_BreakLinePeriod'', 20), (''r_ADChipType'', 21), (''r_ADSingleConvEn'', 22),
      (''r_ADSingleConv'', 23)]"

definition adc_mode_regs :: "(string \<times> int) list" where
  "adc_mode_regs = config
     [(''r_AD1Mode'', 24), (''r_AD1Settings'', 25), (''r_AD2Mode'', 26), (''r_AD2Settings'', 27),
      (''r_AD3Mode'', 28), (''r_AD3Settings'', 29), (''r_AD4Mode'', 30), (''r_AD4Settings'', 31),
      (''r_AD5Mode'', 32), (''r_AD5Settings'', 33), (''r_AD6Mode'', 34), (''r_AD6Settings'', 35),
      (''r_AD7Mode'', 36), (''r_AD7Settings'', 37), (''r_AD8Mode'', 38), (''r_AD8Settings'', 39)]"

definition adc_calib_regs :: "(string \<times> int) list" where
  "adc_calib_regs = config
     [(''r_ADNum'', 40), (''r_ADDiap'', 41), (''r_ADZeroH'', 42), (''r_ADZeroL'', 43),
      (''r_ADHalfScaleH'', 44), (''r_ADHalfScaleL'', 45), (''r_ADScaleH'', 46),
      (''r_ADScaleL'', 47)]"

definition adc_debug_regs :: "(string \<times> int) list" where
  "adc_debug_regs = config
     [(''r_Debug1'', 56), (''r_Debug2'', 57), (''r_Debug3'', 58), (''r_Debug4'', 59),
      (''r_Debug5'', 60), (''r_Debug6'', 61), (''r_Debug7'', 62), (''r_Debug8'', 63),
      (''r_Debug9'', 64), (''r_Debug10'', 65)]"

definition adc_manual_regs :: "(string \<times> int) list" where
  "adc_manual_regs = config
     [(''r_10v2w3w_AD1_ManualH'', 66), (''r_10v2w3w_AD1_ManualL'', 67),
      (''r_10v2w3w_AD2_ManualH'', 68), (''r_10v2w3w_AD2_ManualL'', 69),
      (''r_10v2w3w_AD3_ManualH'', 70), (''r_10v2w3w_AD3_ManualL'', 71),
      (''r_10v2w3w_AD4_ManualH'', 72), (''r_10v2w3w_AD4_ManualL'', 73),
      (''r_10v2w3w_AD5_ManualH'', 74), (''r_10v2w3w_AD5_ManualL'', 75),
      (''r_10v2w3w_AD6_ManualH'', 76), (''r_10v2w3w_AD6_ManualL'', 77),
      (''r_10v2w3w_AD7_ManualH'', 78), (''r_10v2w3w_AD7_ManualL'', 79),
      (''r_10v2w3w_AD8_ManualH'', 80), (''r_10v2w3w_AD8_ManualL'', 81), (''r_CurrentDate'', 82)]"

definition adc_breakline_regs :: "(string \<times> int) list" where
  "adc_breakline_regs = config
     [(''r_AD1BreakLinePeriod'', 85), (''r_AD2BreakLinePeriod'', 86),
      (''r_AD3BreakLinePeriod'', 87), (''r_AD4BreakLinePeriod'', 88),
      (''r_AD5BreakLinePeriod'', 89), (''r_AD6BreakLinePeriod'', 90),
      (''r_AD7BreakLinePeriod'', 91), (''r_AD8BreakLinePeriod'', 92)]"

definition adc_ut_regs :: "(string \<times> int) list" where
  "adc_ut_regs = config
     [(''r_AD1UTPeriod'', 93), (''r_AD2UTPeriod'', 94), (''r_AD3UTPeriod'', 95),
      (''r_AD4UTPeriod'', 96), (''r_AD5UTPeriod'', 97), (''r_AD6UTPeriod'', 98),
      (''r_AD7UTPeriod'', 99), (''r_AD8UTPeriod'', 100)]"

definition adc_limit_regs :: "(string \<times> int) list" where
  "adc_limit_regs = config
     [(''r_AD1BreakLineDifLimitPercent'', 101), (''r_AD2BreakLineDifLimitPercent'', 102),
      (''r_AD3BreakLineDifLimitPercent'', 103), (''r_AD4BreakLineDifLimitPercent'', 104),
      (''r_AD5BreakLineDifLimitPercent'', 105), (''r_AD6BreakLineDifLimitPercent'', 106),
      (''r_AD7BreakLineDifLimitPercent'', 107), (''r_AD8BreakLineDifLimitPercent'', 108),
      (''r_AD1BreakLineDifLimitTime'', 109), (''r_AD2BreakLineDifLimitTime'', 110),
      (''r_AD3BreakLineDifLimitTime'', 111), (''r_AD4BreakLineDifLimitTime'', 112),
      (''r_AD5BreakLineDifLimitTime'', 113), (''r_AD6BreakLineDifLimitTime'', 114),
      (''r_AD7BreakLineDifLimitTime'', 115), (''r_AD8BreakLineDifLimitTime'', 116)]"

definition adc_chip_regs :: "(string \<times> int) list" where
  "adc_chip_regs = config
     [(''r_ADRegConfig'', 130), (''r_ADRegMode'', 131), (''r_ADRegIDIO'', 132),
      (''r_ADRegStatus'', 133), (''r_ADRegDataH'', 134), (''r_ADRegDataL'', 135),
      (''r_ADRegOffsetH'', 136), (''r_ADRegOffsetL'', 137), (''r_ADRegScaleH'', 138),
      (''r_ADRegScaleL'', 139)]"

definition dac_regs :: "(string \<times> int) list" where
  "dac_regs = config
     [(''r_DACh1H'', 24), (''r_DACh1L'', 25), (''r_DACh2H'', 26), (''r_DACh2L'', 27),
      (''r_DACh3H'', 28), (''r_DACh3L'', 29), (''r_DACh4H'', 30), (''r_DACh4L'', 31),
      (''r_DACh5H'', 32), (''r_DACh5L'', 33), (''r_DACh6H'', 34), (''r_DACh6L'', 35),
      (''r_DACh7H'', 36), (''r_DACh7L'', 37), (''r_DACh8H'', 38), (''r_DACh8L'', 39),
      (''r_DACLimits'', 40), (''r_DANum'', 50), (''r_DAZero'', 51), (''r_DAScale'', 52)]"

definition dac_date_regs :: "(string \<times> int) list" where
  "dac_date_regs = config
     [(''r_DA_CurrentDate'', 66), (''r_DA1_CalibDate'', 67), (''r_DA2_CalibDate'', 68),
      (''r_DA3_CalibDate'', 69), (''r_DA4_CalibDate'', 70), (''r_DA5_CalibDate'', 71),
      (''r_DA6_CalibDate'', 72), (''r_DA7_CalibDate'', 73), (''r_DA8_CalibDate'', 74)]"

definition relay_regs :: "(string \<times> int) list" where
  "relay_regs = config
     [(''r_Rele'', 24)]"

definition di_conf_regs :: "(string \<times> int) list" where
  "di_conf_regs = config
     [(''r_DInputTypeH'', 20), (''r_DInputTypeL'', 21), (''r_DIFreq'', 22), (''r_DIDuty'', 23),
      (''r_DIImpTrigType1'', 24), (''r_DIImpTrigType2'', 25), (''r_DIImpFilterType'', 26)]"

definition di_filter_regs :: "(string \<times> int) list" where
  "di_filter_regs = config
     [(''r_DIImpFilterPCh1'', 27), (''r_DIImpFilterPCh2'', 28), (''r_DIImpFilterPCh3'', 29),
      (''r_DIImpFilterPCh4'', 30), (''r_DIImpFilterPCh5'', 31), (''r_DIImpFilterPCh6'', 32),
      (''r_DIImpFilterPCh7'', 33), (''r_DIImpFilterPCh8'', 34), (''r_DIImpFilterPCh9'', 35),
      (''r_DIImpFilterPCh10'', 36), (''r_DIImpFilterPCh11'', 37), (''r_DIImpFilterPCh12'', 38),
      (''r_DIImpFilterMCh1'', 39), (''r_DIImpFilterMCh2'', 40), (''r_DIImpFilterMCh3'', 41),
      (''r_DIImpFilterMCh4'', 42), (''r_DIImpFilterMCh5'', 43), (''r_DIImpFilterMCh6'', 44),
      (''r_DIImpFilterMCh7'', 45), (''r_DIImpFilterMCh8'', 46), (''r_DIImpFilterMCh9'', 47),
      (''r_DIImpFilterMCh10'', 48), (''r_DIImpFilterMCh11'', 49), (''r_DIImpFilterMCh12'', 50),
      (''r_DIImpEnable'', 51), (''r_DIImpEdgeLevel'', 52), (''r_DIImpFrontRear'', 53),
      (''r_DIImpBothFrontRear'', 54)]"

definition di_limit_regs :: "(string \<times> int) list" where
  "di_limit_regs = config
     [(''r_DIImpLimitCh1'', 66), (''r_DIImpLimitCh2'', 67), (''r_DIImpLimitCh3'', 68),
      (''r_DIImpLimitCh4'', 69), (''r_DIImpLimitCh5'', 70), (''r_DIImpLimitCh6'', 71),
      (''r_DIImpLimitCh7'', 72), (''r_DIImpLimitCh8'', 73), (''r_DIImpLimitCh9'', 74),
      (''r_DIImpLimitCh10'', 75), (''r_DIImpLimitCh11'', 76), (''r_DIImpLimitCh12'', 77)]"

section \<open>Values of registers\<close>

definition channel_modes :: "(string \<times> int) list" where
  "channel_modes =
     [(''CHANNEL_MODE_VOLTAGE_30mV'', 0), (''CHANNEL_MODE_VOLTAGE_100mV'', 1),
      (''CHANNEL_MODE_VOLTAGE_1V'', 2), (''CHANNEL_MODE_VOLTAGE_10V'', 3),
      (''CHANNEL_MODE_CURRENT_5mA'', 4), (''CHANNEL_MODE_CURRENT_20mA'', 5),
      (''CHANNEL_MODE_RESISTANCE_100Om4w'', 6), (''CHANNEL_MODE_RESISTANCE_400Om4w'', 7),
      (''CHANNEL_MODE_RESISTANCE_4000Om4w'', 8), (''CHANNEL_MODE_RESISTANCE_100Om3w'', 9),
      (''CHANNEL_MODE_RESISTANCE_400Om3w'', 10), (''CHANNEL_MODE_RESISTANCE_4000Om3w'', 11),
      (''CHANNEL_MODE_RESISTANCE_100Om2w'', 12), (''CHANNEL_MODE_RESISTANCE_400Om2w'', 13),
      (''CHANNEL_MODE_RESISTANCE_4000Om2w'', 14)]"

definition adc_param_commands :: "(string \<times> int) list" where
  "adc_param_commands =
     [(''cm_AD1ParamSave'', 0xe901), (''cm_AD8ParamSave'', 0xe908), (''cm_AD1ParamRead'', 0xe911),
      (''cm_AD8ParamRead'', 0xe918)]"

definition command_masks :: "(string \<times> int) list" where
  "command_masks =
     [(''cm_TestInput_Mask'', 0xe000), (''cm_TestInputProcess_Mask'', 0xd000),
      (''cm_ZSReset_Mask'', 0xe100), (''cm_ZSCopy_Mask'', 0xe200),
      (''cm_CalibZero_Mask'', 0xe300), (''cm_CalibScale_Mask'', 0xe400),
      (''cm_CalibHalfScale_Mask'', 0xe500), (''cm_CalibDAC_Mask'', 0xe500),
      (''cm_Correct3w2w_Mask'', 0xe700), (''cm_CalibHS_Mask'', 0xea00),
      (''cm_Correct10V_Mask'', 0xeb00), (''cm_WriteManual10v3w2w_Mask'', 0xec00),
      (''cm_FRAMOperations_Mask'', 0xe990)]"

definition adc_commands :: "(string \<times> int) list" where
  "adc_commands =
     [(''cm_LoadDefFRAM'', 0xe990), (''cm_ClearFRAM'', 0xe999),
      (''cm_ZSReset_D01V_ChAll'', 0xe110), (''cm_ZSReset_D003V_Ch1'', 0xe111),
      (''cm_ZSReset_D01V_Ch1'', 0xe121), (''cm_ZSReset_D4k_Ch8'', 0xe1f8),
      (''cm_ZSCopy_D01V_ChAll'', 0xe210), (''cm_ZSCopy_D01V_Ch1'', 0xe211),
      (''cm_ZSCopy_D01V_Ch1'', 0xe211), (''cm_ZSCopy_D4k_Ch8'', 0xe2f8),
      (''cm_CalibZero_D01V_ChAll'', 0xe310), (''cm_CalibZero_D003V_Ch1'', 0xe311),
      (''cm_CalibZero_D01V_Ch1'', 0xe321), (''cm_CalibZero_D4k_Ch8'', 0xe3f8),
      (''cm_CalibScale_D01V_ChAll'', 0xe410), (''cm_CalibScale_D003V_Ch1'', 0xe411),
      (''cm_CalibScale_D01V_Ch1'', 0xe421), (''cm_CalibScale_D4k_Ch8'', 0xe4f8),
      (''cm_Calib100ohm3w_Ch1'', 0xe7c1), (''cm_Calib400ohm3w_Ch1'', 0xe7c1),
      (''cm_Calib4000ohm3w_Ch1'', 0xe7c1), (''cm_Calib100ohm3w_Ch8'', 0xe7c8),
      (''cm_Calib400ohm3w_Ch8'', 0xe7c8), (''cm_Calib4000ohm3w_Ch8'', 0xe7c8),
      (''cm_Calib100ohm2w_Ch1'', 0xe7d1), (''cm_Calib400ohm2w_Ch1'', 0xe7d1),
      (''cm_Calib4000ohm2w_Ch1'', 0xe7d1), (''cm_Calib100ohm2w_Ch8'', 0xe7d8),
      (''cm_Calib400ohm2w_Ch8'', 0xe7d8), (''cm_Calib4000ohm2w_Ch8'', 0xe7d8),
      (''cm_CalibTestRefZero_ChAll'', 0xe800), (''cm_CalibTestRefZero_Ch1'', 0xe801),
      (''cm_CalibTestRefZero_Ch8'', 0xe808), (''cm_CalibHS'', 0xea00)]"

definition test_commands :: "(string \<times> int) list" where
  "test_commands =
     [(''cm_TestInputAll_ChAll'', 0xe000), (''cm_TestInput1_ChAll'', 0xe010),
      (''cm_TestInput2_ChAll'', 0xe020), (''cm_TestInput3_ChAll'', 0xe030),
      (''cm_TestInput4_ChAll'', 0xe040), (''cm_TestInputAll_Ch1'', 0xe001),
      (''cm_TestInput1_Ch1'', 0xe011), (''cm_TestInput2_Ch1'', 0xe021),
      (''cm_TestInput3_Ch1'', 0xe031), (''cm_TestInput4_Ch1'', 0xe041),
      (''cm_TestInputAll_Ch8'', 0xe008), (''cm_TestInput1_Ch8'', 0xe018),
      (''cm_TestInput2_Ch8'', 0xe028), (''cm_TestInput3_Ch8'', 0xe038),
      (''cm_TestInput4_Ch8'', 0xe048)]"

definition adc_results :: "(string \<times> int) list" where
  "adc_results =
     [(''err_ADCCalibOk'', 0x1000), (''err_ADCInProcess'', 0x1000), (''err_ADCNoCh'', 0x2000),
      (''err_ADCNoDiap'', 0x3000), (''err_ADCDiapNotEqu'', 0x4000),
      (''err_ADCCalibOverNorm'', 0x5000), (''err_ADCZeroCalibNotOk'', 0x6000),
      (''err_ADCNoHalfDiap'', 0x7000)]"

definition dac_commands :: "(string \<times> int) list" where
  "dac_commands =
     [(''cm_CalibDACZero_Ch1'', 0xe501), (''cm_CalibDACScale_Ch1'', 0xe511),
      (''cm_CalibDACEnd_Ch1'', 0xe521), (''cm_CalibDACPlus_Ch1'', 0xe531),
      (''cm_CalibDACMinus_Ch1'', 0xe541), (''cm_CalibDACReset_Ch1'', 0xe551),
      (''cm_CalibDACCancel_Ch1'', 0xe561), (''cm_CalibDACZero_Ch8'', 0xe508),
      (''cm_CalibDACScale_Ch8'', 0xe518), (''cm_CalibDACEnd_Ch8'', 0xe528),
      (''cm_CalibDACPlus_Ch8'', 0xe538), (''cm_CalibDACMinus_Ch8'', 0xe548),
      (''cm_CalibDACReset_Ch8'', 0xe558), (''cm_CalibDACCancel_Ch8'', 0xe568)]"

definition restore_commands :: "(string \<times> int) list" where
  "restore_commands =
     [(''cm_rAllDefault'', 0xe630), (''cm_rAllManufToW'', 0xe631),
      (''cm_rZSCalibDefault'', 0xe632), (''cm_rZSCalibManufToW'', 0xe633),
      (''cm_rDACCalibDefault'', 0xe634), (''cm_rDACCalibManufToW'', 0xe635),
      (''cm_rLastCalibZToW'', 0xe636), (''cm_rLastCalibSToW'', 0xe637),
      (''cm_rLastCalibDAC1'', 0xe638), (''cm_rLastCalibDAC2'', 0xe639),
      (''cm_rRegMapDefault'', 0xe63a), (''cm_rRegMapManufToW'', 0xe63b),
      (''cm_rAllMWDefault'', 0xe63c), (''cm_rZSCalibMWDefault'', 0xe63d),
      (''cm_rDACCalibMWDefault'', 0xe63e), (''cm_rRegMapMWDefault'', 0xe63f)]"

definition di_commands :: "(string \<times> int) list" where
  "di_commands =
     [(''cm_DIResetChAll'', 0xe10f), (''cm_DIResetCh1'', 0xe101), (''cm_DIResetCh2'', 0xe102),
      (''cm_DIResetCh3'', 0xe103), (''cm_DIResetCh4'', 0xe104), (''cm_DIResetCh5'', 0xe105),
      (''cm_DIResetCh6'', 0xe106), (''cm_DIResetCh7'', 0xe107), (''cm_DIResetCh8'', 0xe108),
      (''cm_DIResetCh9'', 0xe109), (''cm_DIResetCh10'', 0xe10a), (''cm_DIResetCh11'', 0xe10b),
      (''cm_DIResetCh12'', 0xe10c), (''cm_DIResetCh_Mask'', 0xe100)]"

section \<open>Addresses\<close>

definition r_ADCType :: int where
  "r_ADCType = value_of adc_status_regs ''r_ADCType_10VDet''"

definition GET_ADCh :: "int \<Rightarrow> int" where
  "GET_ADCh n = - 2 * (value_of adc_value_regs ''r_ADCh1'' - c_ModbusParams + 1) + (2 * (n - 1))"

definition GET_COLDJUNCTION_TEMP :: "int \<Rightarrow> int" where
  "GET_COLDJUNCTION_TEMP n = - 2 * (value_of adc_value_regs ''r_TempHS'' - c_ModbusParams + 1) + (2 * (n - 1))"

definition GET_ALLCURSUPPLY :: "int \<Rightarrow> int" where
  "GET_ALLCURSUPPLY n = - 2 * (value_of adc_value_regs ''r_AllCurSupply'' - c_ModbusParams + 1) + (2 * (n - 1))"

definition GET_ADCTYPE :: "int" where
  "GET_ADCTYPE = MAKE_ABS (2 * (r_ADCType - c_ModbusParams + 1))"

definition GET_ADSTATUS :: "int" where
  "GET_ADSTATUS = MAKE_ABS (2 * (value_of adc_status_regs ''r_ADStatus'' - c_ModbusParams + 1))"

definition GET_AD_BREAKLINE :: "int" where
  "GET_AD_BREAKLINE = MAKE_ABS (2 * (value_of adc_status_regs ''r_AD_BreakLine'' - c_ModbusParams + 1))"

definition GET_LASTREADTIMECH :: "int \<Rightarrow> int" where
  "GET_LASTREADTIMECH n = - 2 * (value_of adc_time_regs ''r_LastReadTimeCh12'' - c_ModbusParams + 1) + (2 * (n - 1))"

definition GET_ADTEMPCH :: "int \<Rightarrow> int" where
  "GET_ADTEMPCH n = - 2 * (value_of adc_temp_regs ''r_ADTempCh1'' - c_ModbusParams + 1) - (2 * (n - 1))"

definition GET_ADVOLTAGESUPP :: "int \<Rightarrow> int" where
  "GET_ADVOLTAGESUPP n = - 2 * (value_of adc_supply_regs ''r_ADUsuppCh1'' - c_ModbusParams + 1) + (2 * (n - 1))"

definition GET_3w_AD :: "int \<Rightarrow> int" where
  "GET_3w_AD n = - 2 * (value_of adc_3w_regs ''r_3w_AD1_Value'' - c_ModbusParams + 1) + (2 * (n - 1))"

definition GET_2w_AD :: "int \<Rightarrow> int" where
  "GET_2w_AD n = - 2 * (value_of adc_2w_regs ''r_2w_AD1_Value'' - c_ModbusParams + 1) + (2 * (n - 1))"

definition GET_DINPUT :: "int" where
  "GET_DINPUT = - 2 * (value_of di_input_regs ''r_DInput'' - c_ModbusParams + 1)"

definition GET_DIFREQ :: "int \<Rightarrow> int" where
  "GET_DIFREQ n = - 2 * (value_of di_input_regs ''r_DIFreqCh1'' - c_ModbusParams + 1) + (2 * (n - 1))"

definition GET_DIIMPTQTY64 :: "int \<Rightarrow> int" where
  "GET_DIIMPTQTY64 n = - 2 * (value_of di_count_regs ''r_DIImpQtyCh1H'' - c_ModbusParams + 1) + (2 * (n - 1))"

definition GET_DIPERDUR :: "int \<Rightarrow> int" where
  "GET_DIPERDUR n = - 2 * (value_of di_period_regs ''r_DIPerDurCh1'' - c_ModbusParams + 1) + (2 * (n - 1))"

definition GET_DIPOSDUR :: "int \<Rightarrow> int" where
  "GET_DIPOSDUR n = - 2 * (value_of di_posdur_regs ''r_DIPosDurCh1'' - c_ModbusParams + 1) + (2 * (n - 1))"

definition GET_DINEGDUR :: "int \<Rightarrow> int" where
  "GET_DINEGDUR n = - 2 * (value_of di_negdur_regs ''r_DINegDurCh1'' - c_ModbusParams + 1) + (2 * (n - 1))"

definition GET_DIPOSDURPP :: "int \<Rightarrow> int" where
  "GET_DIPOSDURPP n = - 2 * (value_of di_posdurpp_regs ''r_DIPosDurPPCh1'' - c_ModbusParams + 1) + (2 * (n - 1))"

definition GET_DINEGDURPP :: "int \<Rightarrow> int" where
  "GET_DINEGDURPP n = - 2 * (value_of di_negdurpp_regs ''r_DINegDurPPCh1'' - c_ModbusParams + 1) + (2 * (n - 1))"

definition GET_DIDUTY :: "int \<Rightarrow> int" where
  "GET_DIDUTY n = - 2 * (value_of di_duty_regs ''r_DIDutyCh1'' - c_ModbusParams + 1) + (2 * (n - 1))"

definition GET_OLD_DINPUT :: "int" where
  "GET_OLD_DINPUT = - 2 * (value_of di_input_regs ''r_DInput'' - c_ModbusParams + 1)"

definition GET_OLD_DIFREQ :: "int \<Rightarrow> int" where
  "GET_OLD_DIFREQ n = - 2 * (value_of old_input_regs ''r_Old_DIFreqCh1'' - c_ModbusParams + 1) + (2 * (n - 1))"

definition GET_OLD_DIPERDUR :: "int \<Rightarrow> int" where
  "GET_OLD_DIPERDUR n = - 2 * (value_of old_period_regs ''r_Old_DIPerDurCh1'' - c_ModbusParams + 1) + (2 * (n - 1))"

definition GET_OLD_DIPOSDUR :: "int \<Rightarrow> int" where
  "GET_OLD_DIPOSDUR n = - 2 * (value_of old_posdur_regs ''r_Old_DIPosDurCh1'' - c_ModbusParams + 1) + (2 * (n - 1))"

definition GET_OLD_DINEGDUR :: "int \<Rightarrow> int" where
  "GET_OLD_DINEGDUR n = - 2 * (value_of old_negdur_regs ''r_Old_DINegDurCh1'' - c_ModbusParams + 1) + (2 * (n - 1))"

definition GET_OLD_DIPOSDURPP :: "int \<Rightarrow> int" where
  "GET_OLD_DIPOSDURPP n = - 2 * (value_of old_posdurpp_regs ''r_Old_DIPosDurPPCh1'' - c_ModbusParams + 1) + (2 * (n - 1))"

definition GET_OLD_DINEGDURPP :: "int \<Rightarrow> int" where
  "GET_OLD_DINEGDURPP n = - 2 * (value_of old_negdurpp_regs ''r_Old_DINegDurPPCh1'' - c_ModbusParams + 1) + (2 * (n - 1))"

definition GET_OLD_DIDUTY :: "int \<Rightarrow> int" where
  "GET_OLD_DIDUTY n = - 2 * (value_of old_duty_regs ''r_Old_DIDutyCh1'' - c_ModbusParams + 1) + (2 * (n - 1))"

definition GET_OLD_DIIMPTQTY64 :: "int \<Rightarrow> int" where
  "GET_OLD_DIIMPTQTY64 n = - 2 * (value_of old_count_regs ''r_Old_DIImpQtyCh1H'' - c_ModbusParams + 1) + (2 * (n - 1))"

definition GET_FEID :: "int" where
  "GET_FEID = MAKE_ABS (value_of common_conf_regs ''r_FEId'' - end_adr_conf_reg16 + 1)"

definition GET_MODIF :: "int" where
  "GET_MODIF = MAKE_ABS (value_of common_conf_regs ''r_Modif'' - end_adr_conf_reg16 + 1)"

definition GET_SN :: "int" where
  "GET_SN = MAKE_ABS (value_of common_conf_regs ''r_SerialNumber'' - end_adr_conf_reg16 + 1)"

definition GET_MANUFDATE :: "int" where
  "GET_MANUFDATE = MAKE_ABS (value_of common_conf_regs ''r_ManufDate'' - end_adr_conf_reg16 + 1)"

definition GET_CHECKDATE :: "int" where
  "GET_CHECKDATE = MAKE_ABS (value_of common_conf_regs ''r_ManufPart'' - end_adr_conf_reg16 + 1)"

definition GET_FESTATUS :: "int" where
  "GET_FESTATUS = MAKE_ABS (value_of common_conf_regs ''r_FEStatus'' - end_adr_conf_reg16 + 1)"

definition GET_ADDRESS :: "int" where
  "GET_ADDRESS = MAKE_ABS (value_of common_conf_regs ''r_Address'' - end_adr_conf_reg16 + 1)"

definition GET_UARTPARAM :: "int" where
  "GET_UARTPARAM = MAKE_ABS (value_of common_conf_regs ''r_UARTparam'' - end_adr_conf_reg16 + 1)"

definition GET_CJScale :: "int" where
  "GET_CJScale = MAKE_ABS (value_of common_conf_regs ''r_HSScale'' - end_adr_conf_reg16 + 1)"

definition GET_HARDWAREVER :: "int" where
  "GET_HARDWAREVER = MAKE_ABS (value_of common_conf_regs ''r_HardwareVer'' - end_adr_conf_reg16 + 1)"

definition GET_FIRMWAREVER :: "int" where
  "GET_FIRMWAREVER = MAKE_ABS (value_of common_conf_regs ''r_FirmwareVer'' - end_adr_conf_reg16 + 1)"

definition GET_OUTPUTPARAM :: "int" where
  "GET_OUTPUTPARAM = MAKE_ABS (value_of common_conf_regs ''r_OutputParam'' - end_adr_conf_reg16 + 1)"

definition GET_CALIBR :: "int" where
  "GET_CALIBR = MAKE_ABS (value_of common_conf_regs ''r_Calib'' - end_adr_conf_reg16 + 1)"

definition GET_RESTORER :: "int" where
  "GET_RESTORER = MAKE_ABS (value_of common_conf_regs ''r_Restore'' - end_adr_conf_reg16 + 1)"

definition GET_PASSWORDR :: "int" where
  "GET_PASSWORDR = MAKE_ABS (value_of common_conf_regs ''r_Password'' - end_adr_conf_reg16 + 1)"

definition GET_SYSTCMDR :: "int" where
  "GET_SYSTCMDR = MAKE_ABS (value_of common_conf_regs ''r_Cmd'' - end_adr_conf_reg16 + 1)"

definition GET_ADModeR :: "int \<Rightarrow> int" where
  "GET_ADModeR n = - 1 * (value_of adc_mode_regs ''r_AD1Mode'' - end_adr_conf_reg16 + 1) + (2 * (n - 1))"

definition GET_ADSettingsR :: "int \<Rightarrow> int" where
  "GET_ADSettingsR n = - 1 * (value_of adc_mode_regs ''r_AD1Settings'' - end_adr_conf_reg16 + 1) + (2 * (n - 1))"

definition GET_DEBUG_ERROR_CODES :: "int \<Rightarrow> int" where
  "GET_DEBUG_ERROR_CODES n = - 2 * (value_of adc_debug_regs ''r_Debug1'' - end_adr_conf_reg16 + 1) + (2 * (n - 1))"

definition GET_RESIST_LINE_MANUAL :: "int \<Rightarrow> int" where
  "GET_RESIST_LINE_MANUAL n = - 1 * (value_of adc_manual_regs ''r_10v2w3w_AD1_ManualH'' - end_adr_conf_reg16 + 1) + (n - 1)"

definition GET_CALIBR_CURRENT_DATE :: "int" where
  "GET_CALIBR_CURRENT_DATE = - 1 * (value_of adc_manual_regs ''r_CurrentDate'' - end_adr_conf_reg16 + 1)"

definition GET_BREAKLINE_PERIOD :: "int \<Rightarrow> int" where
  "GET_BREAKLINE_PERIOD n = - 1 * (value_of adc_breakline_regs ''r_AD1BreakLinePeriod'' - end_adr_conf_reg16 + 1) + (n - 1)"

definition GET_UT_PERIOD :: "int \<Rightarrow> int" where
  "GET_UT_PERIOD n = - 1 * (value_of adc_ut_regs ''r_AD1UTPeriod'' - end_adr_conf_reg16 + 1) + (n - 1)"

definition GET_DACHR :: "int \<Rightarrow> int" where
  "GET_DACHR n = MAKE_ABS (value_of dac_regs ''r_DACh1H'' - end_adr_conf_reg16 + 1 - (n - 1))"

definition GET_RELAYR :: "int" where
  "GET_RELAYR = MAKE_ABS (value_of relay_regs ''r_Rele'' - end_adr_conf_reg16 + 1)"

definition GET_DI_PULSE_SIGNAL_MODE_1_6 :: "int" where
  "GET_DI_PULSE_SIGNAL_MODE_1_6 = - 1 * (value_of di_conf_regs ''r_DIImpTrigType1'' - end_adr_conf_reg16 + 1)"

definition GET_DI_PULSE_SIGNAL_MODE_7_12 :: "int" where
  "GET_DI_PULSE_SIGNAL_MODE_7_12 = - 1 * (value_of di_conf_regs ''r_DIImpTrigType2'' - end_adr_conf_reg16 + 1)"

definition GET_DI_FILTER_TYPE :: "int" where
  "GET_DI_FILTER_TYPE = - 1 * (value_of di_conf_regs ''r_DIImpFilterType'' - end_adr_conf_reg16 + 1)"

definition GET_DI_FILTER_POSITIVE :: "int \<Rightarrow> int" where
  "GET_DI_FILTER_POSITIVE n = - 1 * (value_of di_filter_regs ''r_DIImpFilterPCh1'' - end_adr_conf_reg16 + 1) + (1 * (n - 1))"

definition GET_DI_FILTER_NEGATIVE :: "int \<Rightarrow> int" where
  "GET_DI_FILTER_NEGATIVE n = - 1 * (value_of di_filter_regs ''r_DIImpFilterMCh1'' - end_adr_conf_reg16 + 1) + (1 * (n - 1))"

section \<open>The registers of one board\<close>

text \<open>The tables that one board answers from, with their sizes.\<close>

definition adc_measure :: "(string \<times> int) list" where
  "adc_measure = adc_value_regs @ adc_status_regs @ adc_time_regs @ adc_temp_regs @ adc_supply_regs @
     adc_date_regs @ adc_3w_regs @ adc_2w_regs @ adc_10v_regs"

definition di_measure :: "(string \<times> int) list" where
  "di_measure = di_input_regs @ di_count_regs @ di_period_regs @ di_posdur_regs @ di_negdur_regs @
     di_posdurpp_regs @ di_negdurpp_regs @ di_duty_regs"

definition old_measure :: "(string \<times> int) list" where
  "old_measure = old_input_regs @ old_period_regs @ old_posdur_regs @ old_negdur_regs @ old_posdurpp_regs @
     old_negdurpp_regs @ old_duty_regs @ old_count_regs"

definition adc_config :: "(string \<times> int) list" where
  "adc_config = common_conf_regs @ adc_conf_regs @ adc_mode_regs @ adc_calib_regs @ adc_debug_regs @
     adc_manual_regs @ adc_breakline_regs @ adc_ut_regs @ adc_limit_regs @ adc_chip_regs"

definition dac_config :: "(string \<times> int) list" where
  "dac_config = common_conf_regs @ dac_regs @ dac_date_regs"

definition di_config :: "(string \<times> int) list" where
  "di_config = common_conf_regs @ di_conf_regs @ di_filter_regs @ di_limit_regs"

definition boards :: "(int \<times> (string \<times> int) list) list" where
  "boards = [(c_ModbusParams, adc_measure), (c_ModbusParams, di_measure), (c_ModbusParams, old_measure),
     (end_adr_conf_reg16, adc_config), (end_adr_conf_reg16, dac_config),
     (end_adr_conf_reg16, common_conf_regs @ relay_regs), (end_adr_conf_reg16, di_config),
     (end_adr_coil_reg16, coil_regs), (end_adr_coil_reg16, logic_regs)]"

text \<open>Which places of each table are taken.\<close>

lemma taken:
  "map snd adc_measure = map (\<lambda>k. 120 - k) [1..80]"
  "map snd di_measure = map (\<lambda>k. 120 - k) [1..109]"
  "map snd old_measure = map (\<lambda>k. 120 - k) [1..109]"
  "map snd adc_config = map (\<lambda>k. 140 - k) ([1..47] @ [56..82] @ [85..116] @ [130..139])"
  "map snd dac_config = map (\<lambda>k. 140 - k) ([1..19] @ [24..40] @ [50..52] @ [66..74])"
  "map snd (common_conf_regs @ relay_regs) = map (\<lambda>k. 140 - k) ([1..19] @ [24..24])"
  "map snd di_config = map (\<lambda>k. 140 - k) ([1..19] @ [20..54] @ [66..77])"
  "map snd coil_regs = map (\<lambda>k. 16 - k) [1..1]"
  "map snd logic_regs = map (\<lambda>k. 16 - k) [1..2]"
  by code_simp+

definition apart_below :: "int \<Rightarrow> int list \<Rightarrow> bool" where
  "apart_below sz vs \<longleftrightarrow> distinct vs \<and> list_all (\<lambda>v. 0 \<le> v \<and> v < sz) vs"

text \<open>No two registers of a board share a number, and every number is one of its table.\<close>

theorem registers_are_apart:
  "list_all (\<lambda>(sz, regs). apart_below sz (map snd regs)) boards"
  by code_simp

section \<open>Where a register is asked for\<close>

text \<open>The address of a register, from its number.\<close>

definition measure_address :: "int \<Rightarrow> int" where
  "measure_address v = 2 * (c_ModbusParams - 1 - v)"

definition config_address :: "int \<Rightarrow> int" where
  "config_address v = end_adr_conf_reg16 - 1 - v"

text \<open>Every second register of a table, from the first or the second on.\<close>

definition every_other :: "nat \<Rightarrow> nat \<Rightarrow> (string \<times> int) list \<Rightarrow> (string \<times> int) list" where
  "every_other from n regs = map (\<lambda>i. regs ! (from + 2 * i)) [0..<n]"

text \<open>The macros for channels and the registers of these channels, first those of measured values.\<close>

definition measure_macros :: "((int \<Rightarrow> int) \<times> (string \<times> int) list) list" where
  "measure_macros =
     [(GET_ADCh, take 8 adc_value_regs), (GET_COLDJUNCTION_TEMP, [adc_value_regs ! 8]),
      (GET_ALLCURSUPPLY, [adc_value_regs ! 9]), (GET_LASTREADTIMECH, adc_time_regs),
      (GET_ADVOLTAGESUPP, take 8 adc_supply_regs), (GET_3w_AD, adc_3w_regs), (GET_2w_AD, adc_2w_regs),
      (GET_DIFREQ, tl di_input_regs), (GET_DIIMPTQTY64, di_count_regs), (GET_DIPERDUR, di_period_regs),
      (GET_DIPOSDUR, di_posdur_regs), (GET_DINEGDUR, di_negdur_regs), (GET_DIPOSDURPP, di_posdurpp_regs),
      (GET_DINEGDURPP, di_negdurpp_regs), (GET_DIDUTY, di_duty_regs),
      (GET_OLD_DIFREQ, tl old_input_regs), (GET_OLD_DIPERDUR, old_period_regs),
      (GET_OLD_DIPOSDUR, old_posdur_regs), (GET_OLD_DINEGDUR, old_negdur_regs),
      (GET_OLD_DIPOSDURPP, old_posdurpp_regs), (GET_OLD_DINEGDURPP, old_negdurpp_regs),
      (GET_OLD_DIDUTY, old_duty_regs), (GET_OLD_DIIMPTQTY64, old_count_regs),
      (\<lambda>_. GET_ADCTYPE, [adc_status_regs ! 0]), (\<lambda>_. GET_ADSTATUS, [adc_status_regs ! 1]),
      (\<lambda>_. GET_AD_BREAKLINE, [adc_status_regs ! 2]), (\<lambda>_. GET_DINPUT, [di_input_regs ! 0]),
      (\<lambda>_. GET_OLD_DINPUT, [old_input_regs ! 0])]"

definition config_macros :: "((int \<Rightarrow> int) \<times> (string \<times> int) list) list" where
  "config_macros =
     [(GET_ADModeR, every_other 0 8 adc_mode_regs), (GET_ADSettingsR, every_other 1 8 adc_mode_regs),
      (GET_RESIST_LINE_MANUAL, take 16 adc_manual_regs), (GET_BREAKLINE_PERIOD, adc_breakline_regs),
      (GET_UT_PERIOD, adc_ut_regs), (GET_DACHR, take 16 dac_regs),
      (GET_DI_FILTER_POSITIVE, take 12 di_filter_regs), (GET_DI_FILTER_NEGATIVE, take 12 (drop 12 di_filter_regs)),
      (\<lambda>_. GET_CALIBR_CURRENT_DATE, [adc_manual_regs ! 16]), (\<lambda>_. GET_RELAYR, relay_regs),
      (\<lambda>_. GET_DI_PULSE_SIGNAL_MODE_1_6, [di_conf_regs ! 4]),
      (\<lambda>_. GET_DI_PULSE_SIGNAL_MODE_7_12, [di_conf_regs ! 5]), (\<lambda>_. GET_DI_FILTER_TYPE, [di_conf_regs ! 6])]"

definition common_macros :: "int list" where
  "common_macros = [GET_FEID, GET_MODIF, GET_SN, GET_MANUFDATE, GET_CHECKDATE, GET_FESTATUS, GET_ADDRESS,
     GET_UARTPARAM, GET_CJScale, GET_HARDWAREVER, GET_FIRMWAREVER, GET_OUTPUTPARAM, GET_CALIBR, GET_RESTORER,
     GET_PASSWORDR, GET_SYSTCMDR]"

definition channels_right :: "(int \<Rightarrow> int) \<Rightarrow> ((int \<Rightarrow> int) \<times> (string \<times> int) list) list \<Rightarrow> bool" where
  "channels_right address =
     list_all (\<lambda>(get, regs). map get [1..int (length regs)] = map (address \<circ> snd) regs)"

text \<open>But for two, the macros give the addresses of the registers they are named after: for every channel, for
  the other measured values and for the common registers; the exceptions are \<open>GET_ADTEMPCH\<close> and \<open>GET_DEBUG_ERROR_CODES\<close>.
  \<open>GET_ADModeR\<close> and \<open>GET_ADSettingsR\<close> are right for all channels, of which the comment says the contrary, and
  \<open>GET_DACHR\<close> is if it counts the halves of the channels.\<close>

theorem macros_find_their_registers:
  "channels_right measure_address measure_macros \<and> channels_right config_address config_macros \<and>
   common_macros = map config_address (map (value_of common_conf_regs)
     [''r_FEId'', ''r_Modif'', ''r_SerialNumber'', ''r_ManufDate'', ''r_ManufPart'', ''r_FEStatus'', ''r_Address'',
      ''r_UARTparam'', ''r_HSScale'', ''r_HardwareVer'', ''r_FirmwareVer'', ''r_OutputParam'', ''r_Calib'',
      ''r_Restore'', ''r_Password'', ''r_Cmd''])"
  by (intro conjI; code_simp)

text \<open>The macro for the temperatures counts downwards: from the second channel on it gives the addresses
  of other registers, first those of the times of the last readings and then three of the state; and the one for
  the error codes counts twice the width of the registers of the configuration.\<close>

theorem temperatures_are_read_elsewhere:
  "GET_ADTEMPCH 1 = measure_address (value_of adc_temp_regs ''r_ADTempCh1'') \<and>
   map GET_ADTEMPCH [2..8] = map (measure_address \<circ> snd) (rev (drop 13 (adc_status_regs @ adc_time_regs))) \<and>
   GET_DEBUG_ERROR_CODES 1 = config_address (value_of adc_limit_regs ''r_AD3BreakLineDifLimitTime'')"
  by code_simp

section \<open>Commands\<close>

text \<open>Every command has the number 14 in its upper four bits, so that the results, which are added to
  or subtracted from it in steps of 0x1000, can be told apart.\<close>

lemma commands_start_with_E:
  "list_all (\<lambda>(_, c). c div 0x1000 = 14)
     (adc_param_commands @ adc_commands @ test_commands @ dac_commands @ restore_commands @ di_commands)"
  by code_simp

lemma results_are_steps: "list_all (\<lambda>(_, r). r mod 0x1000 = 0 \<and> 0 < r \<and> r \<le> 0x7000) adc_results"
  by code_simp

text \<open>The calibrations of the three ranges of a line with three wires share one code, as do those
  with two.\<close>

lemma ranges_share_a_code:
  "map (value_of adc_commands) [''cm_Calib100ohm3w_Ch1'', ''cm_Calib400ohm3w_Ch1'', ''cm_Calib4000ohm3w_Ch1''] =
   [0xE7C1, 0xE7C1, 0xE7C1]"
  by code_simp

end
