(* ===== verification/Modpoll.thy ===== *)
theory Modpoll
  imports C_Library
begin

text \<open>
  The tool that polls Modbus devices (modpoll/modpoll.cpp).  The global variables are the fields of
  \<open>Poll\<close>, together with what was printed.  The classes of the FieldTalk library are the parameter \<open>Bus\<close>:
  the code it returns for an opening after the calls that configured it, for the \<open>n\<close>-th reading, with the
  values that it leaves in the array, and for a writing; its constants; and its texts.  Calls that
  exit the program are the left side of the results.  A \<open>long\<close> has \<open>L\<close> bits.
\<close>

section \<open>Configuration\<close>

datatype MpProtocol = RTU | ASCII | TCP | RTUOVERTCP

datatype MpType = T0_BIT | T1_BIT | T3_REG16 | T3_HEX16 | T3_INT32 | T3_MOD10000 | T3_FLOAT32
  | T4_REG16 | T4_HEX16 | T4_INT32 | T4_MOD10000 | T4_FLOAT32

datatype MpParity = SER_PARITY_NONE | SER_PARITY_EVEN | SER_PARITY_ODD

definition MAX_REF_CNT :: nat where
  "MAX_REF_CNT = 125"

record Poll =
  slaveAddr :: int
  mp_ref :: int
  refCnt :: int
  writeCnt :: int
  pollCnt :: int
  baudRate :: int
  dataBits :: int
  stopBits :: int
  mp_parity :: MpParity
  mp_protocol :: "MpProtocol option"
  dataType :: MpType
  swapInts :: bool
  swapFloats :: bool
  enronMode :: bool
  pduAddressing :: bool
  portName :: string
  mp_port :: int
  rs485Mode :: int
  timeOut :: int
  pollDelay :: int
  shortArr :: "u16 list"
  intArr :: "u32 list"
  floatArr :: "flt list"
  mp_out :: string
  mp_err :: string

definition new_Poll :: Poll where
  "new_Poll = \<lparr>slaveAddr = 1, mp_ref = 1, refCnt = - 1, writeCnt = 0, pollCnt = - 1, baudRate = 19200,
     dataBits = 8, stopBits = 1, mp_parity = SER_PARITY_EVEN, mp_protocol = None, dataType = T4_REG16,
     swapInts = False, swapFloats = False, enronMode = False, pduAddressing = False, portName = [],
     mp_port = 502, rs485Mode = 0, timeOut = 1000, pollDelay = 1000,
     shortArr = replicate MAX_REF_CNT 0, intArr = replicate (MAX_REF_CNT * 16) 0,
     floatArr = replicate MAX_REF_CNT (Fin False 0 0), mp_out = [], mp_err = []\<rparr>"

text \<open>Why the program exits before its end; an array that is left has no meaning.\<close>

datatype mp_exit = PrintedVersion | PrintedUsage | BadOption string | OpenError string | Undefined stop

section \<open>Options\<close>

definition mp_options :: string where
  "mp_options = ''h14:if0ea:r:c:b:d:s:p:t:m:o:l:''"

definition int_arg :: "nat \<Rightarrow> string \<Rightarrow> int" where
  "int_arg L optarg = to_int (fst (strtol L 0 optarg))"

definition require :: "bool \<Rightarrow> string \<Rightarrow> Poll \<Rightarrow> mp_exit + Poll" where
  "require b msg p = (if b then Inr p else Inl (BadOption msg))"

definition protocol_of :: "string \<Rightarrow> MpProtocol option" where
  "protocol_of = map_of [(''tcp'', TCP), (''rtu'', RTU), (''ascii'', ASCII), (''enc'', RTUOVERTCP)]"

definition type_of :: "string \<Rightarrow> MpType option" where
  "type_of = map_of [(''0'', T0_BIT), (''1'', T1_BIT), (''3'', T3_REG16), (''3:hex'', T3_HEX16),
     (''3:int'', T3_INT32), (''3:mod'', T3_MOD10000), (''3:float'', T3_FLOAT32), (''4'', T4_REG16),
     (''4:hex'', T4_HEX16), (''4:int'', T4_INT32), (''4:mod'', T4_MOD10000), (''4:float'', T4_FLOAT32)]"

definition parity_of :: "string \<Rightarrow> MpParity option" where
  "parity_of = map_of [(''none'', SER_PARITY_NONE), (''odd'', SER_PARITY_ODD), (''even'', SER_PARITY_EVEN)]"

text \<open>One turn of the loop over the options.\<close>

definition scan_option :: "nat \<Rightarrow> char \<Rightarrow> string \<Rightarrow> Poll \<Rightarrow> mp_exit + Poll" where
  "scan_option L c optarg p =
     (let n = int_arg L optarg in
      if c = CHR ''1'' then Inr (p\<lparr>pollCnt := 1\<rparr>)
      else if c = CHR ''4''
      then require (0 < n \<and> n \<le> 1000) ''Invalid RTS delay parameter'' (p\<lparr>rs485Mode := n\<rparr>)
      else if c = CHR ''o''
      then (case flt_to_int (times_double 1000 (fst (strtod optarg))) of
              None \<Rightarrow> Inl (Undefined OutOfRange)
            | Some t \<Rightarrow> require (10 \<le> t \<and> t \<le> 10000) ''Invalid time-out parameter'' (p\<lparr>timeOut := t\<rparr>))
      else if c = CHR ''i'' then Inr (p\<lparr>swapInts := True\<rparr>)
      else if c = CHR ''f'' then Inr (p\<lparr>swapFloats := True\<rparr>)
      else if c = CHR ''e'' then Inr (p\<lparr>enronMode := True\<rparr>)
      else if c = CHR ''0'' then Inr (p\<lparr>pduAddressing := True\<rparr>)
      else if c = CHR ''m''
      then (case protocol_of optarg of
              Some pr \<Rightarrow> Inr (p\<lparr>mp_protocol := Some pr\<rparr>)
            | None \<Rightarrow> Inl (BadOption ''Invalid protocol parameter''))
      else if c = CHR ''a''
      then require (0 \<le> n \<and> n \<le> 255) ''Invalid slave address parameter'' (p\<lparr>slaveAddr := n\<rparr>)
      else if c = CHR ''r''
      then require (0 < n \<and> n \<le> 0x10000) ''Invalid reference parameter'' (p\<lparr>mp_ref := n\<rparr>)
      else if c = CHR ''c'' then Inr (p\<lparr>refCnt := n\<rparr>)
      else if c = CHR ''b''
      then (let b = fst (strtol L 0 optarg)
            in require (b \<noteq> 0) ''Invalid baudrate parameter'' (p\<lparr>baudRate := b\<rparr>))
      else if c = CHR ''d''
      then require (n = 7 \<or> n = 8) ''Invalid databits parameter'' (p\<lparr>dataBits := n\<rparr>)
      else if c = CHR ''s''
      then require (n = 1 \<or> n = 2) ''Invalid stopbits parameter'' (p\<lparr>stopBits := n\<rparr>)
      else if c = CHR ''l''
      then require (n \<le> 10000 \<and> 0 \<le> n) ''Invalid poll rate parameter'' (p\<lparr>pollDelay := n\<rparr>)
      else if c = CHR ''p''
      then (case parity_of optarg of
              Some pa \<Rightarrow> Inr (p\<lparr>mp_parity := pa\<rparr>)
            | None \<Rightarrow> require (0 < n \<and> n \<le> 0xFFFF) ''Invalid parity or port parameter'' (p\<lparr>mp_port := n\<rparr>))
      else if c = CHR ''t''
      then (case type_of optarg of
              Some ty \<Rightarrow> Inr (p\<lparr>dataType := ty\<rparr>)
            | None \<Rightarrow> Inl (BadOption ''Invalid data type parameter''))
      else if c = CHR ''h'' then Inl PrintedUsage
      else Inl (BadOption ''Unrecognized option or missing option parameter''))"

fun scan_all :: "nat \<Rightarrow> (char \<times> string) list \<Rightarrow> Poll \<Rightarrow> mp_exit + Poll" where
  "scan_all L [] p = Inr p"
| "scan_all L ((c, optarg) # os) p =
     (case scan_option L c optarg p of Inl x \<Rightarrow> Inl x | Inr p \<Rightarrow> scan_all L os p)"

section \<open>Counts and the protocol\<close>

definition is_bits :: "MpType \<Rightarrow> bool" where
  "is_bits ty = (ty = T0_BIT \<or> ty = T1_BIT)"

definition check_counts :: "string list \<Rightarrow> Poll \<Rightarrow> mp_exit + Poll" where
  "check_counts operands p =
     (let w = int (length operands) - 1; p = p\<lparr>writeCnt := w\<rparr> in
      if w < 0 then Inl (BadOption ''Serialport or host parameter missing'')
      else if 0 < w \<and> refCnt p \<noteq> w \<and> refCnt p \<noteq> - 1
      then Inl (BadOption ''-c parameter must not be specified for writing'')
      else
        let p = (if refCnt p = - 1 then p\<lparr>refCnt := 1\<rparr> else p);
            most = (if is_bits (dataType p) then MAX_REF_CNT * 16 else MAX_REF_CNT)
        in require (0 < refCnt p \<and> refCnt p \<le> int most) ''Invalid count parameter'' p)"

definition detect_protocol :: "string \<Rightarrow> Poll \<Rightarrow> mp_exit + Poll" where
  "detect_protocol name p =
     (let p = p\<lparr>portName := name\<rparr>;
          p = (case mp_protocol p of
                 Some _ \<Rightarrow> p
               | None \<Rightarrow> p\<lparr>mp_protocol := Some (if CHR ''/'' \<in> set name then RTU else TCP)\<rparr>)
      in require (\<not> (slaveAddr p = 0 \<and> (mp_protocol p = Some RTU \<or> mp_protocol p = Some ASCII)))
           ''Invalid slave address parameter'' p)"

section \<open>Values to be written\<close>

definition badValue :: mp_exit where
  "badValue = BadOption ''Illegal write data value''"

definition bit_value :: "nat \<Rightarrow> string \<Rightarrow> mp_exit + u32" where
  "bit_value L s =
     (let (v, err, rest) = strtol L 10 s
      in if err \<or> rest \<noteq> [] \<or> v < 0 \<or> 1 < v then Inl badValue else Inr (word_of_int v))"

definition reg_value :: "nat \<Rightarrow> string \<Rightarrow> mp_exit + u16" where
  "reg_value L s =
     (let (v, err, rest) = strtol L 0 s
      in if err \<or> rest \<noteq> [] \<or> 0xFFFF < v \<or> v < - 32768 then Inl badValue else Inr (word_of_int v))"

definition long_value :: "nat \<Rightarrow> string \<Rightarrow> mp_exit + u32" where
  "long_value L s =
     (let (v, err, rest) = (if s \<noteq> [] \<and> hd s = CHR ''-'' then strtol L 0 s else strtoul L 0 s)
      in if err \<or> rest \<noteq> [] then Inl badValue else Inr (word_of_int v))"

definition FLT_MAX :: nat where
  "FLT_MAX = (2 ^ 24 - 1) * 2 ^ 104"

definition float_value :: "string \<Rightarrow> mp_exit + flt" where
  "float_value s =
     (let (d, err, rest) = strtod s
      in if err \<or> rest \<noteq> [] \<or> abs_exceeds d FLT_MAX then Inl badValue else Inr (to_float d))"

text \<open>The loops that convert the operands and store them.\<close>

fun put_values :: "(string \<Rightarrow> mp_exit + 'a) \<Rightarrow> nat \<Rightarrow> string list \<Rightarrow> 'a list \<Rightarrow> mp_exit + 'a list" where
  "put_values conv i [] arr = Inr arr"
| "put_values conv i (s # ss) arr =
     (case conv s of
        Inl x \<Rightarrow> Inl x
      | Inr v \<Rightarrow> if i < length arr then put_values conv (Suc i) ss (arr[i := v]) else Inl (Undefined OutOfBounds))"

definition scan_values :: "nat \<Rightarrow> string list \<Rightarrow> Poll \<Rightarrow> mp_exit + Poll" where
  "scan_values L vals p =
     (let ints = (\<lambda>conv. map_sum id (\<lambda>arr. p\<lparr>intArr := arr\<rparr>) (put_values conv 0 vals (intArr p))) in
      if writeCnt p \<le> 0 then Inr p
      else (case dataType p of
              T0_BIT \<Rightarrow> ints (bit_value L)
            | T4_REG16 \<Rightarrow> map_sum id (\<lambda>arr. p\<lparr>shortArr := arr\<rparr>) (put_values (reg_value L) 0 vals (shortArr p))
            | T4_HEX16 \<Rightarrow> map_sum id (\<lambda>arr. p\<lparr>shortArr := arr\<rparr>) (put_values (reg_value L) 0 vals (shortArr p))
            | T4_INT32 \<Rightarrow> ints (long_value L)
            | T4_MOD10000 \<Rightarrow> ints (long_value L)
            | T4_FLOAT32 \<Rightarrow> map_sum id (\<lambda>arr. p\<lparr>floatArr := arr\<rparr>) (put_values float_value 0 vals (floatArr p))
            | T3_MOD10000 \<Rightarrow> Inl (BadOption ''Write not supported for this data type'')
            | _ \<Rightarrow> Inl (BadOption ''This data type is read only'')))"

text \<open>The arguments behind the name of the program.\<close>

definition scanOptions :: "nat \<Rightarrow> string list \<Rightarrow> mp_exit + Poll" where
  "scanOptions L args =
     (if ''--version'' \<in> set args then Inl PrintedVersion
      else if ''--help'' \<in> set args then Inl PrintedUsage
      else
        let (opts, operands) = getopt mp_options args in
        case scan_all L opts new_Poll of
          Inl x \<Rightarrow> Inl x
        | Inr p \<Rightarrow> (case check_counts operands p of
            Inl x \<Rightarrow> Inl x
          | Inr p \<Rightarrow> (case detect_protocol (hd operands) p of
              Inl x \<Rightarrow> Inl x
            | Inr p \<Rightarrow> scan_values L (tl operands) p)))"

section \<open>What is printed about the configuration\<close>

definition nl :: string where
  "nl = [CHR 0x0A]"

definition bannerStr :: string where
  "bannerStr = ''modpoll 3.4 - FieldTalk(tm) Modbus(R) Master Simulator'' @ nl @
     ''Copyright (c) 2002-2013 proconX Pty Ltd'' @ nl @
     ''Visit http://www.modbusdriver.com for Modbus libraries and tools.'' @ nl @ nl"

definition protocol_name :: "MpProtocol option \<Rightarrow> string" where
  "protocol_name pr =
     (case pr of
        Some RTU \<Rightarrow> ''Modbus RTU''
      | Some ASCII \<Rightarrow> ''Modbus ASCII''
      | Some TCP \<Rightarrow> ''MODBUS/TCP''
      | Some RTUOVERTCP \<Rightarrow> ''Encapsulated RTU over TCP''
      | None \<Rightarrow> ''unknown'')"

fun type_name :: "MpType \<Rightarrow> string" where
  "type_name T0_BIT = ''discrete output (coil)''"
| "type_name T1_BIT = ''discrete input''"
| "type_name T3_REG16 = ''16-bit register, input register table''"
| "type_name T3_HEX16 = ''16-bit register (hex), input register table''"
| "type_name T3_INT32 = ''32-bit integer, input register table''"
| "type_name T3_MOD10000 = ''32-bit module 10000, input register table''"
| "type_name T3_FLOAT32 = ''32-bit float, input register table''"
| "type_name T4_REG16 = ''16-bit register, output (holding) register table''"
| "type_name T4_HEX16 = ''16-bit register (hex), output (holding) register table''"
| "type_name T4_INT32 = ''32-bit integer, output (holding) register table''"
| "type_name T4_MOD10000 = ''32-bit module 10000, output (holding) register table''"
| "type_name T4_FLOAT32 = ''32-bit float, output (holding) register table''"

fun parity_name :: "MpParity \<Rightarrow> string" where
  "parity_name SER_PARITY_NONE = ''none''"
| "parity_name SER_PARITY_EVEN = ''even''"
| "parity_name SER_PARITY_ODD = ''odd''"

text \<open>The time-out is divided as a \<open>float\<close>.\<close>

definition printConfig :: "Poll \<Rightarrow> string" where
  "printConfig p =
     bannerStr @
     ''Protocol configuration: '' @ protocol_name (mp_protocol p) @ nl @
     ''Slave configuration...: '' @ ''address = '' @ show_signed (slaveAddr p) @ '', '' @
     ''start reference = '' @ show_signed (mp_ref p) @ (if pduAddressing p then '' (PDU), '' else '', '') @
     ''count = '' @ show_signed (refCnt p) @ nl @
     ''Communication.........: '' @
     (if mp_protocol p = Some TCP \<or> mp_protocol p = Some RTUOVERTCP
      then portName p @ '', port '' @ show_signed (mp_port p)
      else portName p @ '', '' @ show_signed (baudRate p) @ '', '' @ show_signed (dataBits p) @ '', '' @
           show_signed (stopBits p) @ '', '' @ parity_name (mp_parity p)) @
     '', t/o '' @ show_fixed 2 (fst (flt_float (timeOut p < 0) (nat \<bar>timeOut p\<bar>) 1000)) @ '' s'' @
     '', poll rate '' @ show_signed (pollDelay p) @ '' ms'' @ nl @
     ''Data type.............: '' @ type_name (dataType p) @ nl @
     (if swapInts p \<or> swapFloats p
      then ''Word swapping.........: Slave configured as big-endian'' @ (if swapInts p then '' word'' else []) @
           (if swapInts p \<and> swapFloats p then '' and'' else []) @ (if swapFloats p then '' float'' else []) @
           '' machine'' @ nl
      else []) @
     (if enronMode p then ''32-bit mode...........: Daniel/Enron single 32-bit word'' @ nl else []) @ nl"

section \<open>The library\<close>

text \<open>The calls that configure a protocol and open it.\<close>

datatype MbCall = configureBigEndianInts | configureSwappedFloats | configureEnron32BitMode
  | configureCountFromZero | setRetryCnt int | setPollDelay int | setTimeout int | enableRs485Mode int
  | setPort u16 | openSerial string int int int MpParity | openTcp string

datatype MbRead = readCoils | readInputDiscretes | readMultipleRegisters | readInputRegisters
  | readMultipleLongInts | readInputLongInts | readMultipleMod10000 | readInputMod10000
  | readMultipleFloats | readInputFloats

datatype MbWrite = forceMultipleCoils | writeMultipleRegisters | writeMultipleLongInts
  | writeMultipleMod10000 | writeMultipleFloats

record Bus =
  FTALK_SUCCESS :: u32
  FTALK_ILLEGAL_ARGUMENT_ERROR :: u32
  FTALK_TCPIP_CONNECT_ERR :: u32
  FTALK_BUS_PROTOCOL_ERROR_CLASS :: u32
  getBusProtocolErrorText :: "u32 \<Rightarrow> string"
  open_protocol :: "MpProtocol \<Rightarrow> MbCall list \<Rightarrow> u32"
  read_ints :: "nat \<Rightarrow> MbRead \<Rightarrow> int \<Rightarrow> int \<Rightarrow> int \<Rightarrow> u32 \<times> u32 list"
  read_shorts :: "nat \<Rightarrow> MbRead \<Rightarrow> int \<Rightarrow> int \<Rightarrow> int \<Rightarrow> u32 \<times> u16 list"
  read_floats :: "nat \<Rightarrow> MbRead \<Rightarrow> int \<Rightarrow> int \<Rightarrow> int \<Rightarrow> u32 \<times> flt list"
  write_ints :: "MbWrite \<Rightarrow> int \<Rightarrow> int \<Rightarrow> u32 list \<Rightarrow> u32"
  write_shorts :: "MbWrite \<Rightarrow> int \<Rightarrow> int \<Rightarrow> u16 list \<Rightarrow> u32"
  write_floats :: "MbWrite \<Rightarrow> int \<Rightarrow> int \<Rightarrow> flt list \<Rightarrow> u32"

definition configure_calls :: "Poll \<Rightarrow> MbCall list" where
  "configure_calls p =
     (if swapInts p then [configureBigEndianInts] else []) @
     (if swapFloats p then [configureSwappedFloats] else []) @
     (if enronMode p then [configureEnron32BitMode] else []) @
     (if pduAddressing p then [configureCountFromZero] else [])"

definition serial_calls :: "Poll \<Rightarrow> MbCall list" where
  "serial_calls p =
     configure_calls p @ [setRetryCnt 0, setPollDelay (pollDelay p), setTimeout (timeOut p)] @
     (if 0 < rs485Mode p then [enableRs485Mode (rs485Mode p)] else []) @
     [openSerial (portName p) (baudRate p) (dataBits p) (stopBits p) (mp_parity p)]"

definition tcp_calls :: "Poll \<Rightarrow> MbCall list" where
  "tcp_calls p =
     configure_calls p @ [setPollDelay (pollDelay p), setTimeout (timeOut p),
       setPort (word_of_int (mp_port p)), openTcp (portName p)]"

definition openProtocol :: "Bus \<Rightarrow> Poll \<Rightarrow> mp_exit + Poll" where
  "openProtocol e p =
     (let result = (case mp_protocol p of
             Some RTU \<Rightarrow> open_protocol e RTU (serial_calls p)
           | Some ASCII \<Rightarrow> open_protocol e ASCII (serial_calls p)
           | Some TCP \<Rightarrow> open_protocol e TCP (tcp_calls p)
           | Some RTUOVERTCP \<Rightarrow> open_protocol e RTUOVERTCP (tcp_calls p)
           | None \<Rightarrow> - 1)
      in if result = FTALK_SUCCESS e then Inr p
         else if result = FTALK_ILLEGAL_ARGUMENT_ERROR e
         then Inl (OpenError (''Configuration setting not supported!'' @ nl))
         else if result = FTALK_TCPIP_CONNECT_ERR e
         then Inl (OpenError (''Can't reach server/slave! Check TCP/IP and firewall settings.'' @ nl))
         else Inl (OpenError (getBusProtocolErrorText e result @ ''!'' @ nl)))"

section \<open>Polling\<close>

text \<open>A line for each value, with the number of its register.\<close>

definition value_lines :: "('a \<Rightarrow> string) \<Rightarrow> int \<Rightarrow> int \<Rightarrow> 'a list \<Rightarrow> string" where
  "value_lines pr start step vs =
     concat (map (\<lambda>i. ''['' @ show_signed (start + int i * step) @ '']: '' @ pr (vs ! i) @ nl) [0..<length vs])"

text \<open>A reading leaves its values in an array, from the beginning on; a failed one may do so as well.\<close>

definition store_values :: "'a list \<Rightarrow> nat \<Rightarrow> 'a list \<Rightarrow> 'a list option" where
  "store_values arr cnt vs = (if cnt \<le> length arr then Some (overwrite arr 0 (take cnt vs)) else None)"

definition show_reading :: "Bus \<Rightarrow> u32 \<Rightarrow> string \<Rightarrow> Poll \<Rightarrow> mp_exit + (u32 \<times> Poll)" where
  "show_reading e result text p =
     Inr (result, if result = FTALK_SUCCESS e then p\<lparr>mp_out := mp_out p @ text\<rparr> else p)"

definition poll_ints :: "Bus \<Rightarrow> nat \<Rightarrow> MbRead \<Rightarrow> int \<Rightarrow> Poll \<Rightarrow> mp_exit + (u32 \<times> Poll)" where
  "poll_ints e n fn step p =
     (let (result, vs) = read_ints e n fn (slaveAddr p) (mp_ref p) (refCnt p); cnt = nat (refCnt p) in
      case store_values (intArr p) cnt vs of
        None \<Rightarrow> Inl (Undefined OutOfBounds)
      | Some arr \<Rightarrow> show_reading e result
          (value_lines (\<lambda>v. show_signed (sint v)) (mp_ref p) step (take cnt arr)) (p\<lparr>intArr := arr\<rparr>))"

definition poll_shorts :: "Bus \<Rightarrow> nat \<Rightarrow> MbRead \<Rightarrow> (u16 \<Rightarrow> string) \<Rightarrow> Poll \<Rightarrow> mp_exit + (u32 \<times> Poll)" where
  "poll_shorts e n fn pr p =
     (let (result, vs) = read_shorts e n fn (slaveAddr p) (mp_ref p) (refCnt p); cnt = nat (refCnt p) in
      case store_values (shortArr p) cnt vs of
        None \<Rightarrow> Inl (Undefined OutOfBounds)
      | Some arr \<Rightarrow> show_reading e result
          (value_lines pr (mp_ref p) 1 (take cnt arr)) (p\<lparr>shortArr := arr\<rparr>))"

definition poll_floats :: "Bus \<Rightarrow> nat \<Rightarrow> MbRead \<Rightarrow> Poll \<Rightarrow> mp_exit + (u32 \<times> Poll)" where
  "poll_floats e n fn p =
     (let (result, vs) = read_floats e n fn (slaveAddr p) (mp_ref p) (refCnt p); cnt = nat (refCnt p) in
      case store_values (floatArr p) cnt vs of
        None \<Rightarrow> Inl (Undefined OutOfBounds)
      | Some arr \<Rightarrow> show_reading e result
          (value_lines (show_fixed 6) (mp_ref p) 2 (take cnt arr)) (p\<lparr>floatArr := arr\<rparr>))"

definition show_hd :: "u16 \<Rightarrow> string" where
  "show_hd v = show_signed (sint v)"

definition show_04hX :: "u16 \<Rightarrow> string" where
  "show_04hX v = ''0x'' @ zero_padded 4 (show_hex (unat v))"

definition poll_once :: "Bus \<Rightarrow> nat \<Rightarrow> Poll \<Rightarrow> mp_exit + (u32 \<times> Poll)" where
  "poll_once e n p =
     (case dataType p of
        T0_BIT \<Rightarrow> poll_ints e n readCoils 1 p
      | T1_BIT \<Rightarrow> poll_ints e n readInputDiscretes 1 p
      | T4_REG16 \<Rightarrow> poll_shorts e n readMultipleRegisters show_hd p
      | T4_HEX16 \<Rightarrow> poll_shorts e n readMultipleRegisters show_04hX p
      | T4_INT32 \<Rightarrow> poll_ints e n readMultipleLongInts 2 p
      | T4_MOD10000 \<Rightarrow> poll_ints e n readMultipleMod10000 2 p
      | T4_FLOAT32 \<Rightarrow> poll_floats e n readMultipleFloats p
      | T3_REG16 \<Rightarrow> poll_shorts e n readInputRegisters show_hd p
      | T3_HEX16 \<Rightarrow> poll_shorts e n readInputRegisters show_04hX p
      | T3_INT32 \<Rightarrow> poll_ints e n readInputLongInts 2 p
      | T3_MOD10000 \<Rightarrow> poll_ints e n readInputMod10000 2 p
      | T3_FLOAT32 \<Rightarrow> poll_floats e n readInputFloats p)"

definition announce :: "Poll \<Rightarrow> Poll" where
  "announce p =
     (if pollCnt p = - 1
      then p\<lparr>mp_out := mp_out p @ ''-- Polling slave... (Ctrl-C to stop)'' @ nl\<rparr>
      else p\<lparr>mp_out := mp_out p @ ''-- Polling slave...'' @ nl, pollCnt := pollCnt p - 1\<rparr>)"

text \<open>The loop of \<open>pollSlave\<close>; errors of the protocol do not end it.\<close>

partial_function (option) poll_loop :: "Bus \<Rightarrow> nat \<Rightarrow> u32 \<Rightarrow> Poll \<Rightarrow> (mp_exit + (u32 \<times> Poll)) option" where
  "poll_loop e n result p =
     (if pollCnt p = - 1 \<or> 0 < pollCnt p
      then (case poll_once e n (announce p) of
              Inl x \<Rightarrow> Some (Inl x)
            | Inr (result, p) \<Rightarrow>
                (if result = FTALK_SUCCESS e then poll_loop e (Suc n) result p
                 else
                   let p = p\<lparr>mp_err := mp_err p @ getBusProtocolErrorText e result @ ''!'' @ nl\<rparr> in
                   if result AND FTALK_BUS_PROTOCOL_ERROR_CLASS e = 0 then Some (Inr (result, p))
                   else poll_loop e (Suc n) result p))
      else Some (Inr (result, p)))"

definition pollSlave :: "Bus \<Rightarrow> Poll \<Rightarrow> (mp_exit + (u32 \<times> Poll)) option" where
  "pollSlave e p = poll_loop e 0 (- 1) p"

section \<open>Writing\<close>

definition sent_values :: "'a list \<Rightarrow> int \<Rightarrow> ('a list \<Rightarrow> u32) \<Rightarrow> u32 option" where
  "sent_values arr cnt f = (if nat cnt \<le> length arr then Some (f (take (nat cnt) arr)) else None)"

definition writeSlave :: "Bus \<Rightarrow> Poll \<Rightarrow> mp_exit + (u32 \<times> Poll)" where
  "writeSlave e p =
     (let ints = (\<lambda>fn. sent_values (intArr p) (writeCnt p) (write_ints e fn (slaveAddr p) (mp_ref p)));
          shorts = (\<lambda>fn. sent_values (shortArr p) (writeCnt p) (write_shorts e fn (slaveAddr p) (mp_ref p)));
          floats = (\<lambda>fn. sent_values (floatArr p) (writeCnt p) (write_floats e fn (slaveAddr p) (mp_ref p)))
      in case (case dataType p of
                 T0_BIT \<Rightarrow> ints forceMultipleCoils
               | T4_REG16 \<Rightarrow> shorts writeMultipleRegisters
               | T4_HEX16 \<Rightarrow> shorts writeMultipleRegisters
               | T4_INT32 \<Rightarrow> ints writeMultipleLongInts
               | T4_MOD10000 \<Rightarrow> ints writeMultipleMod10000
               | T4_FLOAT32 \<Rightarrow> floats writeMultipleFloats
               | _ \<Rightarrow> Some (- 1)) of
           None \<Rightarrow> Inl (Undefined OutOfBounds)
         | Some result \<Rightarrow>
             Inr (result,
               if result \<noteq> FTALK_SUCCESS e
               then p\<lparr>mp_err := mp_err p @ getBusProtocolErrorText e result @ ''!'' @ nl\<rparr>
               else p\<lparr>mp_out := mp_out p @ ''Written '' @ show_signed (writeCnt p) @ '' reference'' @
                      (if writeCnt p = 1 then [] else ''s'') @ ''.'' @ nl\<rparr>))"

section \<open>The program\<close>

text \<open>Whether it succeeds, and the state in the end.\<close>

definition mp_main :: "nat \<Rightarrow> Bus \<Rightarrow> string list \<Rightarrow> (mp_exit + (bool \<times> Poll)) option" where
  "mp_main L e args =
     (case scanOptions L args of
        Inl x \<Rightarrow> Some (Inl x)
      | Inr p \<Rightarrow> (case openProtocol e (p\<lparr>mp_out := printConfig p\<rparr>) of
          Inl x \<Rightarrow> Some (Inl x)
        | Inr p \<Rightarrow>
            map_option (map_sum id (\<lambda>(result, p). (result = FTALK_SUCCESS e, p)))
              (if 0 < writeCnt p then Some (writeSlave e p) else pollSlave e p)))"

section \<open>Accepted options\<close>

text \<open>What the loop over the options keeps, and what holds when all are accepted.\<close>

definition mp_ok :: "Poll \<Rightarrow> bool" where
  "mp_ok p =
     (0 \<le> slaveAddr p \<and> slaveAddr p \<le> 255 \<and> 1 \<le> mp_ref p \<and> mp_ref p \<le> 65536 \<and>
      0 \<le> rs485Mode p \<and> rs485Mode p \<le> 1000 \<and> 10 \<le> timeOut p \<and> timeOut p \<le> 10000 \<and>
      0 \<le> pollDelay p \<and> pollDelay p \<le> 10000 \<and> 1 \<le> mp_port p \<and> mp_port p \<le> 65535 \<and>
      dataBits p \<in> {7, 8} \<and> stopBits p \<in> {1, 2} \<and> baudRate p \<noteq> 0 \<and> pollCnt p \<in> {- 1, 1} \<and>
      length (shortArr p) = 125 \<and> length (intArr p) = 2000 \<and> length (floatArr p) = 125)"

definition mp_ready :: "Poll \<Rightarrow> bool" where
  "mp_ready p =
     (mp_ok p \<and> 1 \<le> refCnt p \<and> refCnt p \<le> (if is_bits (dataType p) then 2000 else 125) \<and>
      mp_protocol p \<noteq> None \<and> (slaveAddr p = 0 \<longrightarrow> mp_protocol p \<in> {Some TCP, Some RTUOVERTCP}))"

lemma new_Poll_ok: "mp_ok new_Poll"
  by (simp add: mp_ok_def new_Poll_def MAX_REF_CNT_def)

definition keeps_ok :: "mp_exit + Poll \<Rightarrow> bool" where
  "keeps_ok r = (\<forall>p. r = Inr p \<longrightarrow> mp_ok p)"

lemma keeps_ok_intros:
  "keeps_ok (Inl x)"
  "mp_ok p \<Longrightarrow> keeps_ok (Inr p)"
  "(b \<Longrightarrow> mp_ok p) \<Longrightarrow> keeps_ok (require b msg p)"
  "keeps_ok r \<Longrightarrow> keeps_ok r' \<Longrightarrow> keeps_ok (if b then r else r')"
  "keeps_ok r \<Longrightarrow> (\<And>x. keeps_ok (f x)) \<Longrightarrow> keeps_ok (case v of None \<Rightarrow> r | Some x \<Rightarrow> f x)"
  by (auto simp: keeps_ok_def require_def split: option.splits)

lemma scan_option_ok: "mp_ok p \<Longrightarrow> keeps_ok (scan_option L c optarg p)"
  unfolding scan_option_def Let_def
  by (intro keeps_ok_intros) (simp_all add: mp_ok_def)

lemma scan_all_ok: "scan_all L os p = Inr q \<Longrightarrow> mp_ok p \<Longrightarrow> mp_ok q"
proof (induction os arbitrary: p)
  case (Cons o1 os)
  then show ?case using scan_option_ok [of p L "fst o1" "snd o1"]
    by (cases o1) (auto simp: keeps_ok_def split: sum.splits)
qed simp

lemma require_Inr: "require b msg p = Inr q \<longleftrightarrow> b \<and> q = p"
  by (auto simp: require_def)

lemma check_counts_ok:
  "check_counts operands p = Inr q \<Longrightarrow> mp_ok p \<Longrightarrow>
    mp_ok q \<and> 1 \<le> refCnt q \<and> refCnt q \<le> (if is_bits (dataType q) then 2000 else 125) \<and>
    writeCnt q = int (length operands) - 1 \<and> operands \<noteq> []"
  unfolding check_counts_def Let_def MAX_REF_CNT_def mp_ok_def
  by (cases "operands = []") (auto simp: require_Inr split: if_splits)

lemma detect_protocol_ok:
  "detect_protocol name p = Inr q \<Longrightarrow> mp_ok p \<Longrightarrow>
    mp_ok q \<and> refCnt q = refCnt p \<and> dataType q = dataType p \<and> writeCnt q = writeCnt p \<and>
    mp_protocol q \<noteq> None \<and> (slaveAddr q = 0 \<longrightarrow> mp_protocol q \<in> {Some TCP, Some RTUOVERTCP})"
  unfolding detect_protocol_def Let_def require_Inr mp_ok_def
  by (cases "mp_protocol q") (auto split: option.splits if_splits, (metis MpProtocol.exhaust)+)

lemma put_values_length: "put_values conv i ss arr = Inr out \<Longrightarrow> length out = length arr"
  by (induction ss arbitrary: i arr) (auto split: sum.splits if_splits)

lemma map_sum_Inr: "map_sum id f x = Inr y \<longleftrightarrow> (\<exists>z. x = Inr z \<and> y = f z)"
  by (cases x) auto

lemma same_settings:
  "mp_ready p \<Longrightarrow> length xs = length (intArr p) \<Longrightarrow> mp_ready (p\<lparr>intArr := xs\<rparr>)"
  "mp_ready p \<Longrightarrow> length ys = length (shortArr p) \<Longrightarrow> mp_ready (p\<lparr>shortArr := ys\<rparr>)"
  "mp_ready p \<Longrightarrow> length zs = length (floatArr p) \<Longrightarrow> mp_ready (p\<lparr>floatArr := zs\<rparr>)"
  by (simp_all add: mp_ready_def mp_ok_def)

lemma scan_values_ok: "scan_values L vals p = Inr q \<Longrightarrow> mp_ready p \<Longrightarrow> mp_ready q \<and> writeCnt q = writeCnt p"
  by (cases "dataType p")
    (auto simp: scan_values_def Let_def map_sum_Inr intro!: same_settings dest!: put_values_length split: if_splits)

lemma scanOptions_ready:
  assumes "scanOptions L args = Inr p"
  shows "mp_ready p"
proof -
  obtain opts operands where g: "getopt mp_options args = (opts, operands)" by force
  from assms obtain p1 p2 p3 where s: "scan_all L opts new_Poll = Inr p1" "check_counts operands p1 = Inr p2"
    "detect_protocol (hd operands) p2 = Inr p3" "scan_values L (tl operands) p3 = Inr p"
    by (auto simp: scanOptions_def g split: if_splits sum.splits)
  from scan_all_ok [OF s(1) new_Poll_ok] check_counts_ok [OF s(2)]
  have "mp_ok p2" "1 \<le> refCnt p2" "refCnt p2 \<le> (if is_bits (dataType p2) then 2000 else 125)" by simp_all
  with detect_protocol_ok [OF s(3)] have "mp_ready p3" by (simp add: mp_ready_def)
  with scan_values_ok [OF s(4)] show ?thesis by simp
qed

section \<open>Polling\<close>

text \<open>The code that the library returns for a reading.\<close>

definition reading :: "Bus \<Rightarrow> Poll \<Rightarrow> nat \<Rightarrow> u32" where
  "reading e p n =
     (let ints = (\<lambda>fn. fst (read_ints e n fn (slaveAddr p) (mp_ref p) (refCnt p)));
          shorts = (\<lambda>fn. fst (read_shorts e n fn (slaveAddr p) (mp_ref p) (refCnt p)));
          floats = (\<lambda>fn. fst (read_floats e n fn (slaveAddr p) (mp_ref p) (refCnt p)))
      in case dataType p of
           T0_BIT \<Rightarrow> ints readCoils | T1_BIT \<Rightarrow> ints readInputDiscretes
         | T3_REG16 \<Rightarrow> shorts readInputRegisters | T3_HEX16 \<Rightarrow> shorts readInputRegisters
         | T3_INT32 \<Rightarrow> ints readInputLongInts | T3_MOD10000 \<Rightarrow> ints readInputMod10000
         | T3_FLOAT32 \<Rightarrow> floats readInputFloats
         | T4_REG16 \<Rightarrow> shorts readMultipleRegisters | T4_HEX16 \<Rightarrow> shorts readMultipleRegisters
         | T4_INT32 \<Rightarrow> ints readMultipleLongInts | T4_MOD10000 \<Rightarrow> ints readMultipleMod10000
         | T4_FLOAT32 \<Rightarrow> floats readMultipleFloats)"

definition fatal :: "Bus \<Rightarrow> u32 \<Rightarrow> bool" where
  "fatal e r = (r \<noteq> FTALK_SUCCESS e \<and> r AND FTALK_BUS_PROTOCOL_ERROR_CLASS e = 0)"

text \<open>What a poll leaves alone.\<close>

definition same_poll :: "Poll \<Rightarrow> Poll \<Rightarrow> bool" where
  "same_poll p q =
     (slaveAddr q = slaveAddr p \<and> mp_ref q = mp_ref p \<and> refCnt q = refCnt p \<and> dataType q = dataType p \<and>
      length (shortArr q) = length (shortArr p) \<and> length (intArr q) = length (intArr p) \<and>
      length (floatArr q) = length (floatArr p))"

definition fits :: "Poll \<Rightarrow> bool" where
  "fits p =
     (length (shortArr p) = 125 \<and> length (intArr p) = 2000 \<and> length (floatArr p) = 125 \<and>
      nat (refCnt p) \<le> (if is_bits (dataType p) then 2000 else 125))"

lemma ready_fits: "mp_ready p \<Longrightarrow> fits p"
  by (auto simp: mp_ready_def mp_ok_def fits_def)

lemma same_poll_fits: "same_poll p q \<Longrightarrow> fits p \<Longrightarrow> fits q"
  by (simp add: same_poll_def fits_def)

lemma same_poll_reading: "same_poll p q \<Longrightarrow> reading e q = reading e p"
  by (rule ext) (simp add: same_poll_def reading_def)

lemma store_values_Some: "cnt \<le> length arr \<Longrightarrow> \<exists>out. store_values arr cnt vs = Some out \<and> length out = length arr"
  by (auto simp: store_values_def intro!: exI)

lemma poll_array:
  "nat (refCnt p) \<le> length (intArr p) \<Longrightarrow> \<exists>q. poll_ints e n fn step p =
     Inr (fst (read_ints e n fn (slaveAddr p) (mp_ref p) (refCnt p)), q) \<and> same_poll p q \<and> pollCnt q = pollCnt p"
  "nat (refCnt p) \<le> length (shortArr p) \<Longrightarrow> \<exists>q. poll_shorts e n fn pr p =
     Inr (fst (read_shorts e n fn (slaveAddr p) (mp_ref p) (refCnt p)), q) \<and> same_poll p q \<and> pollCnt q = pollCnt p"
  "nat (refCnt p) \<le> length (floatArr p) \<Longrightarrow> \<exists>q. poll_floats e n fn p =
     Inr (fst (read_floats e n fn (slaveAddr p) (mp_ref p) (refCnt p)), q) \<and> same_poll p q \<and> pollCnt q = pollCnt p"
  subgoal
    using store_values_Some [of "nat (refCnt p)" "intArr p" "snd (read_ints e n fn (slaveAddr p) (mp_ref p) (refCnt p))"]
    by (auto simp: poll_ints_def case_prod_unfold show_reading_def same_poll_def Let_def)
  subgoal
    using store_values_Some [of "nat (refCnt p)" "shortArr p" "snd (read_shorts e n fn (slaveAddr p) (mp_ref p) (refCnt p))"]
    by (auto simp: poll_shorts_def case_prod_unfold show_reading_def same_poll_def Let_def)
  subgoal
    using store_values_Some [of "nat (refCnt p)" "floatArr p" "snd (read_floats e n fn (slaveAddr p) (mp_ref p) (refCnt p))"]
    by (auto simp: poll_floats_def case_prod_unfold show_reading_def same_poll_def Let_def)
  done

lemma poll_once_result:
  assumes "fits p"
  shows "\<exists>q. poll_once e n p = Inr (reading e p n, q) \<and> same_poll p q \<and> pollCnt q = pollCnt p"
proof -
  from assms have "nat (refCnt p) \<le> length (intArr p)"
    "\<not> is_bits (dataType p) \<Longrightarrow> nat (refCnt p) \<le> length (shortArr p) \<and> nat (refCnt p) \<le> length (floatArr p)"
    by (auto simp: fits_def split: if_splits)
  then show ?thesis
    using poll_array [of p e n]
    by (cases "dataType p") (simp_all add: poll_once_def reading_def is_bits_def)
qed

lemma announce_same: "same_poll p (announce p)" "pollCnt p = - 1 \<Longrightarrow> pollCnt (announce p) = - 1"
  "pollCnt p = 1 \<Longrightarrow> pollCnt (announce p) = 0"
  by (simp_all add: announce_def same_poll_def)

text \<open>Whether a reading ends the loop that polls without a limit.\<close>

lemma poll_loop_ends:
  assumes "fits p" "pollCnt p = - 1" "\<And>m. n \<le> m \<Longrightarrow> m < k \<Longrightarrow> \<not> fatal e (reading e p m)" "n \<le> k"
    "fatal e (reading e p k)"
  shows "\<exists>q. poll_loop e n r p = Some (Inr (reading e p k, q))"
  using assms
proof (induction "k - n" arbitrary: n r p)
  case 0
  then have k: "k = n" by simp
  from poll_once_result [of "announce p" e n] same_poll_fits [OF announce_same(1) 0(2)] obtain q where
    "poll_once e n (announce p) = Inr (reading e (announce p) n, q)" by blast
  with 0 k same_poll_reading [OF announce_same(1)] show ?case
    by (subst poll_loop.simps) (simp add: fatal_def Let_def)
next
  case (Suc d)
  note same = announce_same [of p]
  from poll_once_result [of "announce p" e n] same_poll_fits [OF same(1) Suc.prems(1)] obtain q where
    q: "poll_once e n (announce p) = Inr (reading e (announce p) n, q)" "same_poll (announce p) q"
      "pollCnt q = pollCnt (announce p)" by blast
  from Suc.hyps(2) have lt: "n < k" "Suc n \<le> k" "d = k - Suc n" by simp_all
  have nf: "\<not> fatal e (reading e p n)" using Suc.prems(3) lt by simp
  have go: "\<exists>t. poll_loop e (Suc n) (reading e p n) q' = Some (Inr (reading e p k, t))"
    if "same_poll p q'" "pollCnt q' = - 1" for q'
    using Suc.hyps(1) [of "Suc n" q' "reading e p n"] Suc.prems that lt same_poll_fits [OF that(1)]
      same_poll_reading [OF that(1), of e] by simp
  have "same_poll p q" "pollCnt q = - 1"
    using q(2,3) same Suc.prems(2) by (simp_all add: same_poll_def)
  moreover from this have "same_poll p (q\<lparr>mp_err := x\<rparr>)" "pollCnt (q\<lparr>mp_err := x\<rparr>) = - 1" for x
    by (simp_all add: same_poll_def)
  ultimately show ?case
    using nf Suc.prems(2) q(1) same_poll_reading [OF same(1), of e] go
    by (subst poll_loop.simps) (auto simp: fatal_def Let_def)
qed

lemma poll_loop_fatal:
  "poll_loop e n r p = Some y \<Longrightarrow> fits p \<Longrightarrow> pollCnt p = - 1 \<Longrightarrow> \<exists>m \<ge> n. fatal e (reading e p m)"
proof (induction rule: poll_loop.raw_induct [rotated, consumes 1, case_names step])
  case (step f e n r p y)
  note same = announce_same [of p]
  from poll_once_result [of "announce p" e n] same_poll_fits [OF same(1) step.prems(1)] obtain q where
    q: "poll_once e n (announce p) = Inr (reading e (announce p) n, q)" "same_poll (announce p) q"
      "pollCnt q = pollCnt (announce p)" by blast
  have rd: "reading e (announce p) = reading e p" by (rule same_poll_reading [OF same(1)])
  have same': "same_poll p q" "pollCnt q = - 1"
    using q(2,3) same step.prems(2) by (simp_all add: same_poll_def)
  show ?case
  proof (cases "fatal e (reading e p n)")
    case False
    define q' where "q' = (if reading e p n = FTALK_SUCCESS e then q
      else q\<lparr>mp_err := mp_err q @ getBusProtocolErrorText e (reading e p n) @ ''!'' @ nl\<rparr>)"
    have q': "f e (Suc n) (reading e p n) q' = Some y"
      using step(2) False step.prems(2) q(1) rd by (simp add: fatal_def Let_def q'_def split: if_splits)
    have s: "same_poll p q'" "pollCnt q' = - 1" using same' by (simp_all add: same_poll_def q'_def)
    from step(1) [OF q' same_poll_fits [OF s(1) step.prems(1)] s(2)] same_poll_reading [OF s(1), of e]
    show ?thesis by (auto intro: Suc_leD)
  qed auto
qed

lemma polling_result:
  assumes fits: "fits p" and "pollCnt p = - 1"
  shows "map_option (map_sum id fst) (pollSlave e p) =
    (if \<exists>n. fatal e (reading e p n) then Some (Inr (reading e p (LEAST n. fatal e (reading e p n)))) else None)"
proof (cases "\<exists>n. fatal e (reading e p n)")
  case True
  let ?k = "LEAST n. fatal e (reading e p n)"
  have k: "fatal e (reading e p ?k)" using True by (rule LeastI_ex)
  have "\<not> fatal e (reading e p m)" if "m < ?k" for m using not_less_Least [OF that] .
  from poll_loop_ends [OF fits assms(2) this _ k, of 0 "- 1"]
  obtain q where "poll_loop e 0 (- 1) p = Some (Inr (reading e p ?k, q))" by blast
  then show ?thesis using True by (simp add: pollSlave_def)
next
  case False
  then have "poll_loop e 0 (- 1) p = None"
    using poll_loop_fatal [OF _ fits assms(2), of e 0 "- 1"] by (cases "poll_loop e 0 (- 1) p") auto
  then show ?thesis using False by (simp add: pollSlave_def)
qed

text \<open>C38: polling without a limit returns exactly if some reading fails with an error that is not one of
  the protocol, and then with the code of the first one; every other error is reported and the loop
  goes on.\<close>

theorem polling_ends_with_fatal_error:
  assumes "scanOptions L args = Inr p" "pollCnt p = - 1"
  shows "map_option (map_sum id fst) (pollSlave e p) =
    (if \<exists>n. fatal e (reading e p n) then Some (Inr (reading e p (LEAST n. fatal e (reading e p n)))) else None)"
  using assms by (intro polling_result ready_fits scanOptions_ready)

text \<open>
  The ranges of the text that describes the options, with the largest count and the numbers of data
  bits for RTU left open: the text says 125, whatever the type of the data, and 8.
\<close>

definition usage_ranges :: "int \<Rightarrow> int set \<Rightarrow> Poll \<Rightarrow> bool" where
  "usage_ranges most rtu_bits p \<longleftrightarrow>
     (case mp_protocol p of
        Some RTU \<Rightarrow> 1 \<le> slaveAddr p \<and> dataBits p \<in> rtu_bits
      | Some ASCII \<Rightarrow> 1 \<le> slaveAddr p \<and> dataBits p \<in> {7, 8}
      | Some _ \<Rightarrow> 0 \<le> slaveAddr p
      | None \<Rightarrow> False) \<and>
     slaveAddr p \<le> 255 \<and> 1 \<le> mp_ref p \<and> mp_ref p \<le> 65536 \<and> 1 \<le> refCnt p \<and> refCnt p \<le> most \<and>
     stopBits p \<in> {1, 2} \<and> 10 \<le> timeOut p \<and> timeOut p \<le> 10000"

lemma ready_in_usage: "mp_ready p \<Longrightarrow> usage_ranges (if is_bits (dataType p) then 2000 else 125) {7, 8} p"
  by (auto simp: mp_ready_def mp_ok_def usage_ranges_def split: option.split MpProtocol.split)

text \<open>C37: whatever the options are, a configuration that is accepted can be polled without leaving the
  arrays: every reading, whatever the library returns for it, ends with a value and polling never has no
  meaning.  The configuration has the ranges that the text for the user gives, but that the count of bits may
  be up to 2000 and that RTU may have 7 data bits.\<close>

theorem accepted_options_are_in_range:
  assumes "scanOptions L args = Inr p"
  shows "usage_ranges (if is_bits (dataType p) then 2000 else 125) {7, 8} p \<and>
    (\<exists>q. poll_once e n p = Inr (reading e p n, q)) \<and> pollSlave e p \<noteq> Some (Inl x)"
proof -
  note ready = scanOptions_ready [OF assms]
  note fits = ready_fits [OF ready]
  have "pollCnt p = - 1 \<or> pollCnt p = 1" using ready by (simp add: mp_ready_def mp_ok_def)
  then have "pollSlave e p \<noteq> Some (Inl x)"
  proof
    assume "pollCnt p = - 1"
    from polling_result [OF fits this, of e] show ?thesis by (auto split: if_splits)
  next
    assume one: "pollCnt p = 1"
    from poll_once_result [of "announce p" e 0] same_poll_fits [OF announce_same(1) fits]
    obtain q where "poll_once e 0 (announce p) = Inr (reading e (announce p) 0, q)" "pollCnt q = 0"
      using announce_same(3) [OF one] by auto
    then show ?thesis using one
      by (simp add: pollSlave_def poll_loop.simps [of e 0] poll_loop.simps [of e "Suc 0"] Let_def)
  qed
  with ready_in_usage [OF ready] poll_once_result [OF fits] show ?thesis by blast
qed

lemma not_special:
  "operand s \<Longrightarrow> s \<noteq> ''--version'' \<and> s \<noteq> ''--help''"
  "show_signed x \<noteq> ''--version'' \<and> show_signed x \<noteq> ''--help''"
proof -
  show "operand s \<Longrightarrow> s \<noteq> ''--version'' \<and> s \<noteq> ''--help''" by (auto simp: operand_def)
  obtain d :: nat and cs where "show_dec (nat \<bar>x\<bar>) = char_of (48 + d) # cs" "d < 10"
    using hd_show_dec by blast
  then show "show_signed x \<noteq> ''--version'' \<and> show_signed x \<noteq> ''--help''"
    using digit_char(2) [of d] by (auto simp: show_signed_def)
qed

lemma reg_value_show:
  assumes "32 \<le> L" "- 32768 \<le> x" "x < 65536"
  shows "reg_value L (show_signed x) = Inr (word_of_int x)"
proof -
  have "(2::int) ^ 31 \<le> 2 ^ (L - 1)" using assms(1) by (intro power_increasing) simp_all
  then have "strtol L 0 (show_signed x) = (x, False, [])" using assms(2,3) by (intro strtol_show) simp_all
  then show ?thesis using assms(2,3) by (simp add: reg_value_def badValue_def)
qed

text \<open>Values that can be converted are stored one behind the other, or run over the array.\<close>

lemma put_values_all:
  assumes "\<And>x. x \<in> set xs \<Longrightarrow> conv (pr x) = Inr (f x)"
  shows "put_values conv i (map pr xs) arr =
    (if i + length xs \<le> length arr \<or> xs = [] then Inr (overwrite arr i (map f xs)) else Inl (Undefined OutOfBounds))"
  using assms
proof (induction xs arbitrary: i arr)
  case (Cons x xs)
  from overwrite_Cons [of i arr "f x" "map f xs"] Cons show ?case
    by (cases "xs = []") (auto simp: overwrite_Cons [symmetric] simp del: overwrite_Cons)
qed simp

lemma scanOptions_values:
  assumes "getopt mp_options args = ([], host # map pr xs)" "''--version'' \<notin> set args" "''--help'' \<notin> set args"
    and "xs \<noteq> []" "\<And>x. x \<in> set xs \<Longrightarrow> reg_value L (pr x) = Inr (f x)"
  shows "scanOptions L args =
    (if length xs \<le> 125
     then Inr (new_Poll\<lparr>writeCnt := int (length xs), refCnt := 1, portName := host,
       mp_protocol := Some (if CHR ''/'' \<in> set host then RTU else TCP),
       shortArr := overwrite (replicate 125 0) 0 (map f xs)\<rparr>)
     else Inl (Undefined OutOfBounds))"
proof -
  let ?p = "new_Poll\<lparr>writeCnt := int (length xs), refCnt := 1, portName := host,
       mp_protocol := Some (if CHR ''/'' \<in> set host then RTU else TCP)\<rparr>"
  have "check_counts (host # map pr xs) new_Poll = Inr (new_Poll\<lparr>writeCnt := int (length xs), refCnt := 1\<rparr>)"
    using assms(4) by (simp add: check_counts_def new_Poll_def Let_def require_def is_bits_def MAX_REF_CNT_def)
  moreover have "detect_protocol host (new_Poll\<lparr>writeCnt := int (length xs), refCnt := 1\<rparr>) = Inr ?p"
    by (simp add: detect_protocol_def new_Poll_def Let_def require_def)
  moreover have "scan_values L (map pr xs) ?p = (if length xs \<le> 125
     then Inr (?p\<lparr>shortArr := overwrite (replicate 125 0) 0 (map f xs)\<rparr>) else Inl (Undefined OutOfBounds))"
    using assms(4,5) put_values_all [of xs "reg_value L" pr f 0 "shortArr ?p"]
    by (simp add: scan_values_def new_Poll_def MAX_REF_CNT_def)
  ultimately show ?thesis using assms(1-3) by (simp add: scanOptions_def)
qed

text \<open>C39: the count that is checked is the one of the option \<open>-c\<close>, which is 1 when it is not given: more
  than 125 values on the command line are stored behind the end of the array.\<close>

theorem too_many_values_overrun:
  assumes "32 \<le> L" "operand host" "125 < length ns" "\<forall>n \<in> set ns. n < 65536"
  shows "scanOptions L (host # map show_dec ns) = Inl (Undefined OutOfBounds)"
proof -
  have op: "\<forall>a \<in> set (host # map show_dec ns). operand a" using assms(2) by (auto simp: operand_show_dec)
  then have "''--version'' \<notin> set (host # map show_dec ns)" "''--help'' \<notin> set (host # map show_dec ns)"
    using not_special(1) by blast+
  moreover have "reg_value L (show_dec n) = Inr (word_of_int (int n))" if "n \<in> set ns" for n
    using reg_value_show [of L "int n"] that assms(1,4) by (simp add: show_signed_def)
  ultimately show ?thesis
    using scanOptions_values [OF getopt_operands [OF op], of L "\<lambda>n. word_of_int (int n)"] assms(3) by force
qed

text \<open>C36: up to 125 values of a register, signed or unsigned, that follow the host in decimal behind the marker
  for the end of the options are sent to the device in one call, in their order and as words of 16
  bits.\<close>

theorem values_are_written:
  assumes "32 \<le> L" "xs \<noteq> []" "length xs \<le> 125" "\<forall>x \<in> set xs. - 32768 \<le> x \<and> x < 65536"
    and "host \<notin> {''--version'', ''--help''}" "\<forall>kind calls. open_protocol e kind calls = FTALK_SUCCESS e"
  shows "\<exists>q. mp_main L e (''--'' # host # map show_signed xs) =
    Some (Inr (write_shorts e writeMultipleRegisters 1 1 (map word_of_int xs) = FTALK_SUCCESS e, q))"
proof -
  let ?args = "''--'' # host # map show_signed xs"
  have "''--version'' \<notin> set ?args" "''--help'' \<notin> set ?args" using assms(5) not_special(2) by (auto dest: sym)
  moreover have "getopt mp_options ?args = ([], host # map show_signed xs)" by simp
  moreover have "reg_value L (show_signed x) = Inr (word_of_int x)" if "x \<in> set xs" for x
    using reg_value_show that assms(1,4) by simp
  ultimately obtain p where p: "scanOptions L ?args = Inr p" "writeCnt p = int (length xs)" "dataType p = T4_REG16"
    "slaveAddr p = 1" "mp_ref p = 1" "shortArr p = overwrite (replicate 125 0) 0 (map word_of_int xs)" "mp_protocol p \<noteq> None"
    using scanOptions_values [of ?args host show_signed xs L word_of_int] assms(2,3) by (simp add: new_Poll_def)
  then have "openProtocol e (p\<lparr>mp_out := printConfig p\<rparr>) = Inr (p\<lparr>mp_out := printConfig p\<rparr>)"
    using assms(6) by (auto simp: openProtocol_def split: option.splits MpProtocol.splits)
  moreover have "length (shortArr p) = 125" "take (length xs) (shortArr p) = map word_of_int xs"
    using p(6) assms(3) by (simp_all add: overwrite_def)
  ultimately show ?thesis
    using p assms(2,3) by (simp add: mp_main_def writeSlave_def sent_values_def Let_def)
qed

text \<open>Without the marker a negative value is an option: minus one asks for a single poll, and nothing is
  written.\<close>

lemma negative_value_is_an_option:
  "\<exists>p. scanOptions 32 [''host'', show_signed (- 1)] = Inr p \<and> writeCnt p = 0 \<and> pollCnt p = 1"
  "scanOptions 32 [''host'', show_signed (- 5)] = Inl (BadOption ''Unrecognized option or missing option parameter'')"
proof -
  have "show_signed (- 1) = ''-1''" "show_signed (- 5) = ''-5''"
    by (simp_all add: show_signed_def show_dec.simps char_of_def bit_Suc_0_iff)
  then show "\<exists>p. scanOptions 32 [''host'', show_signed (- 1)] = Inr p \<and> writeCnt p = 0 \<and> pollCnt p = 1"
    "scanOptions 32 [''host'', show_signed (- 5)] = Inl (BadOption ''Unrecognized option or missing option parameter'')"
    by (simp_all add: scanOptions_def mp_options_def scan_option_def check_counts_def detect_protocol_def
      scan_values_def new_Poll_def Let_def require_def is_bits_def MAX_REF_CNT_def)
qed

section \<open>Examples\<close>

text \<open>A library whose third reading fails.\<close>

definition sample_bus :: Bus where
  "sample_bus = \<lparr>FTALK_SUCCESS = 0, FTALK_ILLEGAL_ARGUMENT_ERROR = 1, FTALK_TCPIP_CONNECT_ERR = 2,
     FTALK_BUS_PROTOCOL_ERROR_CLASS = 128, getBusProtocolErrorText = (\<lambda>_. ''error''), open_protocol = (\<lambda>_ _. 0),
     read_ints = (\<lambda>n _ _ _ _. (if n = 2 then 3 else 129, [])), read_shorts = (\<lambda>n _ _ _ _. (if n = 2 then 3 else 129, [])),
     read_floats = (\<lambda>n _ _ _ _. (if n = 2 then 3 else 129, [])), write_ints = (\<lambda>_ _ _ _. 0),
     write_shorts = (\<lambda>_ _ _ _. 0), write_floats = (\<lambda>_ _ _ _. 0)\<rparr>"

definition sample_poll :: Poll where
  "sample_poll = new_Poll\<lparr>writeCnt := 0, refCnt := 1, portName := ''host'', mp_protocol := Some TCP\<rparr>"

lemma sample_options: "scanOptions 32 [''host''] = Inr sample_poll"
  by (simp add: scanOptions_def mp_options_def check_counts_def detect_protocol_def scan_values_def new_Poll_def
    sample_poll_def Let_def require_def is_bits_def MAX_REF_CNT_def)

lemma sample_reading:
  "reading sample_bus sample_poll n = (if n = 2 then 3 else 129)"
  "fatal sample_bus (reading sample_bus sample_poll n) \<longleftrightarrow> n = 2"
  by (simp_all add: reading_def sample_bus_def sample_poll_def new_Poll_def fatal_def)

theorem polling_ends_with_fatal_error_witness:
  "map_option (map_sum id fst) (pollSlave sample_bus sample_poll) = Some (Inr 3)"
proof -
  have two: "(LEAST n :: nat. n = 2) = 2" by (rule Least_equality) simp_all
  have "pollCnt sample_poll = - 1" by (simp add: sample_poll_def new_Poll_def)
  from polling_ends_with_fatal_error [OF sample_options this, of sample_bus]
  show ?thesis unfolding sample_reading(2) by (simp add: sample_reading(1) two)
qed

theorem accepted_options_are_in_range_witness:
  "usage_ranges 125 {7, 8} sample_poll \<and> (\<exists>q. poll_once sample_bus 2 sample_poll = Inr (3, q))"
  using accepted_options_are_in_range [OF sample_options, of sample_bus 2 PrintedUsage]
  by (simp add: sample_reading(1)) (simp add: sample_poll_def new_Poll_def is_bits_def)

text \<open>The text allows 125 values and, with RTU, 8 data bits; the program takes more of one and less of the other.\<close>

lemma beyond_the_usage:
  "\<exists>p. scanOptions 32 [''-t'', ''0'', ''-c'', ''2000'', ''host''] = Inr p \<and> refCnt p = 2000 \<and>
     \<not> usage_ranges 125 {8} p"
  "\<exists>p. scanOptions 32 [''-m'', ''rtu'', ''-d'', ''7'', ''host''] = Inr p \<and> dataBits p = 7 \<and>
     mp_protocol p = Some RTU \<and> \<not> usage_ranges 125 {8} p"
proof -
  have 2000: "int_arg 32 ''2000'' = 2000" and 7: "int_arg 32 ''7'' = 7" by code_simp+
  show "\<exists>p. scanOptions 32 [''-t'', ''0'', ''-c'', ''2000'', ''host''] = Inr p \<and> refCnt p = 2000 \<and>
     \<not> usage_ranges 125 {8} p"
    by (simp add: scanOptions_def mp_options_def scan_option_def type_of_def check_counts_def detect_protocol_def
      scan_values_def new_Poll_def Let_def require_def is_bits_def MAX_REF_CNT_def usage_ranges_def 2000)
  show "\<exists>p. scanOptions 32 [''-m'', ''rtu'', ''-d'', ''7'', ''host''] = Inr p \<and> dataBits p = 7 \<and>
     mp_protocol p = Some RTU \<and> \<not> usage_ranges 125 {8} p"
    by (simp add: scanOptions_def mp_options_def scan_option_def protocol_of_def check_counts_def detect_protocol_def
      scan_values_def new_Poll_def Let_def require_def is_bits_def MAX_REF_CNT_def usage_ranges_def 7)
qed

theorem too_many_values_overrun_witness:
  "scanOptions 32 (''host'' # map show_dec (replicate 126 7)) = Inl (Undefined OutOfBounds)"
  by (rule too_many_values_overrun) (simp_all add: operand_def)

theorem values_are_written_witness:
  "\<exists>q. mp_main 32 sample_bus (''--'' # ''host'' # map show_signed [- 1, 65535]) =
    Some (Inr (write_shorts sample_bus writeMultipleRegisters 1 1 (map word_of_int [- 1, 65535]) = FTALK_SUCCESS sample_bus, q))"
  by (rule values_are_written) (simp_all add: sample_bus_def)

end
