(* ===== verification/Bench_Macros.thy ===== *)
theory Bench_Macros
  imports Regi_Prelude
begin

text \<open>
  The list of the tests of the benchmark (regitest/benchmark/macroses.h).  A node of the list is an
  object of the heap, a map from addresses to nodes, and the list keeps the addresses of its first
  and of its last node; the address 0 is the null pointer.  The address that \<open>calloc\<close> answers is an
  argument, fresh unless the memory is exhausted.  The functions of the tests are a type parameter,
  since the list only keeps them.  What the list promises its users, a table in which the first
  entry of a name counts, is the locale \<open>macros_table\<close>, and the list with its nodes is its model.
\<close>

section \<open>Nodes and lists\<close>

definition MACROSES_NAME_LEN :: nat where
  "MACROSES_NAME_LEN = 10"

record 'f macros =
  m_name :: string
  m_func :: 'f
  m_next :: nat

record 'f TMacrosList =
  ml_heap :: "nat \<rightharpoonup> 'f macros"
  ml_list :: nat
  ml_end :: nat

definition new_TMacrosList :: "'f TMacrosList" where
  "new_TMacrosList = \<lparr>ml_heap = Map.empty, ml_list = 0, ml_end = 0\<rparr>"

text \<open>
  The new node has a name of its own to write to, \<open>strcpy\<close> writes the name with the zero byte behind
  it.  \<open>end->next\<close> is an access to the node at \<open>end\<close>.
\<close>

definition add :: "nat \<Rightarrow> string \<Rightarrow> 'f \<Rightarrow> 'f TMacrosList \<Rightarrow> stop + 'f TMacrosList" where
  "add tmp name func l =
     (if tmp = 0 then Inl Dangling
      else if MACROSES_NAME_LEN < length name + 1 then Inl OutOfBounds
      else
        (let l = l\<lparr>ml_heap := (ml_heap l)(tmp \<mapsto> \<lparr>m_name = name, m_func = func, m_next = 0\<rparr>)\<rparr>;
             l' = (if ml_end l \<noteq> 0
                   then (case ml_heap l (ml_end l) of
                           None \<Rightarrow> Inl Dangling
                         | Some m \<Rightarrow> Inr (l\<lparr>ml_heap := (ml_heap l)(ml_end l \<mapsto> m\<lparr>m_next := tmp\<rparr>),
                                           ml_end := tmp\<rparr>))
                   else Inr l)
         in case l' of
              Inl e \<Rightarrow> Inl e
            | Inr l \<Rightarrow> Inr (if ml_list l = 0 then l\<lparr>ml_list := tmp, ml_end := tmp\<rparr> else l)))"

text \<open>The loop of \<open>get\<close>, which does not end on nodes in a circle.\<close>

partial_function (option) get_from ::
  "(nat \<rightharpoonup> 'f macros) \<Rightarrow> string \<Rightarrow> nat \<Rightarrow> (stop + nat) option" where
  "get_from h name cur =
     (if cur = 0 then Some (Inr cur)
      else (case h cur of
              None \<Rightarrow> Some (Inl Dangling)
            | Some m \<Rightarrow> if name = m_name m then Some (Inr cur) else get_from h name (m_next m)))"

definition get :: "string \<Rightarrow> 'f TMacrosList \<Rightarrow> (stop + nat) option" where
  "get name l = get_from (ml_heap l) name (ml_list l)"

text \<open>The function that \<open>run\<close> calls, if any: then it returns 0, and -1 otherwise.\<close>

definition run :: "string \<Rightarrow> 'f TMacrosList \<Rightarrow> (stop + 'f option) option" where
  "run name l =
     (case get name l of
        None \<Rightarrow> None
      | Some (Inl e) \<Rightarrow> Some (Inl e)
      | Some (Inr cur) \<Rightarrow>
          (if cur \<noteq> 0
           then (case ml_heap l cur of
                   None \<Rightarrow> Some (Inl Dangling)
                 | Some m \<Rightarrow> Some (Inr (Some (m_func m))))
           else Some (Inr None)))"

partial_function (option) clear_from ::
  "(nat \<rightharpoonup> 'f macros) \<Rightarrow> nat \<Rightarrow> (stop + (nat \<rightharpoonup> 'f macros)) option" where
  "clear_from h cur =
     (if cur = 0 then Some (Inr h)
      else (case h cur of
              None \<Rightarrow> Some (Inl Dangling)
            | Some m \<Rightarrow> clear_from (h(cur := None)) (m_next m)))"

text \<open>\<open>clear\<close> frees the nodes and keeps both addresses.\<close>

definition clear :: "'f TMacrosList \<Rightarrow> (stop + 'f TMacrosList) option" where
  "clear l =
     (case clear_from (ml_heap l) (ml_list l) of
        None \<Rightarrow> None
      | Some (Inl e) \<Rightarrow> Some (Inl e)
      | Some (Inr h) \<Rightarrow> Some (Inr (l\<lparr>ml_heap := h\<rparr>)))"

section \<open>Chains of nodes\<close>

text \<open>The nodes from an address to another one, with their addresses, names and functions.\<close>

fun chain :: "(nat \<rightharpoonup> 'f macros) \<Rightarrow> nat \<Rightarrow> (nat \<times> string \<times> 'f) list \<Rightarrow> nat \<Rightarrow> bool" where
  "chain h p [] q \<longleftrightarrow> p = q"
| "chain h p ((a, n, f) # ns) q \<longleftrightarrow>
     p = a \<and> a \<noteq> 0 \<and>
     (case h a of None \<Rightarrow> False | Some m \<Rightarrow> m_name m = n \<and> m_func m = f \<and> chain h (m_next m) ns q)"

lemma chain_append [simp]: "chain h p (ns @ ms) q \<longleftrightarrow> (\<exists>r. chain h p ns r \<and> chain h r ms q)"
  by (induction h p ns q rule: chain.induct) (auto split: option.splits)

lemma chain_other [simp]: "a \<notin> fst ` set ns \<Longrightarrow> chain (h(a := x)) p ns q \<longleftrightarrow> chain h p ns q"
  by (induction h p ns q rule: chain.induct) (auto split: option.splits)

lemma chain_nonzero: "chain h p ns q \<Longrightarrow> 0 \<notin> fst ` set ns"
  by (induction h p ns q rule: chain.induct) (auto split: option.splits)

lemma chain_start: "chain h p ns 0 \<Longrightarrow> p = 0 \<longleftrightarrow> ns = []"
  by (cases ns) auto

text \<open>A list that is well formed: its nodes are all that the heap holds, and the end is the last.\<close>

definition nodes :: "'f TMacrosList \<Rightarrow> (nat \<times> string \<times> 'f) list \<Rightarrow> bool" where
  "nodes l ns \<longleftrightarrow>
     chain (ml_heap l) (ml_list l) ns 0 \<and> distinct (map fst ns) \<and>
     dom (ml_heap l) = fst ` set ns \<and> ml_end l = (if ns = [] then 0 else fst (last ns))"

definition holds :: "'f TMacrosList \<Rightarrow> (string \<times> 'f) list \<Rightarrow> bool" where
  "holds l ms \<longleftrightarrow> (\<exists>ns. nodes l ns \<and> map snd ns = ms)"

definition fresh :: "nat \<Rightarrow> 'f TMacrosList \<Rightarrow> bool" where
  "fresh a l \<longleftrightarrow> a \<noteq> 0 \<and> a \<notin> dom (ml_heap l)"

lemma nodes_new: "nodes new_TMacrosList []"
  by (simp add: nodes_def new_TMacrosList_def)

text \<open>A node is put at the end of a chain of them.\<close>

lemma add_nodes:
  assumes "nodes l ns" "fresh a l" "length n < MACROSES_NAME_LEN"
  shows "\<exists>t. add a n f l = Inr t \<and> nodes t (ns @ [(a, n, f)])"
proof (cases ns rule: rev_cases)
  case Nil
  with assms show ?thesis
    by (simp add: add_def nodes_def fresh_def Let_def)
next
  case (snoc ms x)
  obtain b m g where x: "x = (b, m, g)" by (cases x)
  from assms snoc x obtain k where k: "ml_heap l b = Some k" "m_name k = m" "m_func k = g" "m_next k = 0"
    and h: "chain (ml_heap l) (ml_list l) ms b" "b \<noteq> 0" "ml_end l = b" "b \<notin> fst ` set ms"
      "dom (ml_heap l) = insert b (fst ` set ms)" "distinct (map fst ms)"
    by (auto simp: nodes_def split: option.splits)
  have a: "a \<noteq> 0" "a \<noteq> b" "a \<notin> fst ` set ms" "ml_list l \<noteq> 0"
    using assms(1,2) h(5) snoc x chain_start [of "ml_heap l" "ml_list l" ns] by (auto simp: fresh_def nodes_def)
  with assms(3) k h show ?thesis
    unfolding snoc x by (auto simp: add_def Let_def nodes_def)
qed

section \<open>The table\<close>

text \<open>What the users of the list rely on.\<close>

locale macros_table =
  fixes table :: "'l \<Rightarrow> (string \<times> 'f) list \<Rightarrow> bool"
    and unused :: "nat \<Rightarrow> 'l \<Rightarrow> bool"
    and empty :: 'l
    and insert_at :: "nat \<Rightarrow> string \<Rightarrow> 'f \<Rightarrow> 'l \<Rightarrow> stop + 'l"
    and lookup :: "string \<Rightarrow> 'l \<Rightarrow> (stop + 'f option) option"
  assumes table_empty: "table empty []" "unused a empty \<longleftrightarrow> a \<noteq> 0"
    and table_insert: "table l ms \<Longrightarrow> unused a l \<Longrightarrow> length n < MACROSES_NAME_LEN \<Longrightarrow>
      \<exists>t. insert_at a n f l = Inr t \<and> table t (ms @ [(n, f)]) \<and> (\<forall>b. unused b t \<longleftrightarrow> unused b l \<and> b \<noteq> a)"
    and table_lookup: "table l ms \<Longrightarrow> lookup n l = Some (Inr (map_of ms n))"
begin

text \<open>Entries put in one after the other, each at an address of its own.\<close>

fun insert_all :: "(nat \<times> string \<times> 'f) list \<Rightarrow> 'l \<Rightarrow> stop + 'l" where
  "insert_all [] l = Inr l"
| "insert_all ((a, n, f) # es) l = (case insert_at a n f l of Inl e \<Rightarrow> Inl e | Inr t \<Rightarrow> insert_all es t)"

lemma insert_all_table:
  assumes "table l ms" "distinct (map fst es)" "\<forall>(a, n, f) \<in> set es. unused a l \<and> length n < MACROSES_NAME_LEN"
  shows "\<exists>t. insert_all es l = Inr t \<and> table t (ms @ map snd es)"
  using assms
proof (induction es arbitrary: l ms)
  case (Cons e es)
  obtain a n f where e: "e = (a, n, f)" by (cases e)
  with Cons.prems table_insert [of l ms a n f] obtain t where t: "insert_at a n f l = Inr t"
    "table t (ms @ [(n, f)])" "\<And>b. unused b t \<longleftrightarrow> unused b l \<and> b \<noteq> a" by auto
  have "\<forall>(b, n, f) \<in> set es. unused b t \<and> length n < MACROSES_NAME_LEN"
    using Cons.prems(2,3) e by (force simp: t(3))
  moreover have "distinct (map fst es)" using Cons.prems(2) by simp
  ultimately obtain u where "insert_all es t = Inr u" "table u ((ms @ [(n, f)]) @ map snd es)"
    using Cons.IH [OF t(2)] by blast
  with t(1) e show ?case by simp
qed simp

lemma lookup_all:
  assumes "distinct (map fst es)" "\<forall>(a, n, f) \<in> set es. a \<noteq> 0 \<and> length n < MACROSES_NAME_LEN"
  shows "\<exists>t. insert_all es empty = Inr t \<and> (\<forall>n. lookup n t = Some (Inr (map_of (map snd es) n)))"
  using insert_all_table [OF table_empty(1) assms(1)] assms(2) table_empty(2) table_lookup by fastforce

end

lemma get_from_chain:
  "chain h p ns 0 \<Longrightarrow>
   \<exists>a. get_from h n p = Some (Inr a) \<and>
     (case map_of (map snd ns) n of
        None \<Rightarrow> a = 0
      | Some f \<Rightarrow> a \<noteq> 0 \<and> (\<exists>k. h a = Some k \<and> m_func k = f))"
proof (induction ns arbitrary: p)
  case (Cons x ns)
  obtain a m f where x: "x = (a, m, f)" by (cases x)
  with Cons.prems obtain k where "p = a" "a \<noteq> 0" "h a = Some k" "m_name k = m" "m_func k = f"
    "chain h (m_next k) ns 0" by (auto split: option.splits)
  with Cons.IH [of "m_next k"] show ?case
    by (subst get_from.simps) (auto simp: x)
qed (simp add: get_from.simps)

lemma run_nodes:
  assumes "nodes l ns"
  shows "run n l = Some (Inr (map_of (map snd ns) n))"
proof -
  have "chain (ml_heap l) (ml_list l) ns 0" using assms by (simp add: nodes_def)
  from get_from_chain [OF this, of n] show ?thesis
    by (auto simp: run_def get_def split: option.splits)
qed

interpretation ml: macros_table holds fresh new_TMacrosList add run
proof unfold_locales
  show "holds new_TMacrosList ([] :: (string \<times> 'a) list)"
    using nodes_new by (auto simp: holds_def)
  show "fresh a (new_TMacrosList :: 'a TMacrosList) \<longleftrightarrow> a \<noteq> 0" for a
    by (simp add: fresh_def new_TMacrosList_def)
  show "run n l = Some (Inr (map_of ms n))" if "holds l ms" for n ms and l :: "'a TMacrosList"
    using that run_nodes by (auto simp: holds_def)
  show "\<exists>t. add a n f l = Inr t \<and> holds t (ms @ [(n, f)]) \<and> (\<forall>b. fresh b t \<longleftrightarrow> fresh b l \<and> b \<noteq> a)"
    if l: "holds l ms" "fresh a l" "length n < MACROSES_NAME_LEN" for l ms a n and f :: 'a
  proof -
    obtain ns where ns: "nodes l ns" "map snd ns = ms" using l(1) by (auto simp: holds_def)
    obtain t where t: "add a n f l = Inr t" "nodes t (ns @ [(a, n, f)])"
      using add_nodes [OF ns(1) l(2,3)] by blast
    then have "fresh b t \<longleftrightarrow> fresh b l \<and> b \<noteq> a" for b
      using ns(1) by (auto simp: nodes_def fresh_def)
    with t ns(2) show ?thesis by (auto simp: holds_def)
  qed
qed

section \<open>The end of the list\<close>

lemma clear_from_chain:
  "chain h p ns 0 \<Longrightarrow> distinct (map fst ns) \<Longrightarrow> clear_from h p = Some (Inr (h |` (- fst ` set ns)))"
proof (induction ns arbitrary: h p)
  case (Cons x ns)
  obtain a m f where x: "x = (a, m, f)" by (cases x)
  with Cons.prems obtain k where k: "p = a" "a \<noteq> 0" "h a = Some k" "chain (h(a := None)) (m_next k) ns 0"
    "distinct (map fst ns)" by (auto split: option.splits)
  have "clear_from h p = clear_from (h(a := None)) (m_next k)"
    using k(1-3) by (subst clear_from.simps) simp
  also have "\<dots> = Some (Inr ((h(a := None)) |` (- fst ` set ns)))" by (rule Cons.IH [OF k(4,5)])
  also have "(h(a := None)) |` (- fst ` set ns) = h |` (- fst ` set (x # ns))"
    by (auto simp: x restrict_map_def)
  finally show ?case .
qed (simp add: clear_from.simps restrict_map_def)

text \<open>Every node is freed, each one once.\<close>

lemma clear_nodes:
  assumes "nodes l ns"
  shows "clear l = Some (Inr (l\<lparr>ml_heap := Map.empty\<rparr>))"
proof -
  have "ml_heap l |` (- fst ` set ns) = Map.empty"
    using assms by (auto simp: nodes_def restrict_map_def fun_eq_iff)
  with assms clear_from_chain [of "ml_heap l" "ml_list l" ns] show ?thesis
    by (simp add: nodes_def clear_def)
qed

text \<open>A list that was cleared is not empty: every later use of it goes to memory that was freed.\<close>

lemma cleared_dangles:
  assumes "nodes l ns" "ns \<noteq> []" "clear l = Some (Inr t)"
  shows "run n t = Some (Inl Dangling)" "clear t = Some (Inl Dangling)"
    "fresh a t \<Longrightarrow> a \<noteq> ml_end l \<Longrightarrow> length n < MACROSES_NAME_LEN \<Longrightarrow> add a n f t = Inl Dangling"
proof -
  have t: "t = l\<lparr>ml_heap := Map.empty\<rparr>" using clear_nodes [OF assms(1)] assms(3) by simp
  have l: "ml_list l \<noteq> 0" "ml_end l \<noteq> 0"
    using assms(1,2) chain_start chain_nonzero [of "ml_heap l" "ml_list l" ns 0]
    by (fastforce simp: nodes_def)+
  then show "run n t = Some (Inl Dangling)" "clear t = Some (Inl Dangling)"
    by (simp_all add: t run_def get_def get_from.simps clear_def clear_from.simps)
  show "add a n f t = Inl Dangling" if "fresh a t" "a \<noteq> ml_end l" "length n < MACROSES_NAME_LEN"
    using that l by (simp add: t add_def Let_def fresh_def)
qed

end
