(* ===== verification/Bench_Tests.thy ===== *)
theory Bench_Tests
  imports C_Library
begin

text \<open>
  The tests of the benchmark (regitest/benchmark/mem_test.h, nand_test.h, gzip_test.h, fb_test.h).
  What is outside of the sources is the record \<open>BenchEnv\<close>: the memory that \<open>malloc\<close> and \<open>mmap\<close> give,
  the devices and files that open, the compression of zlib, the texts of the times that were
  measured, and whether a plain \<open>char\<close> has a sign; each call of it has a number, so that later calls
  may be answered otherwise.  An \<open>unsigned long\<close> is a word of any length, a \<open>long\<close> is one with a sign.
\<close>

section \<open>The machine\<close>

datatype zlib_end = Z_OK nat | Z_BUF_ERROR | Z_other

record BenchEnv =
  be_malloc :: "nat \<Rightarrow> nat \<Rightarrow> byte list option"
  be_time :: "nat \<Rightarrow> string"
  be_schar :: bool
  be_open_w :: "nat \<Rightarrow> bool"
  be_good :: "nat \<Rightarrow> bool"
  be_open_r :: "nat \<Rightarrow> bool"
  be_remove :: "nat \<Rightarrow> bool"
  be_compress2 :: "nat \<Rightarrow> byte list \<Rightarrow> nat \<Rightarrow> zlib_end"
  be_fb :: "nat \<Rightarrow> bool"
  be_screen :: "nat \<Rightarrow> (u32 \<times> u32 \<times> u32) option"
  be_mmap :: "nat \<Rightarrow> int \<Rightarrow> byte list option"
  be_munmap :: "nat \<Rightarrow> bool"

text \<open>
  The run so far: how many calls were made, what was printed, how often a block was written to
  the file of the flash test, and the memory of the screen.
\<close>

record Rig =
  rg_calls :: nat
  rg_out :: string
  rg_blocks :: nat
  rg_screen :: "byte list"

definition printf :: "string \<Rightarrow> Rig \<Rightarrow> Rig" where
  "printf s r = r\<lparr>rg_out := rg_out r @ s\<rparr>"

definition call :: "(nat \<Rightarrow> 'a) \<Rightarrow> Rig \<Rightarrow> 'a \<times> Rig" where
  "call f r = (f (rg_calls r), r\<lparr>rg_calls := rg_calls r + 1\<rparr>)"

definition nl :: string where
  "nl = [CHR 0x0A]"

definition tab :: string where
  "tab = [CHR 0x09]"

text \<open>The time of \<open>tm.cstop()\<close> in the text \<open>s\<close>.\<close>

definition print_time :: "BenchEnv \<Rightarrow> string \<Rightarrow> Rig \<Rightarrow> Rig" where
  "print_time e s r = (let (t, r) = call (be_time e) r in printf (s @ t @ '' s'' @ nl) r)"

definition print_word :: "string \<Rightarrow> 'l::len word \<Rightarrow> string \<Rightarrow> Rig \<Rightarrow> Rig" where
  "print_word s w t = printf (s @ show_dec (unat w) @ t)"

section \<open>Memory\<close>

text \<open>The bytes of the number 1 in an element of some bytes.\<close>

definition one_elem :: "nat \<Rightarrow> byte list" where
  "one_elem sz = 1 # replicate (sz - 1) 0"

text \<open>The two loops over \<open>n\<close> more elements from \<open>offs\<close>, of \<open>sz\<close> bytes each.\<close>

fun write_loop :: "nat \<Rightarrow> nat \<Rightarrow> nat \<Rightarrow> byte list \<Rightarrow> stop + byte list" where
  "write_loop sz 0 offs array = Inr array"
| "write_loop sz (Suc n) offs array =
     (if length array < (offs + 1) * sz then Inl OutOfBounds
      else write_loop sz n (offs + 1) (overwrite array (offs * sz) (one_elem sz)))"

fun read_loop :: "nat \<Rightarrow> nat \<Rightarrow> nat \<Rightarrow> byte list \<Rightarrow> stop + unit" where
  "read_loop sz 0 offs array = Inr ()"
| "read_loop sz (Suc n) offs array =
     (if length array < (offs + 1) * sz then Inl OutOfBounds else read_loop sz n (offs + 1) array)"

definition mem_test_n ::
  "BenchEnv \<Rightarrow> nat \<Rightarrow> byte list \<Rightarrow> 'l::len word \<Rightarrow> Rig \<Rightarrow> stop + (byte list \<times> Rig)" where
  "mem_test_n e sz array n r =
     (case write_loop sz (unat n) 0 array of
        Inl x \<Rightarrow> Inl x
      | Inr array \<Rightarrow>
          (let r = print_time e (tab @ ''* write time: '') r
           in case read_loop sz (unat n) 0 array of
                Inl x \<Rightarrow> Inl x
              | Inr _ \<Rightarrow> Inr (array, print_time e (tab @ ''* read time: '') r)))"

definition mem_test_8 :: "BenchEnv \<Rightarrow> byte list \<Rightarrow> 'l::len word \<Rightarrow> Rig \<Rightarrow> stop + (byte list \<times> Rig)" where
  "mem_test_8 e = mem_test_n e 1"

definition mem_test_16 :: "BenchEnv \<Rightarrow> byte list \<Rightarrow> 'l::len word \<Rightarrow> Rig \<Rightarrow> stop + (byte list \<times> Rig)" where
  "mem_test_16 e = mem_test_n e 2"

text \<open>The elements of this one have the type \<open>long\<close>, whatever its length is.\<close>

definition mem_test_32 :: "BenchEnv \<Rightarrow> byte list \<Rightarrow> 'l::len word \<Rightarrow> Rig \<Rightarrow> stop + (byte list \<times> Rig)" where
  "mem_test_32 e array (n :: 'l word) = mem_test_n e (LENGTH('l) div 8) array n"

definition mem_test :: "BenchEnv \<Rightarrow> 'l::len word \<Rightarrow> 'l word \<Rightarrow> Rig \<Rightarrow> (stop + Rig) option" where
  "mem_test e type arg r =
     (let (p, r) = call (\<lambda>i. be_malloc e i (unat arg)) r;
          r = print_word (tab @ ''* test: Mem '') type nl r
      in case p of
           None \<Rightarrow> Some (Inr (printf (tab @ ''* not enough memory for test!'' @ nl) r))
         | Some array \<Rightarrow>
             (let r = (if arg \<noteq> 0 then print_word (tab @ ''* size: '') arg nl r else r);
                  res =
                    (if unat type = 8 then mem_test_8 e array arg r
                     else if unat type = 16 then mem_test_16 e array (arg div 2) r
                     else if unat type = 32 then mem_test_32 e array (arg div 4) r
                     else Inr (array, r))
              in Some (case res of Inl x \<Rightarrow> Inl x | Inr (_, r) \<Rightarrow> Inr r)))"

text \<open>The block that is compressed; the value goes round at its type, or at 255 where it has that value.\<close>

fun gen_loop :: "bool \<Rightarrow> nat \<Rightarrow> nat \<Rightarrow> byte \<Rightarrow> byte list \<Rightarrow> stop + byte list" where
  "gen_loop sg 0 offs v block = Inr block"
| "gen_loop sg (Suc n) offs v block =
     (if length block \<le> offs then Inl OutOfBounds
      else
        (let block = block[offs := v];
             v = v + 1;
             v = (if (if sg then sint v else uint v) = 255 then 0 else v)
         in gen_loop sg n (offs + 1) v block))"

definition gen_block :: "bool \<Rightarrow> byte list \<Rightarrow> nat \<Rightarrow> stop + byte list" where
  "gen_block sg block n = gen_loop sg n 0 0 block"

section \<open>Flash\<close>

definition BLOCK_SIZE :: nat where
  "BLOCK_SIZE = 549"

text \<open>
  The loops over \<open>offs\<close>, a word that may go round.  After a write the stream is good or not, and a
  stream that is not good stays so.
\<close>

partial_function (option) nand_w_loop ::
  "BenchEnv \<Rightarrow> 'l::len word \<Rightarrow> 'l word \<Rightarrow> bool \<Rightarrow> Rig \<Rightarrow> Rig option" where
  "nand_w_loop e arg offs good r =
     (if offs < arg
      then
        (let r = (if good then r else printf (nl @ tab @ tab @ ''> stream is not good!'') r);
             (ok, r) = call (be_good e) r
         in nand_w_loop e arg (offs + of_nat BLOCK_SIZE) (good \<and> ok) (r\<lparr>rg_blocks := rg_blocks r + 1\<rparr>))
      else Some r)"

definition nand_test_w :: "BenchEnv \<Rightarrow> 'l::len word \<Rightarrow> Rig \<Rightarrow> Rig option" where
  "nand_test_w e arg r =
     (let r = printf (tab @ ''* writing file: '') r;
          (ok, r) = call (be_open_w e) r
      in if \<not> ok then Some (printf ('' can't open file!'' @ nl) r)
         else (case nand_w_loop e arg 0 True (r\<lparr>rg_blocks := 0\<rparr>) of
                 None \<Rightarrow> None
               | Some r \<Rightarrow> Some (print_time e '''' r)))"

partial_function (option) nand_r_loop :: "'l::len word \<Rightarrow> 'l word \<Rightarrow> nat \<Rightarrow> nat option" where
  "nand_r_loop arg offs n =
     (if offs < arg then nand_r_loop arg (offs + of_nat BLOCK_SIZE) (n + 1) else Some n)"

definition nand_test_r :: "BenchEnv \<Rightarrow> 'l::len word \<Rightarrow> Rig \<Rightarrow> Rig option" where
  "nand_test_r e arg r =
     (let r = printf (tab @ ''* reading file: '') r;
          (ok, r) = call (be_open_r e) r
      in if \<not> ok then Some (printf ('' can't open file!'' @ nl) r)
         else (case nand_r_loop arg 0 0 of
                 None \<Rightarrow> None
               | Some _ \<Rightarrow> Some (print_time e '''' r)))"

definition nand_test :: "BenchEnv \<Rightarrow> 'l::len word \<Rightarrow> 'l word \<Rightarrow> Rig \<Rightarrow> (stop + Rig) option" where
  "nand_test e type arg r =
     (let (block, r) = call (\<lambda>i. be_malloc e i BLOCK_SIZE) r;
          r = printf (tab @ ''* test: Nand'' @ nl) r
      in case block of
           None \<Rightarrow> Some (Inr (printf (tab @ ''* not enough memory for test!'' @ nl) r))
         | Some _ \<Rightarrow>
             (let r = (if arg \<noteq> 0 then print_word (tab @ ''* size: '') arg nl r else r);
                  r = printf (tab @ ''* block: '' @ show_dec BLOCK_SIZE @ nl) r
              in case nand_test_w e arg r of
                   None \<Rightarrow> None
                 | Some r \<Rightarrow>
                     (case nand_test_r e arg r of
                        None \<Rightarrow> None
                      | Some r \<Rightarrow>
                          (let r = printf (tab @ ''* remove file:'') r;
                               (ok, r) = call (be_remove e) r
                           in Some (Inr (printf ((if \<not> ok then '' error!'' else '' ok'') @ nl) r))))))"

section \<open>Compression\<close>

text \<open>
  Arithmetic of finite numbers with a rounding.  The operands of the sources are made from words
  and are all finite.
\<close>

fun flt_num :: "flt \<Rightarrow> int" where
  "flt_num (Fin neg m e) = (if neg then - 1 else 1) * int (m * 2 ^ nat e)"
| "flt_num _ = 0"

fun flt_den :: "flt \<Rightarrow> nat" where
  "flt_den (Fin neg m e) = 2 ^ nat (- e)"
| "flt_den _ = 1"

definition rounded :: "(bool \<Rightarrow> nat \<Rightarrow> nat \<Rightarrow> flt \<times> bool) \<Rightarrow> int \<Rightarrow> nat \<Rightarrow> flt" where
  "rounded rnd num den = fst (rnd (num < 0) (nat \<bar>num\<bar>) den)"

definition flt_plus where
  "flt_plus rnd x y =
     rounded rnd (flt_num x * int (flt_den y) + flt_num y * int (flt_den x)) (flt_den x * flt_den y)"

definition flt_minus where
  "flt_minus rnd x y =
     rounded rnd (flt_num x * int (flt_den y) - flt_num y * int (flt_den x)) (flt_den x * flt_den y)"

definition flt_times where
  "flt_times rnd x y = rounded rnd (flt_num x * flt_num y) (flt_den x * flt_den y)"

definition flt_divide where
  "flt_divide rnd x y =
     rounded rnd (flt_num x * int (flt_den y) * sgn (flt_num y)) (flt_den x * nat \<bar>flt_num y\<bar>)"

text \<open>The size of the buffer, \<open>arg+arg*0.1+12\<close> in \<open>double\<close>, which an \<open>unsigned long\<close> may not hold.\<close>

definition gz_room :: "'l::len word \<Rightarrow> stop + 'l word" where
  "gz_room (arg :: 'l word) =
     (let x = rounded flt_double (uint arg) 1;
          t = rounded flt_double 1 10;
          s = flt_plus flt_double (flt_plus flt_double x (flt_times flt_double x t)) (rounded flt_double 12 1);
          n = flt_num s div int (flt_den s)
      in if 2 ^ LENGTH('l) \<le> n then Inl OutOfRange else Inr (word_of_int n))"

text \<open>The share that was saved, in \<open>float\<close>.\<close>

definition gz_saved :: "nat \<Rightarrow> nat \<Rightarrow> flt" where
  "gz_saved d_sz arg =
     flt_minus flt_float (rounded flt_float 100 1)
       (flt_times flt_float (flt_divide flt_float (rounded flt_float (int d_sz) 1) (rounded flt_float (int arg) 1))
          (rounded flt_float 100 1))"

definition gzip_test :: "BenchEnv \<Rightarrow> 'l::len word \<Rightarrow> 'l word \<Rightarrow> Rig \<Rightarrow> (stop + Rig) option" where
  "gzip_test e type arg r =
     (case gz_room arg of
        Inl x \<Rightarrow> Some (Inl x)
      | Inr d_sz \<Rightarrow>
          (let r = printf (tab @ ''* test: gzip '' @ nl) r
           in if 9 < unat type
              then Some (Inr (print_word (tab @ ''! unknown compression level ['') type ('']'' @ nl) r))
              else
                (let r = print_word (tab @ ''* level: '') type nl r
                 in if arg = 0
                    then Some (Inr (printf (tab @ ''! src size can't be 0 or less size'' @ nl) r))
                    else
                      (let r = print_word (tab @ ''* src size: '') arg nl r;
                           (src, r) = call (\<lambda>i. be_malloc e i (unat arg)) r;
                           (dst, r) = call (\<lambda>i. be_malloc e i (unat d_sz)) r
                       in if src = None \<or> dst = None
                          then Some (Inr (printf (tab @ ''* not enough memory for test!'' @ nl) r))
                          else
                            (case gen_block (be_schar e) (the src) (unat arg) of
                               Inl x \<Rightarrow> Some (Inl x)
                             | Inr src \<Rightarrow>
                                 (let r = printf (tab @ ''* generate data ...'' @ nl) r;
                                      r = printf (tab @ ''* time: '') r
                                  in Some (Inr (case be_compress2 e (unat d_sz) src (unat type) of
                                       Z_OK d \<Rightarrow>
                                         (let r = print_time e '''' r
                                          in if 0 < unat type
                                             then printf (tab @ ''* compress: '' @
                                                    show_fixed 1 (gz_saved d (unat arg)) @ ''%'' @ nl) r
                                             else r)
                                     | Z_BUF_ERROR \<Rightarrow> printf ('' not enough room in the output'' @ nl) r
                                     | Z_other \<Rightarrow> printf ('' i don't know what happened :oP'' @ nl) r))))))))"

section \<open>Frame buffer\<close>

text \<open>The loop over the bytes of the screen, from one that is written on.\<close>

fun fb_loop :: "nat \<Rightarrow> nat \<Rightarrow> byte list \<Rightarrow> stop + byte list" where
  "fb_loop 0 offs buff = Inr buff"
| "fb_loop (Suc n) offs buff =
     (if length buff \<le> offs then Inl OutOfBounds else fb_loop n (offs + 1) (buff[offs := 255]))"

definition in_int :: "int \<Rightarrow> bool" where
  "in_int x \<longleftrightarrow> - (2 ^ 31) \<le> x \<and> x < 2 ^ 31"

definition fb_size :: "u32 \<times> u32 \<times> u32 \<Rightarrow> stop + int" where
  "fb_size = (\<lambda>(xres, yres, bits).
     let w = sint xres; h = sint yres; bpp = sint bits;
         wh = w * h; b = sgn bpp * (\<bar>bpp\<bar> div 8); sz = wh * b
     in if in_int wh \<and> in_int sz then Inr sz else Inl OutOfRange)"

definition fb_test :: "BenchEnv \<Rightarrow> 'l::len word \<Rightarrow> 'l word \<Rightarrow> Rig \<Rightarrow> (stop + Rig) option" where
  "fb_test e type arg r =
     (let r = printf (tab @ ''* test: Frame buffer'' @ nl) r;
          r = printf (tab @ ''* scr info: '') r;
          (ok, r) = call (be_fb e) r
      in if \<not> ok then Some (Inr (printf (''can't open device file /dev/fb0'' @ nl) r))
         else
           (let (info, r) = call (be_screen e) r
            in case info of
                 None \<Rightarrow> Some (Inr (printf (''can't get screen info'' @ nl) r))
               | Some (w, h, bpp) \<Rightarrow>
                   (let r = printf (show_signed (sint w) @ ''x'' @ show_signed (sint h) @ '' '' @
                              show_signed (sint bpp) @ nl) r
                    in case fb_size (w, h, bpp) of
                         Inl x \<Rightarrow> Some (Inl x)
                       | Inr scr_sz \<Rightarrow>
                           (let (buff, r) = call (\<lambda>i. be_mmap e i scr_sz) r
                            in case buff of
                                 None \<Rightarrow> Some (Inr (printf (tab @ ''! can't map memory'' @ nl) r))
                               | Some buff \<Rightarrow>
                                   (let r = printf (tab @ ''* writing time: '') r
                                    in case fb_loop (nat scr_sz) 0 buff of
                                         Inl x \<Rightarrow> Some (Inl x)
                                       | Inr buff \<Rightarrow>
                                           (let r = print_time e '''' (r\<lparr>rg_screen := buff\<rparr>);
                                                (ok, r) = call (be_munmap e) r
                                            in Some (Inr (if \<not> ok
                                                 then printf (tab @ ''! can't free maped memory'' @ nl) r
                                                 else r))))))))"

section \<open>What the tests do to the memory\<close>

lemma length_one_elem [simp]: "0 < sz \<Longrightarrow> length (one_elem sz) = sz"
  by (simp add: one_elem_def)

lemma write_loop_fills:
  assumes "0 < sz" "(offs + n) * sz \<le> length a"
  shows "write_loop sz n offs a =
    Inr (take (offs * sz) a @ concat (replicate n (one_elem sz)) @ drop ((offs + n) * sz) a)"
  using assms(2)
proof (induction n arbitrary: offs a)
  case (Suc n)
  let ?b = "overwrite a (offs * sz) (one_elem sz)"
  have fit: "(offs + 1) * sz \<le> length a" "offs * sz \<le> length a"
    using Suc.prems by (auto simp: algebra_simps elim!: le_trans [rotated])
  have b: "?b = take (offs * sz) a @ one_elem sz @ drop ((offs + 1) * sz) a"
    using assms(1) by (simp add: overwrite_def algebra_simps)
  have "length ?b = length a" using fit assms(1) by (simp add: b algebra_simps)
  then have "write_loop sz n (offs + 1) ?b =
      Inr (take ((offs + 1) * sz) ?b @ concat (replicate n (one_elem sz)) @ drop ((offs + 1 + n) * sz) ?b)"
    using Suc.prems by (intro Suc.IH) simp
  also have "take ((offs + 1) * sz) ?b = take (offs * sz) a @ one_elem sz"
    using fit assms(1) by (simp add: b algebra_simps)
  also have "drop ((offs + 1 + n) * sz) ?b = drop ((offs + Suc n) * sz) a"
    using fit assms(1) by (simp add: b algebra_simps)
  finally show ?case using fit(1) by simp
qed simp

lemma write_loop_overruns:
  assumes "0 < sz" "offs * sz \<le> length a" "length a < (offs + n) * sz"
  shows "write_loop sz n offs a = Inl OutOfBounds"
  using assms(2,3)
proof (induction n arbitrary: offs a)
  case (Suc n)
  show ?case
  proof (cases "length a < (offs + 1) * sz")
    case False
    let ?b = "overwrite a (offs * sz) (one_elem sz)"
    have "length ?b = length a" using False assms(1) by (simp add: overwrite_def algebra_simps)
    then have "write_loop sz n (offs + 1) ?b = Inl OutOfBounds"
      using False Suc.prems by (intro Suc.IH) simp_all
    with False show ?thesis by simp
  qed simp
qed simp

lemma read_loop_fits: "(offs + n) * sz \<le> length a \<Longrightarrow> read_loop sz n offs a = Inr ()"
proof (induction n arbitrary: offs)
  case (Suc n)
  then have "(offs + 1) * sz \<le> length a" by (auto simp: algebra_simps)
  with Suc show ?case by simp
qed simp

text \<open>A test of the memory succeeds if its elements fit, and then it has written all of them.\<close>

lemma mem_test_n_result:
  assumes "0 < sz" "length array = m"
  shows "mem_test_n e sz array n r =
    (if unat n * sz \<le> m
     then Inr (concat (replicate (unat n) (one_elem sz)) @ drop (unat n * sz) array,
       print_time e (tab @ ''* read time: '') (print_time e (tab @ ''* write time: '') r))
     else Inl OutOfBounds)"
proof (cases "unat n * sz \<le> m")
  case True
  have "length (concat (replicate k (one_elem sz))) = k * sz" for k
    using assms(1) by (induction k) simp_all
  with True assms write_loop_fills [of sz 0 "unat n" array]
    read_loop_fits [of 0 "unat n" sz "concat (replicate (unat n) (one_elem sz)) @ drop (unat n * sz) array"]
  show ?thesis by (simp add: mem_test_n_def Let_def)
next
  case False
  with assms write_loop_overruns [of sz 0 array "unat n"] show ?thesis by (simp add: mem_test_n_def)
qed

text \<open>The memory is allocated for elements of one, two and four bytes.\<close>

definition gives_memory :: "BenchEnv \<Rightarrow> bool" where
  "gives_memory e \<longleftrightarrow> (\<forall>i n a. be_malloc e i n = Some a \<longrightarrow> length a = n)"

lemma mem_test_runs:
  assumes "gives_memory e" "LENGTH('l::len) = 32 \<or> type \<noteq> 32" "16 \<le> LENGTH('l)"
  shows "\<exists>t. mem_test e (type :: 'l word) arg r = Some (Inr t)"
proof -
  have "unat type = 32 \<Longrightarrow> LENGTH('l) = 32"
    using assms(2) by (metis of_nat_numeral of_nat_unat ucast_id)
  moreover have "unat (arg div 2) * 2 \<le> unat arg" "unat (arg div 4) * 4 \<le> unat arg" for arg :: "'l word"
  proof -
    have "(2 :: nat) ^ 16 \<le> 2 ^ LENGTH('l)" by (rule power_increasing [OF assms(3)]) simp
    then have "unat (2 :: 'l word) = 2" "unat (4 :: 'l word) = 4"
      by (simp_all add: take_bit_eq_mod)
    then show "unat (arg div 2) * 2 \<le> unat arg" "unat (arg div 4) * 4 \<le> unat arg"
      by (simp_all add: unat_div)
  qed
  ultimately show ?thesis
    using assms(1)
    by (auto simp: mem_test_def call_def Let_def mem_test_8_def mem_test_16_def mem_test_32_def
        mem_test_n_result gives_memory_def split: option.splits)
qed

text \<open>Where a \<open>long\<close> has eight bytes, the same number of elements needs twice the memory.\<close>

lemma mem_test_32_overruns:
  assumes "gives_memory e" "be_malloc e (rg_calls r) (unat arg) \<noteq> None" "4 \<le> unat (arg :: 64 word)"
  shows "mem_test e 32 arg r = Some (Inl OutOfBounds)"
proof -
  have "unat arg < unat (arg div 4) * 8"
    using assms(3) by (simp add: unat_div) presburger
  with assms(1,2) show ?thesis
    by (auto simp: mem_test_def call_def Let_def mem_test_32_def mem_test_n_result gives_memory_def printf_def
        print_word_def)
qed

section \<open>The block that is compressed\<close>

text \<open>With an unsigned \<open>char\<close> the value 255 is left out, a signed one never is 255.\<close>

definition gen_value :: "bool \<Rightarrow> nat \<Rightarrow> byte" where
  "gen_value sg i = of_nat (if sg then i else i mod 255)"

lemma gen_value_next:
  "(let v = gen_value sg i + 1 in if (if sg then sint v else uint v) = 255 then 0 else v) = gen_value sg (Suc i)"
proof (cases sg)
  case True
  have "sint (v :: byte) \<noteq> 255" for v
    using sint_lt [of v] by auto
  with True show ?thesis by (simp add: gen_value_def Let_def)
next
  case False
  define k where "k = i mod 255"
  have k: "k < 255" by (simp add: k_def)
  then have u: "unat (of_nat (Suc k) :: byte) = Suc k" by (simp add: unat_of_nat del: of_nat_Suc)
  have "uint (of_nat (Suc k) :: byte) = 255 \<longleftrightarrow> Suc k = 255"
    unfolding uint_nat u by linarith
  moreover have "gen_value sg i + 1 = of_nat (Suc k)" "gen_value sg (Suc i) = of_nat (if Suc k = 255 then 0 else Suc k)"
    using False by (simp_all add: gen_value_def k_def mod_Suc)
  ultimately show ?thesis using False by (simp add: Let_def del: of_nat_Suc)
qed

lemma gen_loop_result:
  "offs + n \<le> length block \<Longrightarrow>
   gen_loop sg n offs (gen_value sg offs) block =
     Inr (take offs block @ map (gen_value sg) [offs..<offs + n] @ drop (offs + n) block)"
proof (induction n arbitrary: offs block)
  case (Suc n)
  let ?b = "block[offs := gen_value sg offs]"
  have "gen_loop sg n (Suc offs) (gen_value sg (Suc offs)) ?b =
      Inr (take (Suc offs) ?b @ map (gen_value sg) [Suc offs..<Suc offs + n] @ drop (Suc offs + n) ?b)"
    using Suc.prems by (intro Suc.IH) simp
  moreover have "take (Suc offs) ?b = take offs block @ [gen_value sg offs]"
    using Suc.prems by (simp add: take_Suc_conv_app_nth)
  moreover have "[offs..<offs + Suc n] = offs # [Suc offs..<Suc offs + n]"
    by (simp add: upt_conv_Cons)
  ultimately show ?case
    using Suc.prems gen_value_next [of sg offs] by (simp add: Let_def del: upt_Suc)
qed simp

lemma gen_block_result: "length b = n \<Longrightarrow> gen_block sg b n = Inr (map (gen_value sg) [0..<n])"
proof -
  have "gen_value sg 0 = 0" by (simp add: gen_value_def)
  then show "length b = n \<Longrightarrow> gen_block sg b n = Inr (map (gen_value sg) [0..<n])"
    using gen_loop_result [of 0 n b sg] by (simp add: gen_block_def)
qed

section \<open>The screen\<close>

lemma fb_loop_result:
  "offs + n \<le> length b \<Longrightarrow> fb_loop n offs b = Inr (take offs b @ replicate n 255 @ drop (offs + n) b)"
proof (induction n arbitrary: offs b)
  case (Suc n)
  have "take (Suc offs) (b[offs := 255]) = take offs b @ [255]"
    using Suc.prems by (simp add: take_Suc_conv_app_nth)
  with Suc show ?case by simp
qed simp

section \<open>The loops over the file\<close>

text \<open>The blocks that are left; \<open>offs\<close> does not go round while the last block ends within the words.\<close>

definition blocks_left :: "nat \<Rightarrow> nat \<Rightarrow> nat" where
  "blocks_left arg offs = (arg - offs + (BLOCK_SIZE - 1)) div BLOCK_SIZE"

lemma block_step:
  assumes "offs < (arg :: 'l::len word)" "unat arg + BLOCK_SIZE \<le> 2 ^ LENGTH('l)"
  shows "unat (offs + of_nat BLOCK_SIZE) = unat offs + BLOCK_SIZE"
    "blocks_left (unat arg) (unat offs) = blocks_left (unat arg) (unat offs + BLOCK_SIZE) + 1"
proof -
  have less: "unat offs < unat arg" using assms(1) by (simp add: word_less_nat_alt)
  with assms(2) show "unat (offs + of_nat BLOCK_SIZE) = unat offs + BLOCK_SIZE"
    by (simp add: unat_word_ariths(1) unat_of_nat)
  with less show "blocks_left (unat arg) (unat offs) = blocks_left (unat arg) (unat offs + BLOCK_SIZE) + 1"
  proof (cases "unat offs + 549 \<le> unat arg")
    case True
    then have "unat arg - unat offs + 548 = unat arg - (unat offs + 549) + 548 + 549" by linarith
    then show ?thesis by (simp only: blocks_left_def BLOCK_SIZE_def)
  next
    case False
    define d where "d = unat arg - unat offs - 1"
    from False less have "unat arg - unat offs + 548 = d + 549" "unat arg - (unat offs + 549) = 0" "d < 549"
      unfolding d_def by linarith+
    then show ?thesis by (simp only: blocks_left_def BLOCK_SIZE_def) simp
  qed
qed

lemma nand_w_loop_ends:
  assumes "unat (arg :: 'l::len word) + BLOCK_SIZE \<le> 2 ^ LENGTH('l)"
  shows "\<exists>t. nand_w_loop e arg offs good r = Some t \<and> rg_blocks t = rg_blocks r + blocks_left (unat arg) (unat offs)"
proof (induction "unat arg - unat offs" arbitrary: offs good r rule: less_induct)
  case less
  show ?case
  proof (cases "offs < arg")
    case True
    note step = block_step [OF True assms]
    have "unat arg - unat (offs + of_nat BLOCK_SIZE) < unat arg - unat offs"
      using True unfolding step(1) by (auto simp: word_less_nat_alt BLOCK_SIZE_def)
    note IH = less [OF this]
    define u where "u = (if good then r else printf (nl @ tab @ tab @ ''> stream is not good!'') r)"
    have "nand_w_loop e arg offs good r =
        nand_w_loop e arg (offs + of_nat BLOCK_SIZE) (good \<and> be_good e (rg_calls u))
          (u\<lparr>rg_calls := rg_calls u + 1, rg_blocks := rg_blocks u + 1\<rparr>)"
      using True by (subst nand_w_loop.simps) (simp add: call_def u_def Let_def)
    moreover have "rg_blocks u = rg_blocks r" by (simp add: u_def printf_def)
    ultimately show ?thesis
      using IH [of "good \<and> be_good e (rg_calls u)" "u\<lparr>rg_calls := rg_calls u + 1, rg_blocks := rg_blocks u + 1\<rparr>"]
      unfolding step by simp
  next
    case False
    then show ?thesis
      by (subst nand_w_loop.simps) (simp add: blocks_left_def BLOCK_SIZE_def word_less_nat_alt not_less)
  qed
qed

lemma nand_r_loop_ends:
  assumes "unat (arg :: 'l::len word) + BLOCK_SIZE \<le> 2 ^ LENGTH('l)"
  shows "nand_r_loop arg offs n = Some (n + blocks_left (unat arg) (unat offs))"
proof (induction "unat arg - unat offs" arbitrary: offs n rule: less_induct)
  case less
  show ?case
  proof (cases "offs < arg")
    case True
    note step = block_step [OF True assms]
    have "unat arg - unat (offs + of_nat BLOCK_SIZE) < unat arg - unat offs"
      using True unfolding step(1) by (auto simp: word_less_nat_alt BLOCK_SIZE_def)
    from less [OF this] True show ?thesis
      unfolding step by (subst nand_r_loop.simps) simp
  next
    case False
    then show ?thesis
      by (subst nand_r_loop.simps) (simp add: blocks_left_def BLOCK_SIZE_def word_less_nat_alt not_less)
  qed
qed

text \<open>The test of the flash ends, with a file of as many blocks as hold the size, if it opens.\<close>

lemma nand_test_w_ends:
  assumes "unat (arg :: 'l::len word) + BLOCK_SIZE \<le> 2 ^ LENGTH('l)"
  shows "\<exists>t. nand_test_w e arg r = Some t \<and>
    rg_blocks t = (if be_open_w e (rg_calls r) then blocks_left (unat arg) 0 else rg_blocks r)"
proof -
  let ?u = "r\<lparr>rg_out := rg_out r @ tab @ ''* writing file: '', rg_calls := rg_calls r + 1, rg_blocks := 0\<rparr>"
  obtain t where "nand_w_loop e arg 0 True ?u = Some t" "rg_blocks t = blocks_left (unat arg) 0"
    using nand_w_loop_ends [OF assms, of e 0 True ?u] by auto
  then show ?thesis
    by (auto simp: nand_test_w_def call_def printf_def print_time_def Let_def)
qed

lemma nand_test_ends:
  assumes "unat (arg :: 'l::len word) + BLOCK_SIZE \<le> 2 ^ LENGTH('l)"
  shows "\<exists>t. nand_test e type arg r = Some (Inr t)"
proof -
  have "\<exists>t. nand_test_w e arg u = Some t" "\<exists>t. nand_test_r e arg u = Some t" for u
    using nand_test_w_ends [OF assms, of e u] nand_r_loop_ends [OF assms]
    by (auto simp: nand_test_r_def call_def Let_def)
  then show ?thesis
    unfolding nand_test_def call_def Let_def
    by (auto split: option.split) (metis option.distinct(1) option.inject)+
qed

section \<open>The room for the compression\<close>

text \<open>A tenth of the size and 12 bytes more than the data.\<close>

lemma gz_room_tenth: "gz_room (100 :: 32 word) = Inr 122"
proof -
  note ev = rounded_def flt_double_def flt_round_def bitlen.simps
  have t: "rounded flt_double 1 10 = Fin False 7205759403792794 (- 56)" by (simp add: ev)
  have c: "rounded flt_double (uint (100 :: 32 word)) 1 = Fin False 7036874417766400 (- 46)" by (simp add: ev)
  have z: "rounded flt_double 12 1 = Fin False 6755399441055744 (- 49)" by (simp add: ev)
  have p: "flt_times flt_double (Fin False 7036874417766400 (- 46)) (Fin False 7205759403792794 (- 56)) =
      Fin False 5629499534213120 (- 49)" by (simp add: flt_times_def ev)
  have q: "flt_plus flt_double (Fin False 7036874417766400 (- 46)) (Fin False 5629499534213120 (- 49)) =
      Fin False 7740561859543040 (- 46)" by (simp add: flt_plus_def ev)
  have r: "flt_plus flt_double (Fin False 7740561859543040 (- 46)) (Fin False 6755399441055744 (- 49)) =
      Fin False 8584986789675008 (- 46)" by (simp add: flt_plus_def ev)
  show ?thesis unfolding gz_room_def t c z p q r Let_def by simp
qed

end
