(* ===== verification/Bench_Main.thy ===== *)
theory Bench_Main
  imports Bench_Macros Bench_Tests
begin

text \<open>
  The benchmark (regitest/benchmark/main.cpp): the arguments of the command line name tests, their
  kind and the size of what they work on.  The text of an argument is a list of its characters
  without the zero byte at its end; what is cut off from it is no longer in the list.  The answers
  of \<open>calloc\<close> for the nodes of the list are the function \<open>calloc\<close>.
\<close>

section \<open>Arguments\<close>

definition Kb :: int where
  "Kb = 1024"

definition Mb :: int where
  "Mb = 1048576"

text \<open>\<open>strtok\<close>: the next token, and the text behind it.\<close>

definition strtok :: "string \<Rightarrow> string \<Rightarrow> string option \<times> string" where
  "strtok s delim =
     (let t = dropWhile (\<lambda>c. c \<in> set delim) s
      in if t = [] then (None, [])
         else (Some (takeWhile (\<lambda>c. c \<notin> set delim) t), drop 1 (dropWhile (\<lambda>c. c \<notin> set delim) t)))"

text \<open>\<open>atoi\<close> is \<open>strtol\<close> with a conversion to \<open>int\<close>.\<close>

definition atoi :: "nat \<Rightarrow> string \<Rightarrow> int" where
  "atoi L s = to_int (fst (strtol L 10 s))"

text \<open>
  The place of the last character has the type \<open>short int\<close>; before the text and at a place where
  it is negative there is none.  The value, and the text that is left of the argument.
\<close>

definition parse_arg :: "string option \<Rightarrow> stop + ('l::len word \<times> string option)" where
  "parse_arg src =
     (case src of
        None \<Rightarrow> Inr (0, None)
      | Some s \<Rightarrow>
          (let len = sint (of_nat (length s) - 1 :: u16)
           in if len < 0 then Inl OutOfBounds
              else
                (let c = s ! nat len;
                     mul = (if c = CHR ''m'' then Mb else if c = CHR ''k'' then Kb else 1);
                     s = (if of_char c < (48 :: nat) \<or> 57 < (of_char c :: nat) then take (nat len) s else s);
                     num = atoi LENGTH('l) s
                 in if in_int (num * mul) then Inr (word_of_int (num * mul), Some s) else Inl OutOfRange)))"

definition is_key :: "string option \<Rightarrow> bool" where
  "is_key str = (case str of None \<Rightarrow> False | Some s \<Rightarrow> s \<noteq> [] \<and> hd s = CHR ''-'')"

section \<open>The program\<close>

type_synonym 'l test = "'l word \<Rightarrow> 'l word \<Rightarrow> Rig \<Rightarrow> (stop + Rig) option"

text \<open>A step of a run that may stop, or not end.\<close>

definition go_on :: "(stop + 'a) option \<Rightarrow> ('a \<Rightarrow> (stop + 'b) option) \<Rightarrow> (stop + 'b) option" where
  "go_on x f = (case x of None \<Rightarrow> None | Some (Inl e) \<Rightarrow> Some (Inl e) | Some (Inr a) \<Rightarrow> f a)"

definition DIV_line :: string where
  "DIV_line = tab @ '' ------------------------------'' @ nl"

definition add_macros :: "BenchEnv \<Rightarrow> (nat \<Rightarrow> nat) \<Rightarrow> (stop + 'l::len test TMacrosList) option" where
  "add_macros e calloc =
     go_on (Some (add (calloc 0) ''mem'' (mem_test e) new_TMacrosList)) (\<lambda>l.
     go_on (Some (add (calloc 1) ''nand'' (nand_test e) l)) (\<lambda>l.
     go_on (Some (add (calloc 2) ''gzip'' (gzip_test e) l)) (\<lambda>l.
     Some (add (calloc 3) ''fb'' (fb_test e) l))))"

text \<open>The call of \<open>run\<close> with its arguments, and the message about its result.\<close>

definition run_macros ::
  "(string \<Rightarrow> (stop + 'l::len test option) option) \<Rightarrow> string \<Rightarrow> 'l word \<Rightarrow> 'l word \<Rightarrow> Rig \<Rightarrow> (stop + Rig) option" where
  "run_macros look key type arg r =
     go_on (look key) (\<lambda>f.
       case f of
         None \<Rightarrow> Some (Inr (printf (tab @ ''* macros \"'' @ key @ ''\" not found'' @ nl) r))
       | Some func \<Rightarrow> func type arg r)"

text \<open>
  The loop over the arguments from one on.  What \<open>parse_arg\<close> cuts off from the argument of a key is
  gone when the loop comes to it.
\<close>

function bench_loop ::
  "(string \<Rightarrow> (stop + 'l::len test option) option) \<Rightarrow> string list \<Rightarrow> Rig \<Rightarrow> (stop + Rig) option" where
  "bench_loop look [] r = Some (Inr r)"
| "bench_loop look (s # rest) r =
     (if \<not> is_key (Some s) then bench_loop look rest r
      else
        (let (k, s') = strtok (tl s) ''_'';
             key = (case k of None \<Rightarrow> tl s | Some k \<Rightarrow> k);
             type = fst (strtok s' ''_'');
             arg = (case rest of [] \<Rightarrow> None | a # _ \<Rightarrow> if is_key (Some a) then None else Some a)
         in go_on (Some (parse_arg type)) (\<lambda>(t, _).
            go_on (Some (parse_arg arg)) (\<lambda>(a, cut).
            go_on (run_macros look key t a r) (\<lambda>r.
            bench_loop look (case cut of None \<Rightarrow> rest | Some a \<Rightarrow> rest[0 := a]) (printf DIV_line r))))))"
  by pat_completeness auto

termination
  by (relation "measure (\<lambda>(_, args, _). length args)") (auto split: option.split)

definition started :: "Rig \<Rightarrow> Rig" where
  "started r = printf DIV_line (printf (''Benchmark started...'' @ nl) r)"

definition stoped :: "Rig \<Rightarrow> Rig" where
  "stoped = printf (''Benchmark stoped...'' @ nl)"

text \<open>At the end of the program the destructor clears the list.\<close>

definition bench_main ::
  "BenchEnv \<Rightarrow> (nat \<Rightarrow> nat) \<Rightarrow> string list \<Rightarrow> Rig \<Rightarrow> (stop + (Rig \<times> 'l::len test TMacrosList)) option" where
  "bench_main e calloc argv r =
     go_on (add_macros e calloc) (\<lambda>mlist.
     go_on (bench_loop (\<lambda>key. run key mlist) (drop 1 argv) (started r)) (\<lambda>r.
     go_on (clear mlist) (\<lambda>mlist.
     Some (Inr (stoped r, mlist)))))"

section \<open>The number of an argument\<close>

text \<open>A number with a unit behind it, and what the unit stands for.\<close>

definition sized :: "nat \<Rightarrow> char option \<Rightarrow> string" where
  "sized n u = show_dec n @ (case u of None \<Rightarrow> [] | Some c \<Rightarrow> [c])"

definition mult :: "char option \<Rightarrow> nat" where
  "mult u = (if u = Some CHR ''k'' then 1024 else if u = Some CHR ''m'' then 1048576 else 1)"

lemma atoi_dec: "n < 2 ^ 31 \<Longrightarrow> 32 \<le> L \<Longrightarrow> atoi L (show_dec n) = int n"
proof -
  assume n: "n < 2 ^ 31" and L: "32 \<le> L"
  have "(2 :: nat) ^ 31 \<le> 2 ^ (L - 1)" using L by (intro power_increasing) auto
  with n have "int n < 2 ^ (L - 1)" by (metis of_nat_less_iff of_nat_numeral of_nat_power order_less_le_trans)
  moreover have "\<not> int n < - (2 ^ (L - 1))" by (metis neg_0_less_iff_less not_less of_nat_0_le_iff order_less_le_trans zero_less_numeral zero_less_power less_asym)
  ultimately have "fst (strtol L 10 (show_dec n)) = int n"
    by (simp add: strtol_def int_scan_dec Let_def)
  with n show "atoi L (show_dec n) = int n"
    by (simp add: atoi_def to_int_def signed_of_nat signed_take_bit_int_eq_self)
qed

lemma parse_arg_sized:
  assumes "n * mult u < 2 ^ 31" "32 \<le> LENGTH('l::len)" "u \<in> {None, Some CHR ''k'', Some CHR ''m''}"
  shows "parse_arg (Some (sized n u)) = Inr (of_nat (n * mult u) :: 'l word, Some (show_dec n))"
proof -
  have m: "0 < mult u" by (simp add: mult_def)
  have n: "n < 2 ^ 31" using assms(1) m by (metis less_le_trans mult.commute mult_le_mono1 nat_mult_1 Suc_leI One_nat_def not_less)
  have l: "0 < length (show_dec n)" "length (show_dec n) \<le> 10"
    using hd_show_dec [of n] length_show_dec [of n 10] n by auto
  then have p: "0 < length (sized n u)" "length (sized n u) \<le> 11"
    by (auto simp: sized_def split: option.split)
  define k where "k = length (sized n u) - 1"
  have k: "length (sized n u) = Suc k" "k < 11" using p by (simp_all add: k_def)
  have "sint (of_nat (length (sized n u)) - 1 :: u16) = int k"
    using k by (simp add: signed_of_nat signed_take_bit_int_eq_self)
  then show ?thesis
    using assms(1,3) of_char_last [of n] k n assms(2) l
    by (auto simp: parse_arg_def Let_def sized_def mult_def atoi_dec Kb_def Mb_def in_int_def last_conv_nth)
qed


section \<open>The command line\<close>

lemma strtok_pair:
  assumes "CHR ''_'' \<notin> set name" "name \<noteq> []"
  shows "strtok (name @ CHR ''_'' # t) ''_'' = (Some name, t)"
    "strtok name ''_'' = (Some name, [])"
proof -
  have n: "\<forall>c \<in> set name. c \<noteq> CHR ''_''" "hd name \<noteq> CHR ''_''" using assms by (auto dest: hd_in_set)
  then have d: "dropWhile (\<lambda>c. c = CHR ''_'') (name @ u) = name @ u" for u using assms(2) by (cases name) auto
  show "strtok (name @ CHR ''_'' # t) ''_'' = (Some name, t)"
    using n assms(2) d [of "CHR ''_'' # t"] by (simp add: strtok_def takeWhile_append2 dropWhile_append2)
  show "strtok name ''_'' = (Some name, [])"
    using n assms(2) d [of "[]"] by (simp add: strtok_def takeWhile_eq_all_conv [THEN iffD2] dropWhile_eq_Nil_conv [THEN iffD2])
qed

lemma no_key_dec: "\<not> is_key (Some (sized n u))"
  using hd_show_dec [of n] digit_char(2) by (auto simp: is_key_def sized_def)

lemma strtok_dec: "strtok (show_dec n) ''_'' = (Some (show_dec n), [])"
proof (rule strtok_pair(2))
  show "CHR ''_'' \<notin> set (show_dec n)"
  proof
    assume "CHR ''_'' \<in> set (show_dec n)"
    from show_dec_range [OF this] show False by simp
  qed
qed (use hd_show_dec [of n] in auto)

section \<open>The tests by their names\<close>

definition tests :: "BenchEnv \<Rightarrow> (string \<times> 'l::len test) list" where
  "tests e = [(''mem'', mem_test e), (''nand'', nand_test e), (''gzip'', gzip_test e), (''fb'', fb_test e)]"

text \<open>What \<open>calloc\<close> answers for the four nodes: addresses of objects, each another one.\<close>

definition gives_nodes :: "(nat \<Rightarrow> nat) \<Rightarrow> bool" where
  "gives_nodes calloc \<longleftrightarrow> distinct (map calloc [0..<4]) \<and> 0 \<notin> set (map calloc [0..<4])"

lemma go_on_simps [simp]:
  "go_on (Some (Inr x)) f = f x" "go_on (Some (Inl e)) f = Some (Inl e)" "go_on None f = None"
  by (simp_all add: go_on_def)

lemma go_on_same: "go_on (Some x) (\<lambda>a. Some (f a)) = Some (case x of Inl e \<Rightarrow> Inl e | Inr a \<Rightarrow> f a)"
  by (simp add: go_on_def split: sum.split)

lemma add_macros_table:
  assumes "gives_nodes calloc"
  shows "\<exists>l. add_macros e calloc = Some (Inr l) \<and> holds l (tests e :: (string \<times> 'l::len test) list)"
proof -
  let ?es = "zip (map calloc [0..<4]) (tests e :: (string \<times> 'l test) list)"
  have es: "?es = [(calloc 0, ''mem'', mem_test e), (calloc 1, ''nand'', nand_test e),
      (calloc 2, ''gzip'', gzip_test e), (calloc 3, ''fb'', fb_test e)]"
    by (simp add: tests_def upt_rec numeral_2_eq_2 [symmetric] numeral_3_eq_3 [symmetric])
  have "distinct (map fst ?es)" "\<forall>(a, n, f) \<in> set ?es. fresh a new_TMacrosList \<and> length n < MACROSES_NAME_LEN"
    using assms unfolding es gives_nodes_def
    by (auto simp: upt_rec numeral_2_eq_2 [symmetric] numeral_3_eq_3 [symmetric] fresh_def
        new_TMacrosList_def MACROSES_NAME_LEN_def)
  from ml.insert_all_table [OF ml.table_empty(1) this]
  obtain l where l: "ml.insert_all ?es new_TMacrosList = Inr l" "holds l (map snd ?es)" by auto
  have "add_macros e calloc = Some (ml.insert_all ?es new_TMacrosList)"
    unfolding es add_macros_def by (auto simp: go_on_def split: sum.split)
  with l show ?thesis by (simp add: es tests_def)
qed

text \<open>The table takes the place of the list, which is cleared at the end without a node left.\<close>

lemma bench_main_table:
  assumes "gives_nodes calloc"
  shows "\<exists>l :: 'l::len test TMacrosList. ml_heap l = Map.empty \<and>
    bench_main e calloc argv r =
      go_on (bench_loop (\<lambda>key. Some (Inr (map_of (tests e :: (string \<times> 'l test) list) key))) (drop 1 argv) (started r))
        (\<lambda>t. Some (Inr (stoped t, l)))"
proof -
  obtain l where l: "add_macros e calloc = Some (Inr l)" "holds l (tests e :: (string \<times> 'l test) list)"
    using add_macros_table [OF assms] by blast
  then obtain ns where "nodes l ns" by (auto simp: holds_def)
  then have c: "clear l = Some (Inr (l\<lparr>ml_heap := Map.empty\<rparr>))" by (rule clear_nodes)
  have look: "(\<lambda>key. run key l) = (\<lambda>key. Some (Inr (map_of (tests e) key)))"
    using ml.table_lookup [OF l(2)] by blast
  show ?thesis
    unfolding bench_main_def l(1) go_on_simps look c
    by (intro exI [of _ "l\<lparr>ml_heap := Map.empty\<rparr>"]) simp
qed

text \<open>A key with a kind, and the argument behind it.\<close>

lemma bench_loop_key:
  assumes "is_key (Some s)" "strtok (tl s) ''_'' = (Some key, s')"
    and "parse_arg (fst (strtok s' ''_'')) = Inr (t, x)"
    and "\<not> is_key (Some a)" "parse_arg (Some a) = Inr (v, Some rem)"
  shows "bench_loop look (s # a # rest) r =
    go_on (run_macros look key t v r) (\<lambda>r. bench_loop look (rem # rest) (printf DIV_line r))"
  using assms by simp

text \<open>C34: a key with the name of a test, its kind and a size behind it runs this test and no other
  one, on the kind and the size that were written, kilobytes and megabytes multiplied out; at the
  end every node of the list of tests was freed once.\<close>

theorem benchmark_runs_test:
  fixes k n :: nat and u :: "char option"
  assumes "gives_nodes calloc" and "(name, f) \<in> set (tests e)"
    and "k < 2 ^ 31" and "n * mult u < 2 ^ 31" and "u \<in> {None, Some CHR ''k'', Some CHR ''m''}"
    and "32 \<le> LENGTH('l::len)"
    and "f (of_nat k :: 'l word) (of_nat (n * mult u)) (started r)
      = Some (Inr t)"
  shows "\<exists>l :: 'l test TMacrosList. bench_main e calloc [prog, ''-'' @ name @ ''_'' @ show_dec k, sized n u] r =
      Some (Inr (stoped (printf DIV_line t), l)) \<and> ml_heap l = Map.empty"
proof -
  let ?look = "\<lambda>key. Some (Inr (map_of (tests e) key)) :: (stop + 'l test option) option"
  let ?r = "started r"
  have name: "CHR ''_'' \<notin> set name" "name \<noteq> []" "map_of (tests e) name = Some f"
    using assms(2) by (auto simp: tests_def)
  have key: "strtok (tl (''-'' @ name @ ''_'' @ show_dec k)) ''_'' = (Some name, show_dec k)"
    using strtok_pair(1) [OF name(1,2)] by simp
  have "sized k None = show_dec k" by (simp add: sized_def)
  with parse_arg_sized [of k None] assms(3,6)
  have type: "parse_arg (Some (show_dec k)) = Inr (of_nat k :: 'l word, Some (show_dec k))"
    by (simp add: mult_def)
  have rest: "bench_loop ?look [show_dec n] s = Some (Inr s)" for s :: Rig
    using no_key_dec [of n None] by (simp add: sized_def)
  have "is_key (Some (''-'' @ name @ ''_'' @ show_dec k))" by (simp add: is_key_def)
  from bench_loop_key [OF this key _ no_key_dec parse_arg_sized [OF assms(4,6,5)]] type
  have "bench_loop ?look [''-'' @ name @ ''_'' @ show_dec k, sized n u] ?r =
      go_on (run_macros ?look name (of_nat k) (of_nat (n * mult u)) ?r)
        (\<lambda>r. bench_loop ?look [show_dec n] (printf DIV_line r))"
    unfolding strtok_dec fst_conv by blast
  also have "run_macros ?look name (of_nat k) (of_nat (n * mult u)) ?r = Some (Inr t)"
    unfolding run_macros_def using name(3) assms(7) by (simp only: go_on_simps option.case)
  finally have "bench_loop ?look [''-'' @ name @ ''_'' @ show_dec k, sized n u] ?r = Some (Inr (printf DIV_line t))"
    unfolding go_on_simps rest .
  then have loop: "bench_loop ?look (drop 1 [prog, ''-'' @ name @ ''_'' @ show_dec k, sized n u]) ?r =
      Some (Inr (printf DIV_line t))" by (simp only: drop_Suc_Cons One_nat_def drop_0)
  obtain l :: "'l test TMacrosList" where l: "ml_heap l = Map.empty"
    "bench_main e calloc [prog, ''-'' @ name @ ''_'' @ show_dec k, sized n u] r =
      go_on (bench_loop ?look (drop 1 [prog, ''-'' @ name @ ''_'' @ show_dec k, sized n u]) ?r)
        (\<lambda>t. Some (Inr (stoped t, l)))"
    using bench_main_table [OF assms(1), of e "[prog, ''-'' @ name @ ''_'' @ show_dec k, sized n u]" r]
    by (elim exE conjE) (rule that)
  from l(2) have "bench_main e calloc [prog, ''-'' @ name @ ''_'' @ show_dec k, sized n u] r =
      Some (Inr (stoped (printf DIV_line t), l))" unfolding loop go_on_simps .
  with l(1) show ?thesis by meson
qed

definition some_bench :: BenchEnv where
  "some_bench = \<lparr>be_malloc = \<lambda>_ n. Some (replicate n 0), be_time = \<lambda>_. ''0.1'', be_schar = False,
     be_open_w = \<lambda>_. True, be_good = \<lambda>_. True, be_open_r = \<lambda>_. True, be_remove = \<lambda>_. True,
     be_compress2 = \<lambda>_ _ _. Z_BUF_ERROR, be_fb = \<lambda>_. False, be_screen = \<lambda>_. None,
     be_mmap = \<lambda>_ _. None, be_munmap = \<lambda>_. True\<rparr>"

theorem benchmark_runs_test_witness:
  "\<exists>t (l :: 32 test TMacrosList). mem_test some_bench (8 :: 32 word) 2048 (started (Rig.make 0 [] 0 [])) = Some (Inr t) \<and>
     bench_main some_bench Suc [''bm'', ''-mem_8'', ''2k''] (Rig.make 0 [] 0 []) =
       Some (Inr (stoped (printf DIV_line t), l)) \<and> ml_heap l = Map.empty"
proof -
  have d: "show_dec 8 = ''8''" "sized 2 (Some CHR ''k'') = ''2k''" by code_simp+
  have m: "gives_memory some_bench" by (simp add: gives_memory_def some_bench_def)
  obtain t where "mem_test some_bench (8 :: 32 word) 2048 (started (Rig.make 0 [] 0 [])) = Some (Inr t)"
    using mem_test_runs [OF m, of "8 :: 32 word" 2048 "started (Rig.make 0 [] 0 [])"] by auto
  then have t: "mem_test some_bench (of_nat 8 :: 32 word) (of_nat (2 * mult (Some CHR ''k'')))
      (started (Rig.make 0 [] 0 [])) = Some (Inr t)" by (simp add: mult_def)
  have "gives_nodes Suc" by (simp add: gives_nodes_def distinct_map)
  from benchmark_runs_test [OF this, where name = "''mem''" and f = "mem_test some_bench" and prog = "''bm''"
      and k = 8 and n = 2 and u = "Some CHR ''k''", OF _ _ _ _ _ t]
  obtain l :: "32 test TMacrosList" where "ml_heap l = Map.empty"
    "bench_main some_bench Suc [''bm'', ''-'' @ ''mem'' @ ''_'' @ show_dec 8, sized 2 (Some CHR ''k'')]
      (Rig.make 0 [] 0 []) = Some (Inr (stoped (printf DIV_line t), l))"
    by (auto simp: tests_def mult_def)
  with t show ?thesis unfolding d by (auto simp: mult_def)
qed

section \<open>Arguments that are not understood\<close>

text \<open>An empty argument has no last character, a size of two gigabytes is none of the type \<open>int\<close>.\<close>

lemma parse_arg_empty: "parse_arg (Some []) = (Inl OutOfBounds :: stop + ('l::len word \<times> string option))"
  by (simp add: parse_arg_def Let_def signed_minus_1)

lemma parse_arg_two_gigabytes: "parse_arg (Some ''2048m'') = (Inl OutOfRange :: stop + (32 word \<times> string option))"
  by code_simp

text \<open>A name that no test has is told, and the loop goes on.\<close>

lemma bench_loop_unknown:
  assumes "is_key (Some s)" "strtok (tl s) ''_'' = (Some key, [])" "look key = Some (Inr None)"
  shows "bench_loop look [s] r =
    Some (Inr (printf DIV_line (printf (tab @ ''* macros \"'' @ key @ ''\" not found'' @ nl) r)))"
  using assms by (simp add: strtok_def parse_arg_def run_macros_def)


end
