(* ===== verification/Loader_Show.thy ===== *)
theory Loader_Show
  imports Loader_Data Sdp_Packet Imx_Firmware C_Library
begin

text \<open>
  What the loader prints (regiloader/regiloader.cpp, sdp.cpp).  \<open>std::cout\<close> is one stream for the whole
  program, and it keeps how numbers are written and what fields are filled with: \<open>Out\<close> is what was
  printed with this state.  Streams of their own (\<open>std::stringstream\<close>) start in decimal.

  The texts are Russian in UTF-8.  \<open>ru\<close> writes them in the Latin letters of the seven-bit code KOI-7,
  in which the letters of both alphabets with the same sound have the same place, with the cases exchanged;
  \<open>re\<close> writes a backslash for the sign of percent.
\<close>

section \<open>The stream\<close>

record Out =
  o_text :: string
  o_hex :: bool
  o_upper :: bool
  o_fill :: char

definition put :: "string \<Rightarrow> Out \<Rightarrow> Out" where
  "put s out = out\<lparr>o_text := o_text out @ s\<rparr>"

definition show_low :: "nat \<Rightarrow> string" where
  "show_low n = map lower (show_hex n)"

definition num :: "nat \<Rightarrow> Out \<Rightarrow> Out" where
  "num n out =
     put (if o_hex out then (if o_upper out then show_hex n else show_low n) else show_dec n) out"

definition std_dec :: "Out \<Rightarrow> Out" where
  "std_dec out = out\<lparr>o_hex := False\<rparr>"

definition std_hex :: "Out \<Rightarrow> Out" where
  "std_hex out = out\<lparr>o_hex := True\<rparr>"

definition fill :: "char \<Rightarrow> Out \<Rightarrow> Out" where
  "fill c out = out\<lparr>o_fill := c\<rparr>"

text \<open>A text in a field of a width, which may be negative.\<close>

definition setw_put :: "int \<Rightarrow> string \<Rightarrow> Out \<Rightarrow> Out" where
  "setw_put w s out = put (replicate (nat (w - int (length s))) (o_fill out) @ s) out"

definition print :: "(Out \<Rightarrow> Out) list \<Rightarrow> Out \<Rightarrow> Out" where
  "print = fold (\<lambda>f. f)"

definition lf :: string where
  "lf = [CHR 0x0A]"

definition ht :: string where
  "ht = [CHR 0x09]"

section \<open>Russian\<close>

definition koi :: "nat list" where
  "koi = [0x44E, 0x430, 0x431, 0x446, 0x434, 0x435, 0x444, 0x433, 0x445, 0x438, 0x439, 0x43A, 0x43B, 0x43C,
     0x43D, 0x43E, 0x43F, 0x44F, 0x440, 0x441, 0x442, 0x443, 0x436, 0x432, 0x44C, 0x44B, 0x437, 0x448,
     0x44D, 0x449, 0x447, 0x44A]"

definition utf8 :: "nat \<Rightarrow> string" where
  "utf8 p = [char_of (192 + p div 64), char_of (128 + p mod 64)]"

definition ru_char :: "char \<Rightarrow> string" where
  "ru_char c =
     (let n = of_char c :: nat in
      if 64 \<le> n \<and> n < 128 then utf8 (koi ! (n mod 32) - (if 96 \<le> n then 32 else 0)) else [c])"

definition ru :: "string \<Rightarrow> string" where
  "ru s = concat (map ru_char s)"

section \<open>Colours, bars and progress\<close>

datatype Color = kReset | kBlack | kRed | kGreen | kYellow | kBlue | kMagenta | kCyan | kWhite

fun Color_id :: "Color \<Rightarrow> int" where
  "Color_id kReset = - 1"
| "Color_id kBlack = 0"
| "Color_id kRed = 1"
| "Color_id kGreen = 2"
| "Color_id kYellow = 3"
| "Color_id kBlue = 4"
| "Color_id kMagenta = 5"
| "Color_id kCyan = 6"
| "Color_id kWhite = 7"

definition esc :: string where
  "esc = [CHR 0x1B]"

definition UseColor :: "int \<Rightarrow> string" where
  "UseColor i = (if 0 \<le> i then esc @ ''[1;'' @ show_dec (nat (30 + i mod 8)) @ ''m'' else esc @ ''[0m'')"

definition color :: "Color \<Rightarrow> Out \<Rightarrow> Out" where
  "color c = put (UseColor (Color_id c))"

definition PrintList :: "string \<Rightarrow> string list \<Rightarrow> Out \<Rightarrow> Out" where
  "PrintList pref xs = print (map (\<lambda>x. put (pref @ x @ lf)) xs)"

text \<open>The width is the difference of two sizes without a sign as an \<open>int\<close>.\<close>

definition PrintDelimiter :: "string \<Rightarrow> string \<Rightarrow> u16 \<Rightarrow> Out \<Rightarrow> Out" where
  "PrintDelimiter pref name len =
     (let part0 = ''---'' @ (if 0 < length name then '' '' @ name @ '' '' else [])
      in print
        [fill CHR ''-'', color kYellow, put pref, put part0,
         setw_put (to_int (int (unat len) - int (length part0))) (UseColor (Color_id kReset)), put lf,
         fill CHR '' ''])"

definition ShowPercentage :: "string \<Rightarrow> byte \<Rightarrow> Out \<Rightarrow> Out" where
  "ShowPercentage msg percent =
     (let percent = (if 100 < percent then 100 else percent)
      in print [put ([CHR 0x0D] @ esc @ ''[K''), put msg, put '': '', num (unat percent), put '' %''])"

definition kMaxNum :: byte where
  "kMaxNum = 10"

text \<open>The number of the process that is kept from call to call goes from 1 to 10.\<close>

definition ShowProcess :: "string \<Rightarrow> byte \<times> Out \<Rightarrow> byte \<times> Out" where
  "ShowProcess msg = (\<lambda>(n, out).
     let out = print
           [fill CHR ''.'', put ([CHR 0x0D] @ esc @ ''[K''), color kBlue, put msg, setw_put (int (unat n)) '' '',
            color kReset, fill CHR '' ''] out;
         n = n + 1
     in (if kMaxNum < n then 1 else n, out))"

definition ParseTimeoutHandler :: "nat \<Rightarrow> byte \<times> Out \<Rightarrow> byte \<times> Out" where
  "ParseTimeoutHandler try_num = ShowProcess (ht @ '' * '' @ ru ''oVIDANIE ISPOLNENIQ KOMANDY'')"

section \<open>Boards\<close>

definition packet_string :: "PacketInfo \<Rightarrow> string" where
  "packet_string p = pi_name p @ '': '' @ pi_version p"

definition partition_string :: "Partition \<Rightarrow> string" where
  "partition_string p = p_name p @ '': '' @ show_dec (unat (area_Length (p_area p))) @ '' bytes''"

definition item :: "string \<Rightarrow> string \<Rightarrow> Out \<Rightarrow> Out" where
  "item label v = put (ht @ '' * '' @ label @ '': '' @ v @ lf)"

definition items :: "string \<Rightarrow> string list \<Rightarrow> Out \<Rightarrow> Out" where
  "items label xs =
     print [put (ht @ '' * '' @ label @ '': ''), num (unat (of_nat (length xs) :: u32)), put lf,
       PrintList (ht @ ht @ '' - '') xs]"

definition group :: "string \<Rightarrow> Out \<Rightarrow> Out" where
  "group title = print [color kYellow, put (ht @ title @ lf), color kReset]"

definition PrintSysInfo :: "SysInfo \<Rightarrow> Out \<Rightarrow> Out" where
  "PrintSysInfo si = print
     [put (ru ''oPISANIE'' @ '':'' @ lf),
      item (ru ''pLATA.....'') (si_board si),
      item (ru ''pROCESSOR.'') (si_cpu si),
      group ''--- UBOOT ---------------------------'',
      item (ru ''wERSIQ....'') (si_u_boot_build si),
      item ''loadaddr..'' (si_loadaddr si),
      group ''--- Kernel (Linux) ------------------'',
      item (ru ''wERSIQ....'') (si_kernel_build si),
      item ''GCC.......'' (si_gcc_ver si),
      item ''Crosstool.'' (si_ct_ng_ver si @ ''(crosstool-NG)''),
      group (''--- '' @ ru ''pERIFERIQ'' @ '' -----------------------''),
      item (ru ''ozu.......'') (si_dram_size si @ '' ('' @ si_ddr si @ '')''),
      item (ru ''pzu'' @ '' (NOR).'') (si_nor_size si @ '' ('' @ si_nor si @ '')''),
      item (ru ''pzu'' @ '' (NAND)'') (si_nand_size si @ '' ('' @ si_nand si @ '')''),
      item ''SD/MMC....'' (si_sd_mmc si),
      item ''Ethernet..'' (si_eth si),
      item ''RTC.......'' (kn_rtc (si_kernel si)),
      item (ru (re ''sENSOR.%K.'')) (kn_ts (si_kernel si)),
      item (ru ''dISPLEJ...'') (kn_lcd (si_kernel si)),
      item (''MAC-'' @ ru ''ADRES.'') (si_board_hw_addr si),
      items ''SPI.......'' (kn_spi (si_kernel si)),
      items ''UART......'' (kn_uarts (si_kernel si)),
      items ''USB-UART..'' (kn_usb_uart (si_kernel si)),
      items (ru ''rAZDELY...'') (map partition_string (kn_partitions (si_kernel si))),
      items (ru ''pAKETY....'') (map packet_string (si_packets si)),
      put lf]"

definition print_SysState :: "SysState \<Rightarrow> Out \<Rightarrow> Out" where
  "print_SysState s = print
     [put (ru ''kONFIGURACIQ'' @ '': '' @ lf),
      put (ht @ '' - '' @ ru (re ''sT%ND'') @ ''  : ''), num (unat (ss_stand s)), put lf,
      put (ht @ '' - '' @ ru ''pARTIQ'' @ '' : ''), num (unat (ss_batch s)), put lf,
      put (ht @ '' - '' @ ru ''pLATA'' @ ''  : ''), num (unat (ss_device s)), put lf,
      put (ht @ '' - '' @ ru ''dISPLEJ'' @ '': '' @ ss_lcd_model s @ lf),
      put (ht @ '' - '' @ ru ''sENSOR'' @ '' : '' @ ss_ts_model s @ lf),
      put lf]"

text \<open>The catcher of signals returns, also from the one about an access outside of the memory.\<close>

definition SIGSEGV :: int where
  "SIGSEGV = 11"

definition KernelSignalCatcher :: "int \<Rightarrow> Out \<Rightarrow> Out" where
  "KernelSignalCatcher sig_num =
     (if sig_num = SIGSEGV then id
      else print [put (ru ''pOLU^EN NEIZWESTNYJ SIGNAL: ''),
        \<lambda>out. if o_hex out then num (unat (word_of_int sig_num :: u32)) out else put (show_signed sig_num) out,
        put lf])"

section \<open>The serial download protocol\<close>

definition kClosedSecurityConf :: u32 where
  "kClosedSecurityConf = 0x12343412"

definition GetAckName :: "u32 \<Rightarrow> string" where
  "GetAckName v =
     (if v = kClosedSecurityConf then ''closed security configuration''
      else if v = kOtherwise then ''otherwise''
      else ''??? ['' @ show_low (unat v) @ '']'')"

definition GetFileTypeName :: "byte \<Rightarrow> string" where
  "GetFileTypeName ft =
     (if ft = kApplication then ''application''
      else if ft = 0xCC then ''CSF (Command Sequence File)''
      else if ft = 0xEE then ''DCD (Device Configuration Data)''
      else ''???'')"

text \<open>What \<open>PktWriteF\<close> prints before the command, after the data and about the answer.\<close>

definition writef_command :: "Firm \<Rightarrow> Out \<Rightarrow> Out" where
  "writef_command f = print
     [put (ru ''kOMANDA ZAGRUZKI: '' @ lf), std_dec,
      put (ht @ '' * number of bytes: ''), num (unat (of_nat (length (fm_data f)) :: u32)), put ('' '' @ ru ''BAJT'' @ lf),
      std_hex, put (ht @ '' * target address : 0x''), num (unat (fm_self_ptr f)), put lf,
      put (ht @ '' * file type      : ''), put (GetFileTypeName kApplication), put lf]"

definition writef_data :: "nat \<Rightarrow> Out \<Rightarrow> Out" where
  "writef_data kWasWrote = print
     [std_dec, put (ht @ '' * '' @ ru ''zAPISANO'' @ ''       : ''), num (unat (of_nat kWasWrote :: u32)),
      put ('' '' @ ru ''BAJT'' @ lf), put lf]"

definition writef_answer :: "u32 \<Rightarrow> Out \<Rightarrow> Out" where
  "writef_answer ack = put (ht @ '' * '' @ ru ''rEVIM ZAGRUZKI'' @ '' : '' @ GetAckName ack @ lf)"

text \<open>The packet itself, in upper case; case, fill and base stay.\<close>

definition print_packet :: "string \<Rightarrow> byte list \<Rightarrow> Out \<Rightarrow> Out" where
  "print_packet pref pkt out =
     print [put (pref @ '': ''), \<lambda>out. out\<lparr>o_upper := True, o_fill := CHR ''0'', o_hex := True\<rparr>,
       put (concat (map (\<lambda>b. setw2 (show_hex (unat b)) @ ''|'') pkt)), put lf] out"

section \<open>The image\<close>

text \<open>An address as it stands in the image, and as an offset from the start of the table.\<close>

definition address :: "string \<Rightarrow> u32 \<Rightarrow> u32 \<Rightarrow> Out \<Rightarrow> Out" where
  "address label a self = print
     [put (ht @ '' * '' @ label @ '': 0x''), num (unat a), put '' -> '', num (unat (a - self)), put lf]"

definition print_ivt :: "byte list \<Rightarrow> nat \<Rightarrow> Out \<Rightarrow> Out option" where
  "print_ivt m p out =
     (case (ivt_at m p, mem32 m (p + 24)) of
        (Some h, Some csf) \<Rightarrow>
          Some (print
            [put (''IVT: '' @ lf), std_hex,
             address ''start_addr  '' (i_start_addr h) (i_self_ptr h),
             address ''dcd         '' (i_dcd_ptr h) (i_self_ptr h),
             address ''boot_data   '' (i_boot_data_ptr h) (i_self_ptr h),
             address ''self        '' (i_self_ptr h) (i_self_ptr h),
             put (ht @ '' * app_code_csf: 0x''), num (unat csf), put lf, put lf] out)
      | _ \<Rightarrow> None)"

definition print_boot :: "byte list \<Rightarrow> nat \<Rightarrow> Out \<Rightarrow> Out option" where
  "print_boot m p out =
     (case (mem32 m p, mem32 m (p + 4), mem32 m (p + 8)) of
        (Some dest, Some image_len, Some plugin) \<Rightarrow>
          Some (print
            [put (''Boot data:'' @ lf), std_dec,
             put (ht @ '' * image_len   : ''), num (unat image_len), put ('' '' @ ru ''BAJT'' @ lf), std_hex,
             put (ht @ '' * dest        : 0x''), num (unat dest), put lf,
             put (ht @ '' * plugin      : 0x''), num (unat plugin), put lf, put lf] out)
      | _ \<Rightarrow> None)"

text \<open>A read outside of the image has no result.\<close>

definition PrintStructures :: "ImxFirmware \<Rightarrow> Out \<Rightarrow> Out option" where
  "PrintStructures f out =
     (case (im_exec f, im_header f) of
        (Some m, Some p) \<Rightarrow>
          (case print_ivt m p out of
             None \<Rightarrow> None
           | Some out \<Rightarrow>
               (let out = print [put (''DCD:'' @ lf), std_dec, put (ht @ '' * length      : ''),
                            num (unat (im_length f)), put ('' '' @ ru ''BAJT'' @ lf), put lf] out
                in case im_boot f of
                     None \<Rightarrow> Some out
                   | Some b \<Rightarrow> print_boot m b out))
      | _ \<Rightarrow> Some out)"


section \<open>How numbers are shown\<close>

lemma print_simps [simp]:
  "print [] out = out" "print (f # fs) out = print fs (f out)"
  by (simp_all add: print_def)

lemmas out_simps = put_def num_def std_dec_def std_hex_def fill_def setw_put_def color_def

text \<open>The state of the stream after each of the messages.\<close>

lemma shown_in_hex [simp]:
  "o_hex (writef_command f out)" "\<not> o_hex (writef_data n out)" "o_hex (writef_answer a out) = o_hex out"
  "o_hex (print_SysState s out) = o_hex out" "o_hex (PrintDelimiter pref name len out) = o_hex out"
  "o_hex (ShowPercentage msg p out) = o_hex out" "o_hex (snd (ShowProcess msg (k, out))) = o_hex out"
  by (simp_all add: writef_command_def writef_data_def writef_answer_def print_SysState_def
      PrintDelimiter_def ShowPercentage_def ShowProcess_def Let_def out_simps)

lemma PrintStructures_hex:
  "PrintStructures f out = Some t \<Longrightarrow> im_boot f \<noteq> None \<Longrightarrow> im_header f \<noteq> None \<Longrightarrow> im_exec f \<noteq> None \<Longrightarrow> o_hex t"
  by (auto simp: PrintStructures_def print_boot_def Let_def out_simps split: option.splits)

text \<open>The numbering of the next board after a load whose command was not answered.\<close>

definition shown :: "Out \<Rightarrow> nat \<Rightarrow> string" where
  "shown out n = (if o_hex out then (if o_upper out then show_hex n else show_low n) else show_dec n)"

lemma text_simps [simp]:
  "o_text (put s out) = o_text out @ s" "shown (put s out) = shown out"
  "o_text (num n out) = o_text out @ shown out n" "shown (num n out) = shown out"
  by (auto simp: put_def num_def shown_def)

lemma print_SysState_text:
  "\<exists>a b c d. o_text (print_SysState s out) = o_text out @ a @ shown out (unat (ss_stand s)) @ b @
     shown out (unat (ss_batch s)) @ c @ shown out (unat (ss_device s)) @ d"
proof -
  let ?l = "\<lambda>t. ht @ '' - '' @ t"
  have "o_text (print_SysState s out) = o_text out @ ((ru ''kONFIGURACIQ'' @ '': '' @ lf) @
      ?l (ru (re ''sT%ND'') @ ''  : '')) @ shown out (unat (ss_stand s)) @
    (lf @ ?l (ru ''pARTIQ'' @ '' : '')) @ shown out (unat (ss_batch s)) @
    (lf @ ?l (ru ''pLATA'' @ ''  : '')) @ shown out (unat (ss_device s)) @
    (lf @ ?l (ru ''dISPLEJ'' @ '': '' @ ss_lcd_model s @ lf) @ ?l (ru ''sENSOR'' @ '' : '' @ ss_ts_model s @ lf) @ lf)"
    unfolding print_SysState_def print_simps text_simps append_assoc ..
  then show ?thesis by blast
qed

lemma hex_after_unanswered_load:
  assumes "\<not> o_upper out"
  shows "\<exists>a b c d. o_text (print_SysState s (writef_command f out)) = o_text (writef_command f out) @ a @
    show_low (unat (ss_stand s)) @ b @ show_low (unat (ss_batch s)) @ c @ show_low (unat (ss_device s)) @ d"
proof -
  have "\<not> o_upper (writef_command f out)" using assms by (simp add: writef_command_def out_simps)
  then have "shown (writef_command f out) n = show_low n" for n by (simp add: shown_def)
  then show ?thesis using print_SysState_text [of s "writef_command f out"] by simp
qed

lemma ten_in_hex: "show_low 10 = ''a''" "show_low 16 = ''10''" "show_dec 16 = ''16''"
  by code_simp+

section \<open>Progress\<close>

lemma ShowProcess_number:
  assumes "1 \<le> n" "n \<le> kMaxNum"
  shows "1 \<le> fst (ShowProcess msg (n, out)) \<and> fst (ShowProcess msg (n, out)) \<le> kMaxNum"
proof -
  have "unat n \<le> 10" using assms(2) by (simp add: kMaxNum_def word_le_nat_alt)
  then have "unat (n + 1) = unat n + 1" by (simp add: unat_word_ariths(1))
  then show ?thesis
    using assms by (auto simp: ShowProcess_def Let_def kMaxNum_def word_le_nat_alt word_less_nat_alt)
qed

text \<open>As many points as calls before it, from none to nine.\<close>

lemma ShowProcess_text:
  assumes "0 < unat n"
  shows "o_text (snd (ShowProcess msg (n, out))) = o_text out @ [CHR 0x0D] @ esc @ ''[K'' @
    UseColor (Color_id kBlue) @ msg @ replicate (unat n - 1) CHR ''.'' @ '' '' @ UseColor (Color_id kReset)"
proof -
  have "nat (uint n - 1) = unat n - 1" using uint_nat [of n] by linarith
  then show ?thesis unfolding ShowProcess_def Let_def setw_put_def print_simps by (simp add: out_simps del: of_nat_unat)
qed

text \<open>The line of a delimiter is as long as its name and the marks leave, less the four characters of the
  sequence that resets the colour, which is counted to the field.\<close>

lemma to_int_small: "- 2147483648 \<le> x \<Longrightarrow> x < 2147483648 \<Longrightarrow> to_int x = x"
  by (simp add: to_int_def signed_of_int signed_take_bit_int_eq_self)

lemma PrintDelimiter_text:
  assumes "length name + 9 \<le> unat len" "0 < length name"
  shows "o_text (PrintDelimiter pref name len out) = o_text out @ UseColor (Color_id kYellow) @ pref @
    ''--- '' @ name @ '' '' @ replicate (unat len - length name - 9) CHR ''-'' @ UseColor (Color_id kReset) @ lf"
proof -
  have "unat len < 65536" using unsigned_less [of len, where ?'a = nat] by simp
  then have "to_int (int (unat len) - int (length name + 5)) = int (unat len) - int (length name + 5)"
    using assms(1) by (intro to_int_small) linarith+
  moreover have "length (UseColor (Color_id kReset)) = 4" by (simp add: UseColor_def esc_def)
  moreover have "nat (int (unat len) - int (length name + 5) - 4) = unat len - length name - 9" using uint_nat [of len] by linarith
  moreover have "length (''---'' @ (if 0 < length name then '' '' @ name @ '' '' else [])) = length name + 5"
    using assms(2) by simp
  ultimately have "setw_put (to_int (int (unat len) - int (length (''---'' @ (if 0 < length name then '' '' @ name @ '' '' else [])))))
      (UseColor (Color_id kReset)) = (\<lambda>out. put (replicate (unat len - length name - 9) (o_fill out) @ UseColor (Color_id kReset)) out)"
    by (simp only: setw_put_def fun_eq_iff of_nat_numeral simp_thms)
  then show ?thesis
    unfolding PrintDelimiter_def Let_def print_simps
    using assms(2) by (simp only: color_def text_simps fill_def put_def Out.simps append_assoc) simp
qed

text \<open>The catcher of an access outside of the memory does nothing, and the program goes on with the same
  access.\<close>

lemma SIGSEGV_is_caught: "KernelSignalCatcher SIGSEGV out = out"
  by (simp add: KernelSignalCatcher_def)

end
