(* ===== verification/Debug_Backtrace.thy ===== *)
theory Debug_Backtrace
  imports Regi_Prelude
begin

text \<open>
  Traces of the stack (regiloader/debug_backtrace.cpp).  The stack is the list of its return addresses,
  the innermost first; \<open>backtrace\<close> of the C library stores as many of them as the buffer holds, and
  \<open>backtrace_symbols\<close> names each of them or answers a null pointer.  A pointer to a string or a stream
  is an option.
\<close>

record Backtrace =
  bt_stack :: string

definition new_Backtrace :: Backtrace where
  "new_Backtrace = \<lparr>bt_stack = []\<rparr>"

definition kStackBufSz :: nat where
  "kStackBufSz = 100"

text \<open>The loop over the names from one on; there is one for each address.\<close>

function print_names :: "nat \<Rightarrow> nat \<Rightarrow> string list \<Rightarrow> string \<Rightarrow> stop + string" where
  "print_names i nptrs strings log =
     (if i < nptrs
      then (if length strings \<le> i then Inl OutOfBounds
            else print_names (i + 1) nptrs strings (log @ strings ! i @ [CHR 0x0A]))
      else Inr log)"
  by pat_completeness auto

termination
  by (relation "measure (\<lambda>(i, n, _). n - i)") auto

declare print_names.simps [simp del]

definition ReadStackTo ::
  "('a list \<Rightarrow> string list option) \<Rightarrow> 'a list \<Rightarrow> string option \<Rightarrow> stop + (bool \<times> string option)" where
  "ReadStackTo backtrace_symbols stack out =
     (if out = None then Inr (False, out)
      else
        (let buf = take kStackBufSz stack;
             nptrs = length buf
         in case backtrace_symbols buf of
              None \<Rightarrow> Inr (True, Some ''no symbols'')
            | Some strings \<Rightarrow>
                (case print_names 0 nptrs strings [] of
                   Inl e \<Rightarrow> Inl e
                 | Inr log \<Rightarrow> Inr (True, Some log))))"

definition KeepStack ::
  "('a list \<Rightarrow> string list option) \<Rightarrow> 'a list \<Rightarrow> Backtrace \<Rightarrow> stop + (bool \<times> Backtrace)" where
  "KeepStack symbols stack bt =
     (case ReadStackTo symbols stack (Some (bt_stack bt)) of
        Inl e \<Rightarrow> Inl e
      | Inr (ok, s) \<Rightarrow> Inr (ok, bt\<lparr>bt_stack := (case s of None \<Rightarrow> bt_stack bt | Some s \<Rightarrow> s)\<rparr>))"

definition PrintStackTo :: "string option \<Rightarrow> Backtrace \<Rightarrow> bool \<times> string option" where
  "PrintStackTo out bt =
     (case out of None \<Rightarrow> (False, None) | Some printed \<Rightarrow> (True, Some (printed @ bt_stack bt)))"

definition ReadStack ::
  "('a list \<Rightarrow> string list option) \<Rightarrow> 'a list \<Rightarrow> string option \<Rightarrow> stop + (bool \<times> string option)" where
  "ReadStack = ReadStackTo"

definition clear_stack :: "Backtrace \<Rightarrow> Backtrace" where
  "clear_stack bt = bt\<lparr>bt_stack := []\<rparr>"

section \<open>What is kept\<close>

lemma print_names_lines:
  assumes "length strings = n" "i \<le> n"
  shows "print_names i n strings log = Inr (log @ concat (map (\<lambda>s. s @ [CHR 0x0A]) (drop i strings)))"
  using assms(2)
proof (induction "n - i" arbitrary: i log)
  case 0
  with assms(1) show ?case by (simp add: print_names.simps [of i])
next
  case (Suc k)
  then have "i < n" by simp
  moreover have "k = n - (i + 1)" "i + 1 \<le> n" using Suc.hyps(2) by simp_all
  note Suc.hyps(1) [OF this]
  moreover have "drop i strings = strings ! i # drop (i + 1) strings"
    using \<open>i < n\<close> assms(1) by (simp add: Cons_nth_drop_Suc)
  ultimately show ?case using assms(1) by (simp add: print_names.simps [of i])
qed

text \<open>What is printed after the stack was kept is one line for each of its innermost 100 calls.\<close>

lemma kept_stack_is_printed:
  assumes "symbols (take kStackBufSz stack) = Some names" "length names = length (take kStackBufSz stack)"
  shows "\<exists>bt'. KeepStack symbols stack bt = Inr (True, bt') \<and>
    PrintStackTo (Some printed) bt' = (True, Some (printed @ concat (map (\<lambda>s. s @ [CHR 0x0A]) names)))"
  using assms print_names_lines [of names "length names" 0 "[]"]
  by (simp add: KeepStack_def ReadStackTo_def PrintStackTo_def Let_def)

lemma cleared_stack: "PrintStackTo (Some printed) (clear_stack bt) = (True, Some printed)"
  by (simp add: PrintStackTo_def clear_stack_def)

end
