(* ===== verification/Spec2Isabelle.thy ===== *)
theory Spec2Isabelle
  imports Tftp_Faults Sdp_Exchange Imx_Firmware Ymodem_Send Loader_Boards Uboot_Conf Fcb_Gen Rfb_Web Splash_Screen Regi_Pswd Board_Registers Modpoll Bench_Main Loader_Show Debug_Backtrace
begin

text \<open>
  A verification library for the host and board utilities of regiboard (src/utils).

  \<^bold>\<open>The programs.\<close>  A regiboard is a board with an i.MX53 processor.  On the host, regiloader brings
  a board from the state without software to the finished product: it loads the boot loader through the
  boot ROM by the serial download protocol, talks to the console of the boot loader and then of Linux
  through the serial port, sends the kernel by YMODEM or offers it by TFTP, makes the partitions, has the
  board fetch root file system, tools and packets by TFTP, gives the board a number and a MAC address, and
  writes a file about it.  A recipe says which of these actions are done, for one board after the other.
  imx-fcb-gen and regipswd prepare data for it (the control block for the NAND memory, passwords).  On the
  board, uboot_conf translates the environment of the boot loader, regisplash shows a picture at the
  start, and regirfb serves the screen over HTTP and takes clicks and new firmware; the header
  mbcomm_rot.h names the registers of the measuring boards that are asked over Modbus, and modpoll, a tool
  of the FieldTalk library, asks devices for any registers or writes them.
  The benchmark measures memory, flash, compression and screen of a board.

  \<^bold>\<open>Theories and sources.\<close>  A definition has the name of the function, class or constant it models,
  with a prefix where that name is taken; the members of a class are the fields of its record, with a
  prefix of one or two letters.

  \<^item> \<open>Regi_Prelude\<close>: words, arrays that are copied into, blocks, text; the reasons for which a run stops.
    \<open>Regi_Stream\<close>: files that are read.  \<open>Regi_Retry\<close>: loops with a bounded number of tries.
  \<^item> regiloader/tftp.hpp, tftp.cpp: \<open>Tftp_Packet\<close> (\<open>Packet\<close> and its subclasses), \<open>Tftp_Session\<close> (\<open>Session\<close>,
    \<open>Task\<close>), \<open>Tftp_Server\<close> (\<open>Server\<close> with the event loop below it); about them \<open>Tftp_Safety\<close> (the invariant of
    a session), \<open>Tftp_Transfer\<close> (a whole transfer) and \<open>Tftp_Faults\<close> (what goes wrong).
  \<^item> regiloader/sdp.hpp, sdp.cpp: \<open>Sdp_Packet\<close> (the packets), \<open>Sdp_Exchange\<close> (\<open>Send\<close> and its handlers),
    \<open>Imx_Firmware\<close> (\<open>ImxFirmware\<close>).
  \<^item> regiloader/ymodem.hpp, ymodem.cpp: \<open>Ymodem_Crc\<close> (\<open>Crc\<close>), \<open>Ymodem_Send\<close> (packets and \<open>SendFile\<close>).
  \<^item> regiloader/asio_helper.hpp, asio_helper.cpp: \<open>Asio_Read\<close> (\<open>AsioIface::Read\<close>).
  \<^item> regiloader/regiloader.cpp: \<open>Loader_Data\<close> (boards, numbers, licence), \<open>Loader_Parse\<close> (\<open>FillInSysInfo\<close>),
    \<open>Loader_Console\<close> (\<open>ParseUntil\<close>, \<open>SendToUBoot\<close>, \<open>SendToShell\<close>), \<open>Loader_Upload\<close> (boot loader, kernel,
    files over TFTP), \<open>Loader_Float\<close> and \<open>Loader_Install\<close> (partitions, packets, registration),
    \<open>Loader_Recipe\<close> (arguments, recipe, actions, \<open>main\<close>); about them \<open>Loader_Boards\<close> (the records of a session).
    \<open>Loader_Show\<close> has what this file and sdp.cpp print, \<open>Debug_Backtrace\<close> models debug_backtrace.cpp.
  \<^item> regisetup/uboot_conf/uboot_conf.cpp: \<open>Uboot_Conf\<close>.  imx-fcb-gen/fcb_gen.cpp: \<open>Fcb_Gen\<close>.
    regipswd/regipswd.cpp: \<open>Regi_Pswd\<close>.  regisplash/main.cpp: \<open>Splash_Screen\<close>.
  \<^item> regirfb/framebuf.hpp, framebuf.cpp: \<open>Rfb_Frame\<close>.  regirfb/main.cpp, ipc.cpp: \<open>Rfb_Info\<close>, \<open>Rfb_Web\<close>.
  \<^item> regitest/modbus_test/mbcomm_rot.h: \<open>Board_Registers\<close>.  modpoll/modpoll.cpp: \<open>Modpoll\<close>, with what it takes
    from the C library (options, numbers in a text, floating point) in \<open>C_Library\<close>.
  \<^item> regitest/benchmark: \<open>Bench_Macros\<close> (macroses.h), \<open>Bench_Tests\<close> (mem_test.h, nand_test.h, gzip_test.h, fb_test.h),
    \<open>Bench_Main\<close> (main.cpp).

  \<^bold>\<open>How the code is modelled.\<close>  Integers have their width where it matters; a \<open>size_t\<close> that counts
  objects in memory is a natural number.  Memory is a list of bytes, but the nodes of the list of the
  benchmark are objects at addresses of a heap, which an access after \<open>free\<close> does not find (\<open>Dangling\<close>); reading or writing outside of an array
  is \<open>OutOfBounds\<close> or \<open>None\<close>, never a value.  Memory that is not initialised is an argument of the constructor.
  Objects and static variables are records that are passed on; \<open>Console\<close> is extended to \<open>Loader\<close> by what the
  later parts of the program work with.  The result of a statement that talks to the outside is an \<open>attempt\<close>:
  \<^theory_text>\<open>None\<close> if it never returns, \<open>Inl\<close> and a reason if the run cannot go on, or \<open>Inr\<close> with the
  boolean of the code and the new state; \<open>thenA\<close>, \<open>doA\<close> and \<open>orfail\<close> put statements after each other.
  Asynchronous operations are entries in a list of what is pending.  The network, the board and the clock
  are lists of events that say which of them ends and how; a service that still waits at the end of the
  events is \<open>Starved\<close>, so nothing is claimed of a partner that says no more.  The server of the screen has a
  second thread: \<open>web_reach\<close> interleaves its statements with those of the handlers, of which as many are at
  work as the library lets be (\<open>lim\<close>).

  Loops end by structural recursion or a measure, or are \<open>partial_function (option)\<close>: the loop of \<open>Run\<close> of the TFTP
  server (\<open>run_loop\<close>), \<open>transfer_loop\<close>, \<open>skip_loop\<close>, \<open>parse_loop\<close>, \<open>mkvol_loop\<close>, \<open>UploadKernelOverEth\<close>, \<open>uboot_again\<close>,
  \<open>main_loop\<close>, \<open>bin_loop\<close>, \<open>poll_loop\<close>, and the loops of the benchmark over its list and its file have no fuel, and where the code turns for ever their value is \<^theory_text>\<open>None\<close>.  No bounds are put on files, lines or sessions
  but those a theorem states: numbers of bytes below \<open>2 ^ 32\<close>, a screen whose size is an \<open>int\<close>, and the name of
  a file that leaves room for its size in the initial block of YMODEM.

  \<^bold>\<open>Parameters.\<close>  Libraries are arguments: the regular expressions of Boost (\<open>rx\<close>), the parser of the
  command line (its result), JSON, the check sums \<open>crc32\<close> and \<open>md5\<close> and the size of the environment (from U-Boot),
  webapp (requests and responses, and how many it handles at a time), FieldTalk (\<open>Bus\<close>), random numbers, \<open>malloc\<close>, \<open>calloc\<close> and zlib, the symbols of a stack, and whether files, devices and queues can be used.

  \<^bold>\<open>Interfaces.\<close>  \<open>byte_code\<close> (a value and its bytes: \<open>le16\<close>, \<open>le32\<close>), \<open>block_source\<close> (a file read in blocks: the
  TFTP task and the YMODEM sender), \<open>retry\<close> (bounded tries: one try of \<open>sdp_Send\<close> and its repetition),
  \<open>sdp_field\<close> (fields of a packet in either order of bytes), \<open>transition\<close> (a relation that sequences of
  statements keep: four relations), \<open>guarded\<close> (commands that are not sent after a failed wait: boot
  loader and shell), \<open>macros_table\<close> (a table in which the first entry of a name counts: the list of the
  benchmark).  The laws are proved of the model where it is defined, and the properties rest on
  what the locales prove of them.

  \<^bold>\<open>What the lemmas show.\<close>  Packets: fields are read back where they were put, and every class writes
  the bytes of its protocol.  TFTP: every session keeps its invariant whatever happens; only published files
  are sent; a client that answers gets exactly the file; answers that stay away, empty files and
  repeated requests make \<open>Run\<close> turn for ever.  Serial download: success means that the device acknowledged;
  every wait ends; the number of commands sent is bounded.  YMODEM: the check sum is the CRC-16 of its
  polynomial, and a receiver that acknowledges has the file in the end.  Console: lines are read up to the
  prompt or the time-out, which is remembered, and guarded commands go out in their order.  Loader: a
  success was agreed to by the board at every step; what is known of a board changes only where a line of the console
  says so; a session numbers
  the boards without gaps or repetition and within a byte, and keeps the record of each; making a volume ends for every answer; recipes and their texts
  determine each other; an action without its files does what the next case does, or fails.  Images: the one list of
  writes of a DCD is found, a second one is swallowed.  Environment: new
  values and only those are written back under a valid check sum.  Screen: pictures are right pixel by pixel
  and, if requests are handled one at a time, answered as a whole, but for the moment in which the switch has counted
  and not yet wrapped; with two at a time the frame that is sent may be the one that is filled.  Splash screen: where each pixel goes, and when that is outside of the memory.  Registers:
  no two collide, and the macros find theirs, two excepted.  Modbus: what is accepted on the command line is in
  the ranges of the usage but for two, and is polled within the arrays, polling ends with the first fatal error and only then, up to 125 values are written as they
  were given, and more than that overrun their array.  Benchmark: a key runs the test of its name
  on the size that was written, and the list is freed; which tests leave the memory they have.  Messages: which
  of them leave the stream in another base, and how wide they are.

  \<^bold>\<open>Not modelled.\<close>  Messages within functions that do something else, and where they stand in a session;
  exceptions of the serial port while writing; \<open>Lit2Big\<close> and \<open>TerminateIPC\<close>, which nothing calls; the text of the
  usage of modpoll; what the streams of the benchmark keep in their file, its clock (timer.h), and bzip_test.h,
  which is not compiled.  regiweb is a window of GTK; the other programs under
  regitest exercise hardware by hand and have no logic of the product, dfb_cairo.cpp passes calls on to
  DirectFB and Cairo, simple_server.cpp and simple_client.cpp are samples of another library, and udev_handler.c
  is an example of libudev; the shell scripts run on the board.

  \<^bold>\<open>Plan.\<close>  The order in which the parts were modelled is that of the list above: the protocols, the
  loader on top of them, the tools.  Left are the timing of \<open>PrepareFrame\<close> beyond the bound of its pause,
  and the behaviour of a TFTP client that repeats requests while the loader waits for its console.
\<close>

end
